(* ===== verification/OT_Prelude.thy ===== *)
theory OT_Prelude
  imports Main "HOL-Library.Multiset" "HOL-Library.Char_ord" "HOL-Library.List_Lexorder"
begin

text \<open>
  Shared vocabulary of the development: the parts of the Go language and of its standard library
  that the modelled files use, as executable HOL functions on lists and strings, with the facts
  the components need about them.

  \<^item> A Go string is a sequence of bytes and is modelled by \<^typ>\<open>string\<close>. White space, letter case
    and printability are those of ASCII.
  \<^item> An \<open>error\<close> built by \<open>fmt.Errorf\<close> or \<open>errors.New\<close> is its message (\<open>go_error\<close>), a nil error
    is \<open>None\<close>, and a pair of a value and an error is a sum with the error on the left.
  \<^item> The collection \<open>go_str\<close> holds the rewrite rules on strings that the component proofs use.
\<close>

named_theorems go_str "rewrite rules for the string functions of the standard library"

type_synonym go_error = string

type_synonym 'a go_result = "go_error + 'a"

text \<open>
  The outcome of a function that returns a value and an error and may also panic (an index out of
  range, an explicit \<open>panic\<close>).
\<close>

datatype 'a outcome = Ok 'a | Err go_error | Panic go_error

section \<open>strings.HasPrefix, HasSuffix, Contains, TrimPrefix\<close>

fun has_prefix :: "'a list \<Rightarrow> 'a list \<Rightarrow> bool" where
  "has_prefix s [] = True"
| "has_prefix [] (p # ps) = False"
| "has_prefix (c # s) (p # ps) = (c = p \<and> has_prefix s ps)"

definition has_suffix :: "'a list \<Rightarrow> 'a list \<Rightarrow> bool" where
  "has_suffix s p = has_prefix (rev s) (rev p)"

fun str_contains :: "'a list \<Rightarrow> 'a list \<Rightarrow> bool" where
  "str_contains [] sub = (sub = [])"
| "str_contains (c # s) sub = (has_prefix (c # s) sub \<or> str_contains s sub)"

definition trim_prefix :: "'a list \<Rightarrow> 'a list \<Rightarrow> 'a list" where
  "trim_prefix s p = (if has_prefix s p then drop (length p) s else s)"

section \<open>strings.Split, SplitN, Join, Replace\<close>

text \<open>
  \<open>strings.Split\<close> and \<open>strings.Replace\<close> are called with a separator that is not empty.
  \<open>split_acc\<close> carries the bytes of the current field in reverse.
\<close>

fun split_acc :: "'a list \<Rightarrow> 'a list \<Rightarrow> 'a list \<Rightarrow> 'a list list" where
  "split_acc sep acc [] = [rev acc]"
| "split_acc sep acc (c # s) =
     (if has_prefix (c # s) sep then rev acc # split_acc sep [] (drop (length sep - 1) s)
      else split_acc sep (c # acc) s)"

definition str_split :: "'a list \<Rightarrow> 'a list \<Rightarrow> 'a list list" where
  "str_split s sep = split_acc sep [] s"

fun split2_acc :: "'a list \<Rightarrow> 'a list \<Rightarrow> 'a list \<Rightarrow> 'a list list" where
  "split2_acc sep acc [] = [rev acc]"
| "split2_acc sep acc (c # s) =
     (if has_prefix (c # s) sep then [rev acc, drop (length sep) (c # s)]
      else split2_acc sep (c # acc) s)"

text \<open>\<open>strings.SplitN(s, sep, 2)\<close>.\<close>

definition str_splitN2 :: "'a list \<Rightarrow> 'a list \<Rightarrow> 'a list list" where
  "str_splitN2 s sep = split2_acc sep [] s"

fun str_join :: "'a list list \<Rightarrow> 'a list \<Rightarrow> 'a list" where
  "str_join [] sep = []"
| "str_join [x] sep = x"
| "str_join (x # y # ys) sep = x @ sep @ str_join (y # ys) sep"

definition str_replace_all :: "'a list \<Rightarrow> 'a list \<Rightarrow> 'a list \<Rightarrow> 'a list" where
  "str_replace_all s old new = str_join (str_split s old) new"

section \<open>strings.TrimSpace, ToLower, LastIndex\<close>

abbreviation newline :: char where
  "newline \<equiv> CHR 0x0A"

abbreviation dquote :: char where
  "dquote \<equiv> CHR 0x22"

abbreviation backslash :: char where
  "backslash \<equiv> CHR 0x5C"

definition is_space :: "char \<Rightarrow> bool" where
  "is_space c = (c \<in> {CHR 0x09, CHR 0x0A, CHR 0x0B, CHR 0x0C, CHR 0x0D, CHR 0x20})"

definition trim_left :: "string \<Rightarrow> string" where
  "trim_left s = dropWhile is_space s"

definition trim_space :: "string \<Rightarrow> string" where
  "trim_space s = rev (dropWhile is_space (rev (dropWhile is_space s)))"

definition lower_char :: "char \<Rightarrow> char" where
  "lower_char c =
     (if 65 \<le> (of_char c :: nat) \<and> (of_char c :: nat) \<le> 90 then char_of ((of_char c :: nat) + 32) else c)"

definition to_lower :: "string \<Rightarrow> string" where
  "to_lower s = map lower_char s"

text \<open>The last position of a byte in a string; \<open>-1\<close> when it does not occur.\<close>

fun last_index :: "char \<Rightarrow> string \<Rightarrow> int" where
  "last_index c [] = -1"
| "last_index c (d # s) =
     (let i = last_index c s in if i \<ge> 0 then i + 1 else if c = d then 0 else -1)"

text \<open>The order \<open><\<close> of strings: lexicographic on bytes.\<close>

fun str_less :: "string \<Rightarrow> string \<Rightarrow> bool" where
  "str_less s [] = False"
| "str_less [] (d # t) = True"
| "str_less (c # s) (d # t) =
     (if c = d then str_less s t else (of_char c :: nat) < of_char d)"

section \<open>strconv.Itoa, strconv.Atoi\<close>

definition digit_char :: "nat \<Rightarrow> char" where
  "digit_char d = char_of (48 + d)"

text \<open>Decimal digits are computed on integers, whose numerals evaluate in binary.\<close>

function dec_str :: "int \<Rightarrow> string" where
  "dec_str n = (if n < 10 then [digit_char (nat n)] else dec_str (n div 10) @ [digit_char (nat (n mod 10))])"
  by pat_completeness auto
termination
  by (relation "measure nat") auto

declare dec_str.simps [simp del]

definition int_str :: "int \<Rightarrow> string" where
  "int_str i = (if i < 0 then CHR ''-'' # dec_str (- i) else dec_str i)"

abbreviation nat_str :: "nat \<Rightarrow> string" where
  "nat_str n \<equiv> int_str (int n)"

text \<open>\<open>%0wd\<close> for a number that is not negative: at least \<open>w\<close> digits.\<close>

definition pad_str :: "nat \<Rightarrow> int \<Rightarrow> string" where
  "pad_str w n = replicate (w - length (dec_str n)) CHR ''0'' @ dec_str n"

text \<open>\<open>%-ws\<close>: at least \<open>w\<close> bytes, padded on the right.\<close>

definition pad_right :: "nat \<Rightarrow> string \<Rightarrow> string" where
  "pad_right w s = s @ replicate (w - length s) CHR '' ''"

text \<open>Integer division truncates towards zero.\<close>

definition go_quot :: "int \<Rightarrow> int \<Rightarrow> int" where
  "go_quot a b = sgn a * sgn b * (\<bar>a\<bar> div \<bar>b\<bar>)"

definition is_digit :: "char \<Rightarrow> bool" where
  "is_digit c = (48 \<le> (of_char c :: nat) \<and> (of_char c :: nat) \<le> 57)"

fun digits_val :: "nat \<Rightarrow> string \<Rightarrow> nat" where
  "digits_val acc [] = acc"
| "digits_val acc (c # s) = digits_val (10 * acc + (of_char c - 48)) s"

definition parse_digits :: "string \<Rightarrow> nat option" where
  "parse_digits s = (if s \<noteq> [] \<and> list_all is_digit s then Some (digits_val 0 s) else None)"

text \<open>\<open>strconv.Atoi\<close>: an optional sign, decimal digits, and a value in the range of a 64-bit int.\<close>

definition atoi :: "string \<Rightarrow> int option" where
  "atoi s =
     (let (neg, ds) = (case s of [] \<Rightarrow> (False, [])
                        | c # r \<Rightarrow> if c = CHR ''-'' then (True, r)
                                   else if c = CHR ''+'' then (False, r) else (False, s))
      in case parse_digits ds of
           None \<Rightarrow> None
         | Some n \<Rightarrow> let v = (if neg then - int n else int n)
                     in if - (2 ^ 63) \<le> v \<and> v < 2 ^ 63 then Some v else None)"

text \<open>\<open>Atoi\<close> reads what \<open>Itoa\<close> prints.\<close>

lemma digit_char_val: "d < 10 \<Longrightarrow> (of_char (digit_char d) :: nat) = 48 + d"
  by (simp add: digit_char_def)

lemma digits_val_append: "digits_val acc (s @ [c]) = 10 * digits_val acc s + (of_char c - 48)"
  by (induction acc s rule: digits_val.induct) simp_all

lemma dec_str_digits: "0 \<le> n \<Longrightarrow> dec_str n \<noteq> [] \<and> list_all is_digit (dec_str n) \<and> int (digits_val 0 (dec_str n)) = n"
proof (induction n rule: dec_str.induct)
  case (1 n)
  show ?case
  proof (cases "n < 10")
    case True
    with 1(2) show ?thesis by (simp add: dec_str.simps [of n] is_digit_def digit_char_val)
  next
    case False
    with 1 have ih: "list_all is_digit (dec_str (n div 10))" "int (digits_val 0 (dec_str (n div 10))) = n div 10" by auto
    have d: "(of_char (digit_char (nat (n mod 10))) :: nat) = 48 + nat (n mod 10)" by (rule digit_char_val) auto
    have "nat (n mod 10) < 10" by auto
    with d have "is_digit (digit_char (nat (n mod 10)))" by (simp add: is_digit_def)
    with False ih d show ?thesis
      by (simp add: dec_str.simps [of n] digits_val_append)
  qed
qed

lemma dec_str_hd: "0 \<le> n \<Longrightarrow> \<exists>c r. dec_str n = c # r \<and> c \<noteq> CHR ''-'' \<and> c \<noteq> CHR ''+''"
  using dec_str_digits [of n] by (cases "dec_str n") (auto simp: is_digit_def)

lemma atoi_int_str: "- (2 ^ 63) \<le> n \<Longrightarrow> n < 2 ^ 63 \<Longrightarrow> atoi (int_str n) = Some n"
proof (cases "n < 0")
  case True
  assume "- (2 ^ 63) \<le> n" "n < 2 ^ 63"
  with True dec_str_digits [of "- n"] show ?thesis by (simp add: atoi_def int_str_def parse_digits_def)
next
  case False
  assume "- (2 ^ 63) \<le> n" "n < 2 ^ 63"
  moreover obtain c r where c: "dec_str n = c # r" "c \<noteq> CHR ''-''" "c \<noteq> CHR ''+''" using dec_str_hd [of n] False by auto
  ultimately show ?thesis
    using False dec_str_digits [of n] by (simp add: atoi_def int_str_def parse_digits_def)
qed

section \<open>sort.Search\<close>

text \<open>
  The binary search of \<open>sort.Search\<close>: \<open>i\<close> and \<open>j\<close> bound the answer, and the midpoint does not
  overflow since the source computes it as an unsigned number.
\<close>

function search_loop :: "(nat \<Rightarrow> bool) \<Rightarrow> nat \<Rightarrow> nat \<Rightarrow> nat" where
  "search_loop f i j =
     (if i < j then let h = (i + j) div 2 in if f h then search_loop f i h else search_loop f (h + 1) j
      else i)"
  by pat_completeness auto
termination
  by (relation "measure (\<lambda>(f, i, j). j - i)") auto

declare search_loop.simps [simp del]

definition sort_search :: "nat \<Rightarrow> (nat \<Rightarrow> bool) \<Rightarrow> nat" where
  "sort_search n f = search_loop f 0 n"

section \<open>sort.Sort and sort.Slice\<close>

text \<open>
  Sorting by a \<open>Less\<close> function. The order of elements that are equivalent under \<open>Less\<close> is not
  fixed by the standard library; the model keeps their order, and the contract \<open>sorter\<close> below
  states only what the standard library promises.
\<close>

fun insert_by :: "('a \<Rightarrow> 'a \<Rightarrow> bool) \<Rightarrow> 'a \<Rightarrow> 'a list \<Rightarrow> 'a list" where
  "insert_by lt x [] = [x]"
| "insert_by lt x (y # ys) = (if lt y x then y # insert_by lt x ys else x # y # ys)"

fun sort_by :: "('a \<Rightarrow> 'a \<Rightarrow> bool) \<Rightarrow> 'a list \<Rightarrow> 'a list" where
  "sort_by lt [] = []"
| "sort_by lt (x # xs) = insert_by lt x (sort_by lt xs)"

section \<open>Facts about prefixes and containment\<close>

lemma has_prefix_iff: "has_prefix s p \<longleftrightarrow> (\<exists>t. s = p @ t)"
  by (induction s p rule: has_prefix.induct) auto

lemma has_prefix_append [simp, go_str]: "has_prefix (p @ t) p"
  by (auto simp: has_prefix_iff)

lemma has_suffix_iff: "has_suffix s p \<longleftrightarrow> (\<exists>t. s = t @ p)"
proof
  assume "has_suffix s p"
  then obtain t where "rev s = rev p @ t"
    by (auto simp: has_suffix_def has_prefix_iff)
  then have "s = rev t @ p"
    by (metis rev_append rev_rev_ident)
  then show "\<exists>t. s = t @ p" ..
qed (auto simp: has_suffix_def has_prefix_iff)

lemma str_contains_iff: "str_contains s sub \<longleftrightarrow> (\<exists>a b. s = a @ sub @ b)"
proof (induction s)
  case (Cons c s)
  show ?case
  proof
    assume "str_contains (c # s) sub"
    then consider (pre) "has_prefix (c # s) sub" | (rest) "str_contains s sub" by auto
    then show "\<exists>a b. c # s = a @ sub @ b"
    proof cases
      case pre
      then obtain t where "c # s = [] @ sub @ t" by (auto simp: has_prefix_iff)
      then show ?thesis by blast
    next
      case rest
      with Cons.IH obtain a b where "s = a @ sub @ b" by blast
      then have "c # s = (c # a) @ sub @ b" by simp
      then show ?thesis by blast
    qed
  next
    assume "\<exists>a b. c # s = a @ sub @ b"
    then obtain a b where ab: "c # s = a @ sub @ b" by blast
    show "str_contains (c # s) sub"
    proof (cases a)
      case Nil
      with ab have "has_prefix (c # s) sub" by (simp only: has_prefix_iff) auto
      then show ?thesis by simp
    next
      case (Cons d a')
      with ab have "s = a' @ sub @ b" by simp
      with Cons.IH show ?thesis by auto
    qed
  qed
qed auto

lemma str_contains_Nil [simp, go_str]: "str_contains s []"
  by (auto simp: str_contains_iff)

lemma str_contains_self [simp, go_str]: "str_contains s s"
  by (metis append_Nil append_Nil2 str_contains_iff)

lemma str_contains_append: "str_contains s sub \<Longrightarrow> str_contains (a @ s @ b) sub"
  unfolding str_contains_iff by (metis append.assoc)

lemma str_contains_appendL [intro]: "str_contains s sub \<Longrightarrow> str_contains (s @ b) sub"
  using str_contains_append [of s sub "[]" b] by simp

lemma str_contains_appendR [intro]: "str_contains s sub \<Longrightarrow> str_contains (a @ s) sub"
  using str_contains_append [of s sub a "[]"] by simp

lemma str_contains_trans: "str_contains s t \<Longrightarrow> str_contains t u \<Longrightarrow> str_contains s u"
  unfolding str_contains_iff by (metis append.assoc)

lemma trim_prefix_append [simp, go_str]: "trim_prefix (p @ s) p = s"
  by (simp add: trim_prefix_def)

lemma trim_prefix_absent: "\<not> has_prefix s p \<Longrightarrow> trim_prefix s p = s"
  by (simp add: trim_prefix_def)

lemma str_less_asym: "str_less s t \<Longrightarrow> \<not> str_less t s"
  by (induction s t rule: str_less.induct) (auto split: if_splits)

lemma str_less_cotrans: "str_less s u \<Longrightarrow> str_less s t \<or> str_less t u"
proof (induction s u arbitrary: t rule: str_less.induct)
  case (2 d u)
  then show ?case by (cases t) auto
next
  case (3 c s d u)
  show ?case
  proof (cases t)
    case (Cons e t')
    have total: "x \<noteq> y \<Longrightarrow> (of_char x :: nat) < of_char y \<or> (of_char y :: nat) < of_char x" for x y :: char
      by (metis char_of_char linorder_less_linear)
    with 3 Cons show ?thesis
      using total [of c e] total [of e d] by (auto split: if_splits)
  qed (use 3 in auto)
qed simp

section \<open>Facts about splitting\<close>

lemma split_acc_nonempty [simp]: "split_acc sep acc s \<noteq> []"
  by (induction sep acc s rule: split_acc.induct) auto

lemma str_split_nonempty [simp]: "str_split s sep \<noteq> []"
  by (simp add: str_split_def)

lemma str_join_Cons: "xs \<noteq> [] \<Longrightarrow> str_join (x # xs) sep = x @ sep @ str_join xs sep"
  by (cases xs) auto

lemma has_prefix_drop: "has_prefix s p \<Longrightarrow> s = p @ drop (length p) s"
  by (auto simp: has_prefix_iff)

lemma split_acc_join: "sep \<noteq> [] \<Longrightarrow> str_join (split_acc sep acc s) sep = rev acc @ s"
proof (induction sep acc s rule: split_acc.induct)
  case (2 sep acc c s)
  show ?case
  proof (cases "has_prefix (c # s) sep")
    case True
    from \<open>sep \<noteq> []\<close> obtain d ds where sep: "sep = d # ds" by (cases sep) auto
    have "c # s = sep @ drop (length sep) (c # s)" by (rule has_prefix_drop [OF True])
    also have "drop (length sep) (c # s) = drop (length sep - 1) s" by (simp add: sep)
    finally have "sep @ drop (length sep - 1) s = c # s" by simp
    with True 2 show ?thesis by (simp add: str_join_Cons)
  next
    case False
    with 2 show ?thesis by simp
  qed
qed simp

lemma str_split_join: "sep \<noteq> [] \<Longrightarrow> str_join (str_split s sep) sep = s"
  by (simp add: str_split_def split_acc_join)

lemma split_acc_char:
  "c \<notin> set x \<Longrightarrow> split_acc [c] acc (x @ c # s) = (rev acc @ x) # split_acc [c] [] s"
  by (induction x arbitrary: acc) auto

lemma split_acc_char_end: "c \<notin> set x \<Longrightarrow> split_acc [c] acc x = [rev acc @ x]"
  by (induction x arbitrary: acc) auto

lemma split_char_line: "c \<notin> set x \<Longrightarrow> str_split (x @ c # s) [c] = x # str_split s [c]"
  by (simp add: str_split_def split_acc_char)

lemma split_char_end: "c \<notin> set x \<Longrightarrow> str_split x [c] = [x]"
  by (simp add: str_split_def split_acc_char_end)

lemma split2_acc_char:
  "c \<notin> set x \<Longrightarrow> split2_acc [c] acc (x @ c # s) = [rev acc @ x, s]"
  by (induction x arbitrary: acc) auto

lemma split2_acc_char_end: "c \<notin> set x \<Longrightarrow> split2_acc [c] acc x = [rev acc @ x]"
  by (induction x arbitrary: acc) auto

lemma splitN2_char: "c \<notin> set x \<Longrightarrow> str_splitN2 (x @ c # s) [c] = [x, s]"
  by (simp add: str_splitN2_def split2_acc_char)

lemma splitN2_char_end: "c \<notin> set x \<Longrightarrow> str_splitN2 x [c] = [x]"
  by (simp add: str_splitN2_def split2_acc_char_end)

section \<open>Facts about trimming\<close>

lemma dropWhile_hd: "xs = [] \<or> \<not> P (hd xs) \<Longrightarrow> dropWhile P xs = xs"
  by (cases xs) auto

lemma trim_space_id:
  "s = [] \<or> (\<not> is_space (hd s) \<and> \<not> is_space (last s)) \<Longrightarrow> trim_space s = s"
  by (auto simp: trim_space_def dropWhile_hd hd_rev)

lemma dropWhile_split: "\<exists>a. s = a @ dropWhile P s \<and> list_all P a"
  by (metis list_all_iff set_takeWhileD takeWhile_dropWhile_id)

lemma trim_space_split: "\<exists>a b. s = a @ trim_space s @ b \<and> list_all is_space a \<and> list_all is_space b"
proof -
  let ?t = "dropWhile is_space s"
  obtain a where a: "s = a @ ?t" "list_all is_space a" using dropWhile_split by blast
  obtain b where b: "rev ?t = b @ dropWhile is_space (rev ?t)" "list_all is_space b"
    using dropWhile_split by blast
  from b(1) have "?t = trim_space s @ rev b"
    by (metis rev_append rev_rev_ident trim_space_def)
  with a b(2) have "s = a @ trim_space s @ rev b" "list_all is_space (rev b)" by auto
  with a(2) show ?thesis by blast
qed

section \<open>Facts about binary search\<close>

lemma search_loop_least:
  assumes "i \<le> j" and "\<And>a b. a \<le> b \<Longrightarrow> f a \<Longrightarrow> f b"
    and "\<And>k. k < i \<Longrightarrow> \<not> f k" and "j < n \<Longrightarrow> f j" and "j \<le> n"
  shows "search_loop f i j \<le> n \<and> (\<forall>k < search_loop f i j. \<not> f k)
     \<and> (search_loop f i j < n \<longrightarrow> f (search_loop f i j))"
  using assms
proof (induction f i j rule: search_loop.induct)
  case (1 f i j)
  show ?case
  proof (cases "i < j")
    case False
    then have "search_loop f i j = i" by (simp add: search_loop.simps [of f i j])
    with False 1(3,5,6,7) show ?thesis by (metis le_antisym not_less)
  next
    case True
    define h where "h = (i + j) div 2"
    have h: "i \<le> h" "h < j" using True by (auto simp: h_def)
    show ?thesis
    proof (cases "f h")
      case fh: True
      have eq: "search_loop f i j = search_loop f i h"
        using True fh by (simp add: search_loop.simps [of f i j] h_def Let_def)
      show ?thesis unfolding eq
        by (rule 1(1) [OF True h_def fh]) (use h fh 1(4,5,7) in auto)
    next
      case fh: False
      have eq: "search_loop f i j = search_loop f (h + 1) j"
        using True fh by (simp add: search_loop.simps [of f i j] h_def Let_def)
      have below: "\<not> f k" if "k < h + 1" for k
        using that fh 1(4) [of k h] by auto
      show ?thesis unfolding eq
        by (rule 1(2) [OF True h_def fh]) (use h below 1(4,6,7) in auto)
    qed
  qed
qed

lemma sort_search_least:
  assumes "\<And>a b. a \<le> b \<Longrightarrow> f a \<Longrightarrow> f b"
  shows "sort_search n f \<le> n \<and> (\<forall>k < sort_search n f. \<not> f k)
     \<and> (sort_search n f < n \<longrightarrow> f (sort_search n f))"
  unfolding sort_search_def by (rule search_loop_least) (use assms in auto)

lemma search_loop_cong: "(\<And>k. k < j \<Longrightarrow> f k = g k) \<Longrightarrow> search_loop f i j = search_loop g i j"
proof (induction f i j rule: search_loop.induct)
  case (1 f i j)
  define h where "h = (i + j) div 2"
  show ?case
  proof (cases "i < j")
    case True
    then have "h < j" by (auto simp: h_def)
    with 1 True show ?thesis by (simp add: search_loop.simps [of _ i j] Let_def h_def)
  qed (simp add: search_loop.simps)
qed

lemma sort_search_cong: "(\<And>k. k < n \<Longrightarrow> f k = g k) \<Longrightarrow> sort_search n f = sort_search n g"
  unfolding sort_search_def by (rule search_loop_cong)

section \<open>Facts about sorting\<close>

lemma mset_insert_by [simp]: "mset (insert_by lt x xs) = add_mset x (mset xs)"
  by (induction xs) auto

lemma mset_sort_by [simp]: "mset (sort_by lt xs) = mset xs"
  by (induction xs) auto

lemma set_insert_by [simp]: "set (insert_by lt x xs) = insert x (set xs)"
  by (induction xs) auto

lemma length_sort_by [simp]: "length (sort_by lt xs) = length xs"
  by (metis mset_sort_by size_mset)

lemma set_sort_by [simp]: "set (sort_by lt xs) = set xs"
  by (metis mset_sort_by set_mset_mset)

text \<open>
  What \<open>sort.Interface\<close> asks of a \<open>Less\<close> function (a strict weak order), and what follows from it
  for a list sorted by it.
\<close>

locale strict_weak =
  fixes lt :: "'a \<Rightarrow> 'a \<Rightarrow> bool"
  assumes lt_asym: "lt x y \<Longrightarrow> \<not> lt y x"
    and lt_cotrans: "lt x z \<Longrightarrow> lt x y \<or> lt y z"
begin

lemma not_lt_trans: "\<not> lt y x \<Longrightarrow> \<not> lt z y \<Longrightarrow> \<not> lt z x"
  using lt_cotrans [of z x y] by blast

lemma insert_by_sorted:
  "sorted_wrt (\<lambda>a b. \<not> lt b a) xs \<Longrightarrow> sorted_wrt (\<lambda>a b. \<not> lt b a) (insert_by lt x xs)"
proof (induction xs)
  case (Cons y ys)
  then have tail: "sorted_wrt (\<lambda>a b. \<not> lt b a) (insert_by lt x ys)"
    and y: "\<And>b. b \<in> set ys \<Longrightarrow> \<not> lt b y" by auto
  show ?case
  proof (cases "lt y x")
    case True
    with tail y lt_asym show ?thesis by auto
  next
    case False
    then have "\<not> lt b x" if "b \<in> set ys" for b
      using y [OF that] not_lt_trans by blast
    with False Cons.prems show ?thesis by auto
  qed
qed simp

end

text \<open>
  The contract of \<open>sort.Sort\<close> towards its callers: the result is a permutation of the input in
  which no element is less than an earlier one.
\<close>

locale sorter = strict_weak lt for lt :: "'a \<Rightarrow> 'a \<Rightarrow> bool" +
  fixes srt :: "'a list \<Rightarrow> 'a list"
  assumes srt_mset: "mset (srt xs) = mset xs"
    and srt_sorted: "sorted_wrt (\<lambda>a b. \<not> lt b a) (srt xs)"
begin

lemma srt_set: "set (srt xs) = set xs"
  using srt_mset by (metis set_mset_mset)

lemma srt_last_max: "xs \<noteq> [] \<Longrightarrow> x \<in> set xs \<Longrightarrow> \<not> lt (last (srt xs)) x"
proof -
  assume "xs \<noteq> []" and x: "x \<in> set xs"
  then have "srt xs \<noteq> []" using srt_set by (metis empty_set length_greater_0_conv list.set_sel(1) equals0D)
  then obtain ys y where ys: "srt xs = ys @ [y]" by (metis append_butlast_last_id)
  from x have "x \<in> set ys \<or> x = y" using srt_set [of xs] ys by auto
  with srt_sorted [of xs] ys show ?thesis
    by (auto simp: sorted_wrt_append dest: lt_asym)
qed

lemma srt_filter_mset: "mset (filter P (srt xs)) = mset (filter P xs)"
  using srt_mset by (simp add: mset_filter)

end

sublocale strict_weak \<subseteq> by_insertion: sorter lt "sort_by lt"
proof
  fix xs
  show "mset (sort_by lt xs) = mset xs" by simp
  show "sorted_wrt (\<lambda>a b. \<not> lt b a) (sort_by lt xs)"
    by (induction xs) (auto intro: insert_by_sorted)
qed

text \<open>The order of strings, by which \<open>sort.Strings\<close> sorts.\<close>

interpretation strs: strict_weak str_less
  by unfold_locales (erule str_less_asym, erule str_less_cotrans)

end
