(* ===== verification/Go_Strconv.thy ===== *)
theory Go_Strconv
  imports OT_Prelude
begin

text \<open>
  \<open>strconv.Unquote\<close> and the verb \<open>%q\<close> (\<open>strconv.Quote\<close>), which the runner uses to print test names
  in \<open>--dry-run\<close> and to read them back from a file. Bytes from 0x80 on are taken as text in valid
  UTF-8 that the standard library passes through unchanged.
\<close>

section \<open>Hexadecimal and octal digits, UTF-8\<close>

definition hex_val :: "char \<Rightarrow> nat option" where
  "hex_val c = (let n = (of_char c :: nat) in
     if 48 \<le> n \<and> n \<le> 57 then Some (n - 48)
     else if 97 \<le> n \<and> n \<le> 102 then Some (n - 87)
     else if 65 \<le> n \<and> n \<le> 70 then Some (n - 55) else None)"

definition hex_digit :: "nat \<Rightarrow> char" where
  "hex_digit d = (if d < 10 then char_of (48 + d) else char_of (87 + d))"

text \<open>The value of exactly \<open>k\<close> digits, each below \<open>base\<close>, at the start of a string.\<close>

fun based_val :: "nat \<Rightarrow> nat \<Rightarrow> nat \<Rightarrow> string \<Rightarrow> nat option" where
  "based_val base 0 acc s = Some acc"
| "based_val base (Suc k) acc [] = None"
| "based_val base (Suc k) acc (c # s) =
     (case hex_val c of None \<Rightarrow> None
      | Some d \<Rightarrow> if d < base then based_val base k (base * acc + d) s else None)"

definition utf8_encode :: "nat \<Rightarrow> string" where
  "utf8_encode r0 =
     (let r = (if r0 > 0x10FFFF \<or> (0xD800 \<le> r0 \<and> r0 \<le> 0xDFFF) then 0xFFFD else r0) in
      if r < 0x80 then [char_of r]
      else if r < 0x800 then [char_of (0xC0 + r div 64), char_of (0x80 + r mod 64)]
      else if r < 0x10000 then
        [char_of (0xE0 + r div 4096), char_of (0x80 + r div 64 mod 64), char_of (0x80 + r mod 64)]
      else [char_of (0xF0 + r div 262144), char_of (0x80 + r div 4096 mod 64),
            char_of (0x80 + r div 64 mod 64), char_of (0x80 + r mod 64)])"

section \<open>strconv.Unquote on a double-quoted string\<close>

definition simple_escape :: "char \<Rightarrow> char option" where
  "simple_escape e = map_of [(CHR ''a'', CHR 0x07), (CHR ''b'', CHR 0x08), (CHR ''f'', CHR 0x0C),
     (CHR ''n'', CHR 0x0A), (CHR ''r'', CHR 0x0D), (CHR ''t'', CHR 0x09), (CHR ''v'', CHR 0x0B),
     (backslash, backslash), (dquote, dquote)] e"

fun unquote_body :: "string \<Rightarrow> string option" where
  "unquote_body [] = Some []"
| "unquote_body (c # s) =
     (if c = dquote \<or> c = newline then None
      else if c \<noteq> backslash then map_option (Cons c) (unquote_body s)
      else case s of [] \<Rightarrow> None
        | e # r \<Rightarrow>
          (case simple_escape e of
             Some x \<Rightarrow> map_option (Cons x) (unquote_body r)
           | None \<Rightarrow>
             if e = CHR ''x'' then
               (case based_val 16 2 0 r of None \<Rightarrow> None
                | Some n \<Rightarrow> map_option (Cons (char_of n)) (unquote_body (drop 2 r)))
             else if e = CHR ''u'' then
               (case based_val 16 4 0 r of None \<Rightarrow> None
                | Some n \<Rightarrow> map_option (append (utf8_encode n)) (unquote_body (drop 4 r)))
             else if e = CHR ''U'' then
               (case based_val 16 8 0 r of None \<Rightarrow> None
                | Some n \<Rightarrow> if n > 0x10FFFF then None
                            else map_option (append (utf8_encode n)) (unquote_body (drop 8 r)))
             else
               (case based_val 8 3 0 s of None \<Rightarrow> None
                | Some n \<Rightarrow> if n > 255 then None
                            else map_option (Cons (char_of n)) (unquote_body (drop 2 r)))))"

definition strconv_Unquote :: "string \<Rightarrow> string go_result" where
  "strconv_Unquote s =
     (if length s < 2 \<or> hd s \<noteq> dquote \<or> last s \<noteq> dquote then Inl ''invalid syntax''
      else case unquote_body (butlast (tl s)) of
             None \<Rightarrow> Inl ''invalid syntax'' | Some t \<Rightarrow> Inr t)"

section \<open>strconv.Quote\<close>

definition quote_char :: "char \<Rightarrow> string" where
  "quote_char c = (let n = (of_char c :: nat) in
     if c = dquote \<or> c = backslash then [backslash, c]
     else if 32 \<le> n \<and> n \<noteq> 127 then [c]
     else if n = 7 then [backslash, CHR ''a''] else if n = 8 then [backslash, CHR ''b'']
     else if n = 12 then [backslash, CHR ''f''] else if n = 10 then [backslash, CHR ''n'']
     else if n = 13 then [backslash, CHR ''r''] else if n = 9 then [backslash, CHR ''t'']
     else if n = 11 then [backslash, CHR ''v'']
     else [backslash, CHR ''x'', hex_digit (n div 16), hex_digit (n mod 16)])"

definition strconv_Quote :: "string \<Rightarrow> string" where
  "strconv_Quote s = dquote # concat (map quote_char s) @ [dquote]"

section \<open>Reading back what was quoted\<close>

lemma hex_val_digit: "d < 16 \<Longrightarrow> hex_val (hex_digit d) = Some d"
  by (auto simp: hex_val_def hex_digit_def Let_def)

lemma quote_char_no_newline: "newline \<notin> set (quote_char c)"
proof -
  have hex: "hex_digit d \<noteq> newline" if "d < 16" for d
  proof
    assume "hex_digit d = newline"
    then have "hex_val newline = Some d" using hex_val_digit [OF that] by simp
    then show False by (simp add: hex_val_def)
  qed
  have "(of_char c :: nat) div 16 < 16" "(of_char c :: nat) mod 16 < 16"
    using less_mult_imp_div_less [of "of_char c" 16 16] nat_of_char_less_256 [of c] by simp_all
  then show ?thesis
    using hex [of "of_char c div 16"] hex [of "of_char c mod 16"]
    by (auto simp: quote_char_def Let_def)
qed

lemma hex_two_digits:
  "n < 256 \<Longrightarrow> based_val 16 2 0 (hex_digit (n div 16) # hex_digit (n mod 16) # r) = Some n"
  by (simp add: numeral_2_eq_2 hex_val_digit less_mult_imp_div_less)

lemma unquote_quote_char:
  "unquote_body (quote_char c @ r) = map_option (Cons c) (unquote_body r)"
proof -
  let ?n = "of_char c :: nat"
  have n: "?n < 256" by simp
  have c: "c = char_of ?n" by simp
  consider (esc) "c = dquote \<or> c = backslash" | (plain) "c \<noteq> dquote" "c \<noteq> backslash" "32 \<le> ?n \<and> ?n \<noteq> 127"
    | (ctl) "c \<noteq> dquote" "c \<noteq> backslash" "\<not> (32 \<le> ?n \<and> ?n \<noteq> 127)" by blast
  then show ?thesis
  proof cases
    case esc
    then show ?thesis by (auto simp: quote_char_def simple_escape_def)
  next
    case plain
    then have "c \<noteq> newline" by auto
    with plain show ?thesis by (simp add: quote_char_def Let_def)
  next
    case ctl
    show ?thesis
    proof (cases "?n \<in> {7, 8, 9, 10, 11, 12, 13}")
      case True
      then have "c \<in> {char_of (7::nat), char_of (8::nat), char_of (9::nat), char_of (10::nat),
          char_of (11::nat), char_of (12::nat), char_of (13::nat)}"
        by (metis c insert_iff empty_iff)
      then show ?thesis
        by (auto simp: quote_char_def simple_escape_def char_of_def bit_iff_odd)
    next
      case False
      with ctl have q: "quote_char c = [backslash, CHR ''x'', hex_digit (?n div 16), hex_digit (?n mod 16)]"
        by (auto simp: quote_char_def Let_def)
      have "based_val 16 2 0 (hex_digit (?n div 16) # hex_digit (?n mod 16) # r) = Some ?n"
        by (rule hex_two_digits [OF n])
      then show ?thesis by (simp add: q simple_escape_def)
    qed
  qed
qed

lemma unquote_body_quote: "unquote_body (concat (map quote_char s)) = Some s"
proof (induction s)
  case (Cons c s)
  then show ?case by (simp add: unquote_quote_char)
qed simp

lemma Unquote_Quote [simp, go_str]: "strconv_Unquote (strconv_Quote s) = Inr s"
  by (simp add: strconv_Unquote_def strconv_Quote_def unquote_body_quote butlast_append)

lemma Quote_no_newline [simp]: "newline \<notin> set (strconv_Quote s)"
  using quote_char_no_newline by (auto simp: strconv_Quote_def)

lemma Quote_trim [simp]: "trim_space (strconv_Quote s) = strconv_Quote s"
  by (rule trim_space_id) (auto simp: strconv_Quote_def is_space_def)

lemma Quote_has_prefix [simp]: "has_prefix (strconv_Quote s) [dquote]"
  by (simp add: strconv_Quote_def)

end
