(* ===== verification/Test_Case.thy ===== *)
theory Test_Case
  imports Go_Strconv
begin

text \<open>
  The data of the suite runner and the operations on single tests and suites:
  \<open>pkg/test/ginkgo/test.go\<close>, the enumeration of tests in \<open>ginkgo.go\<close> and \<open>setTestExclusion\<close> and
  \<open>splitTests\<close> of \<open>queue.go\<close>.

  Tests are passed around as pointers and mutated while they run, and \<open>--count\<close> puts one pointer
  into the list of tests several times, so a test is an address (\<open>taddr\<close>) into a store of
  \<open>testCase\<close> records. The functions that only read or build records work on the records.
\<close>

section \<open>Data\<close>

text \<open>The parts of \<open>types.CodeLocation\<close> and of the \<open>ginkgoSpec\<close> interface that the runner reads.\<close>

record CodeLocation =
  FileName :: string
  LineNumber :: int
  FullStackTrace :: string

record ginkgoSpec =
  ConcatenatedString :: string
  ComponentCodeLocations :: "CodeLocation list"

type_synonym taddr = nat

record testCase =
  tc_name :: string
  tc_spec :: ginkgoSpec
  tc_location :: CodeLocation
  tc_testExclusion :: string
  tc_start :: int
  tc_end :: int
  tc_duration :: int
  tc_out :: string
  tc_success :: bool
  tc_failed :: bool
  tc_skipped :: bool
  tc_previous :: "taddr option"

type_synonym tstore = "taddr \<Rightarrow> testCase"

record TestSuite =
  ts_Name :: string
  ts_Description :: string
  ts_Matches :: "string \<Rightarrow> bool"
  ts_Count :: int
  ts_Parallelism :: int
  ts_MaximumAllowedFlakes :: int
  ts_TestTimeout :: int

section \<open>Building and copying tests\<close>

definition newTestCase :: "ginkgoSpec \<Rightarrow> testCase outcome" where
  "newTestCase spec =
     (let name = trim_prefix (ConcatenatedString spec) ''[Top Level] '';
          locs = ComponentCodeLocations spec
      in if locs = [] then Panic ''index out of range''
         else Ok \<lparr>tc_name = name, tc_spec = spec, tc_location = last locs, tc_testExclusion = '''',
                  tc_start = 0, tc_end = 0, tc_duration = 0, tc_out = '''', tc_success = False,
                  tc_failed = False, tc_skipped = False, tc_previous = None\<rparr>)"

definition Retry :: "taddr \<Rightarrow> testCase \<Rightarrow> testCase" where
  "Retry a t =
     \<lparr>tc_name = tc_name t, tc_spec = tc_spec t, tc_location = tc_location t,
      tc_testExclusion = tc_testExclusion t, tc_start = 0, tc_end = 0, tc_duration = 0, tc_out = '''',
      tc_success = False, tc_failed = False, tc_skipped = False, tc_previous = Some a\<rparr>"

text \<open>
  The iterator of the global suite yields the specs one by one and then an error; the error
  \<open>no more specs to run\<close> ends the enumeration.
\<close>

fun testsForSuite :: "ginkgoSpec list \<Rightarrow> go_error \<Rightarrow> testCase list \<Rightarrow> testCase list outcome" where
  "testsForSuite [] err tests =
     (if err = ''no more specs to run'' then Ok tests else Err err)"
| "testsForSuite (spec # specs) err tests =
     (case newTestCase spec of
        Ok t \<Rightarrow> testsForSuite specs err (tests @ [t])
      | Err e \<Rightarrow> Err e
      | Panic p \<Rightarrow> Panic p)"

section \<open>Suites\<close>

fun Filter :: "TestSuite \<Rightarrow> testCase list \<Rightarrow> testCase list" where
  "Filter s [] = []"
| "Filter s (test # tests) = (if \<not> ts_Matches s (tc_name test) then Filter s tests else test # Filter s tests)"

fun suite_lines :: "string list \<Rightarrow> (string list) go_result" where
  "suite_lines [] = Inr []"
| "suite_lines (l # ls) =
     (let line = trim_space l in
      if has_prefix line [dquote] then
        (case strconv_Unquote line of
           Inl err \<Rightarrow> Inl err
         | Inr name \<Rightarrow> (case suite_lines ls of Inl err \<Rightarrow> Inl err | Inr names \<Rightarrow> Inr (name # names)))
      else suite_lines ls)"

definition newSuiteFromFile :: "string \<Rightarrow> string \<Rightarrow> TestSuite go_result" where
  "newSuiteFromFile name contents =
     (case suite_lines (str_split contents [newline]) of
        Inl err \<Rightarrow> Inl err
      | Inr tests \<Rightarrow>
          Inr \<lparr>ts_Name = name, ts_Description = '''', ts_Matches = (\<lambda>n. n \<in> set tests), ts_Count = 0,
               ts_Parallelism = 0, ts_MaximumAllowedFlakes = 0, ts_TestTimeout = 0\<rparr>)"

text \<open>The regular expression engine is a parameter: compiling gives an error or a matcher.\<close>

definition filterWithRegex ::
  "(string \<Rightarrow> (string \<Rightarrow> bool) go_result) \<Rightarrow> TestSuite \<Rightarrow> string \<Rightarrow> TestSuite go_result" where
  "filterWithRegex compile suite regex =
     (case compile regex of
        Inl err \<Rightarrow> Inl err
      | Inr re \<Rightarrow>
          let origMatches = ts_Matches suite in
          Inr (suite\<lparr>ts_Matches := (\<lambda>name. if \<not> origMatches name then False else re name)\<rparr>))"

definition testNames :: "testCase list \<Rightarrow> string list" where
  "testNames tests = map tc_name tests"

definition SuitesString :: "TestSuite list \<Rightarrow> string \<Rightarrow> string" where
  "SuitesString suites prefix =
     prefix @ concat (map (\<lambda>suite. ts_Name suite @ [newline] @ ''  '' @ ts_Description suite
                                    @ [newline, newline]) suites)"

section \<open>Exclusion and splitting\<close>

definition framework_file :: string where
  "framework_file = ''/k8s.io/kubernetes/test/e2e/framework/framework.go''"

fun suite_path :: "CodeLocation list \<Rightarrow> string \<Rightarrow> string" where
  "suite_path [] suitePath = suitePath"
| "suite_path (loc # locs) suitePath =
     suite_path locs
       (if length (FileName loc) > 0 \<and> \<not> has_suffix (FileName loc) framework_file
        then FileName loc else suitePath)"

definition setTestExclusion ::
  "(string \<Rightarrow> testCase \<Rightarrow> bool) \<Rightarrow> testCase list \<Rightarrow> testCase list" where
  "setTestExclusion fn tests =
     map (\<lambda>test. let suitePath = suite_path (ComponentCodeLocations (tc_spec test)) '''' in
                 if fn suitePath test then test\<lparr>tc_testExclusion := suitePath\<rparr> else test) tests"

fun splitTests :: "'t list \<Rightarrow> ('t \<Rightarrow> bool) \<Rightarrow> 't list \<times> 't list" where
  "splitTests [] fn = ([], [])"
| "splitTests (t # tests) fn =
     (let (a, b) = splitTests tests fn in if fn t then (t # a, b) else (a, t # b))"

text \<open>The paths whose tests do not run in parallel with one another (\<open>Options.Run\<close>).\<close>

definition exclusive_path :: "string \<Rightarrow> testCase \<Rightarrow> bool" where
  "exclusive_path suitePath t =
     list_ex (has_suffix suitePath) [''/k8s.io/kubernetes/test/e2e/apps/disruption.go'']"

section \<open>Facts\<close>

lemma Filter_eq: "Filter s tests = filter (\<lambda>t. ts_Matches s (tc_name t)) tests"
  by (induction tests) auto

lemma splitTests_eq: "splitTests tests fn = (filter fn tests, filter (Not \<circ> fn) tests)"
  by (induction tests) auto

lemma splitTests_mset: "splitTests tests fn = (a, b) \<Longrightarrow> mset a + mset b = mset tests"
  by (auto simp: splitTests_eq comp_def)

lemma suite_path_cases:
  "suite_path locs p = p \<or>
   (\<exists>loc \<in> set locs. suite_path locs p = FileName loc \<and> FileName loc \<noteq> [] \<and>
      \<not> has_suffix (FileName loc) framework_file)"
  by (induction locs arbitrary: p) (fastforce split: if_splits)+

lemma testsForSuite_names:
  "testsForSuite specs err acc = Ok tests \<Longrightarrow>
     map tc_name tests = map tc_name acc @ map (\<lambda>s. trim_prefix (ConcatenatedString s) ''[Top Level] '') specs
     \<and> err = ''no more specs to run''"
  by (induction specs arbitrary: acc)
     (auto simp: newTestCase_def Let_def split: outcome.splits if_splits)

text \<open>Reading a file of quoted names, one per line.\<close>

lemma suite_lines_quoted: "suite_lines (map strconv_Quote names @ ['''']) = Inr names"
proof (induction names)
  case Nil
  show ?case by (simp add: trim_space_def)
next
  case (Cons n names)
  then show ?case by (simp only: list.map append_Cons suite_lines.simps Quote_trim Let_def
        Quote_has_prefix Unquote_Quote if_True sum.case)
qed

lemma split_quoted_lines:
  "str_split (concat (map (\<lambda>n. strconv_Quote n @ [newline]) names)) [newline]
     = map strconv_Quote names @ ['''']"
proof (induction names)
  case Nil
  show ?case by (simp add: str_split_def)
next
  case (Cons n names)
  then show ?case by (simp add: split_char_line)
qed

lemma newSuiteFromFile_quoted:
  "newSuiteFromFile name (concat (map (\<lambda>n. strconv_Quote n @ [newline]) names))
     = Inr \<lparr>ts_Name = name, ts_Description = '''', ts_Matches = (\<lambda>n. n \<in> set names), ts_Count = 0,
            ts_Parallelism = 0, ts_MaximumAllowedFlakes = 0, ts_TestTimeout = 0\<rparr>"
  unfolding newSuiteFromFile_def split_quoted_lines suite_lines_quoted by simp

lemma filterWithRegex_matches:
  "filterWithRegex compile suite regex = Inr suite' \<Longrightarrow>
     \<exists>re. compile regex = Inr re \<and> ts_Matches suite' name = (ts_Matches suite name \<and> re name)"
  by (auto simp: filterWithRegex_def Let_def split: sum.splits if_splits)

end
