(* ===== verification/Test_Queue.thy ===== *)
theory Test_Queue
  imports Test_Case
begin

text \<open>
  The parallel test queue of \<open>pkg/test/ginkgo/queue.go\<close>.

  A queue is a ring of tests (\<open>container/ring\<close>, a list that starts at the ring pointer) and the
  set of exclusion keys in use, with the operations \<open>pop\<close>, \<open>done\<close> (here \<open>queue_done\<close>) and
  \<open>Close\<close>. The locale \<open>exclusive_queue\<close> is what \<open>Execute\<close> relies on; it is interpreted on the
  ring queue. The step relation of \<open>Execute\<close> is in the theory Execute.
\<close>

section \<open>container/ring\<close>

text \<open>\<open>r.Next()\<close>, \<open>r.Prev()\<close> and \<open>r.Unlink(1)\<close>, which removes the element after \<open>r\<close>.\<close>

definition ring_Next :: "'t list \<Rightarrow> 't list" where
  "ring_Next r = rotate1 r"

definition ring_Prev :: "'t list \<Rightarrow> 't list" where
  "ring_Prev r = (if r = [] then [] else last r # butlast r)"

fun ring_Unlink1 :: "'t list \<Rightarrow> 't list" where
  "ring_Unlink1 (x # y # ys) = x # ys"
| "ring_Unlink1 r = r"

section \<open>The queue\<close>

record 't testQueue =
  queue :: "'t list"
  active :: "string set"

text \<open>
  \<open>ring.New(len(tests))\<close> makes a ring of \<open>len(tests)\<close> empty cells; the loop fills the current cell
  and moves on, so after the loop the pointer is back at the first test.
\<close>

fun fill_ring :: "'t option list \<Rightarrow> 't list \<Rightarrow> 't option list" where
  "fill_ring r [] = r"
| "fill_ring r (test # tests) = fill_ring (ring_Next (Some test # tl r)) tests"

definition newParallelTestQueue :: "'t list \<Rightarrow> 't testQueue" where
  "newParallelTestQueue tests =
     \<lparr>queue = map the (fill_ring (replicate (length tests) None) tests), active = {}\<rparr>"

text \<open>
  The loop of \<open>pop\<close>: at most \<open>l\<close> positions of the ring are tried, and the ring pointer at the first
  test whose exclusion key is not in use is returned.
\<close>

fun pop_scan :: "('t \<Rightarrow> string) \<Rightarrow> string set \<Rightarrow> 't list \<Rightarrow> nat \<Rightarrow> 't list option" where
  "pop_scan excl act r 0 = None"
| "pop_scan excl act r (Suc n) =
     (if excl (hd r) \<in> act then pop_scan excl act (ring_Next r) n else Some r)"

definition pop :: "('t \<Rightarrow> string) \<Rightarrow> 't testQueue \<Rightarrow> 't option \<times> bool \<times> 't testQueue" where
  "pop excl q =
     (let r = queue q; l = length r in
      if l = 0 then (None, True, q)
      else case pop_scan excl (active q) r l of
             None \<Rightarrow> (None, False, q)
           | Some r' \<Rightarrow>
               let t = hd r';
                   q' = (if length (excl t) > 0 then q\<lparr>active := insert (excl t) (active q)\<rparr> else q)
               in (Some t, True,
                   if l = 1 then q'\<lparr>queue := []\<rparr>
                   else q'\<lparr>queue := ring_Unlink1 (ring_Prev r')\<rparr>))"

definition queue_done :: "('t \<Rightarrow> string) \<Rightarrow> 't \<Rightarrow> 't testQueue \<Rightarrow> 't testQueue" where
  "queue_done excl t q = q\<lparr>active := active q - {excl t}\<rparr>"

definition Close :: "'t testQueue \<Rightarrow> 't testQueue" where
  "Close q = q\<lparr>queue := [], active := {}\<rparr>"

text \<open>
  The tests that one worker takes when it runs alone, in order: the loop \<open>for q.Take(...) {}\<close>, in
  which \<open>done\<close> is deferred to the end of \<open>Take\<close>. The fuel bounds the number of calls of \<open>Take\<close>;
  \<open>None\<close> says that the fuel ran out or that the worker waits.
\<close>

fun take_alone :: "('t \<Rightarrow> string) \<Rightarrow> nat \<Rightarrow> 't testQueue \<Rightarrow> 't list option" where
  "take_alone excl 0 q = None"
| "take_alone excl (Suc n) q =
     (case pop excl q of
        (Some t, ok, q') \<Rightarrow> map_option (Cons t) (take_alone excl n (queue_done excl t q'))
      | (None, True, q') \<Rightarrow> Some []
      | (None, False, q') \<Rightarrow> None)"

section \<open>The ring and its initial filling\<close>

lemma fill_ring_append:
  "length r = length tests \<Longrightarrow> fill_ring (r @ done) tests = done @ map Some tests"
proof (induction tests arbitrary: r "done")
  case (Cons t tests)
  then obtain c r' where r: "r = c # r'" by (cases r) auto
  then have "fill_ring (r @ done) (t # tests) = fill_ring (r' @ (done @ [Some t])) tests"
    by (simp add: ring_Next_def)
  with Cons r show ?case by simp
qed simp

lemma newParallelTestQueue_eq:
  "newParallelTestQueue tests = \<lparr>queue = tests, active = {}\<rparr>"
  using fill_ring_append [of "replicate (length tests) None" tests "[]"]
  by (simp add: newParallelTestQueue_def comp_def)

lemma ring_Next_length [simp]: "length (ring_Next r) = length r"
  by (simp add: ring_Next_def)

lemma ring_Next_set [simp]: "set (ring_Next r) = set r"
  by (simp add: ring_Next_def)

lemma ring_Next_mset [simp]: "mset (ring_Next r) = mset r"
  by (cases r) (auto simp: ring_Next_def)

lemma mset_rotate_k [simp]: "mset (rotate k r) = mset r"
  by (induction k) (simp_all add: ring_Next_mset [unfolded ring_Next_def])

text \<open>Moving the pointer back and unlinking the next element removes the current element.\<close>

lemma unlink_prev:
  "length r > 1 \<Longrightarrow> ring_Unlink1 (ring_Prev r) = last r # butlast (tl r)"
  by (cases r; cases "tl r") (auto simp: ring_Prev_def)

lemma unlink_prev_mset:
  assumes "length r > 1"
  shows "mset (ring_Unlink1 (ring_Prev r)) = mset r - {#hd r#}"
proof -
  from assms obtain x r' where r: "r = x # r'" "r' \<noteq> []" by (cases r) auto
  have "mset r' = mset (butlast r' @ [last r'])" by (simp only: append_butlast_last_id [OF r(2)])
  then have "mset r' = add_mset (last r') (mset (butlast r'))" by simp
  with assms r show ?thesis by (simp add: unlink_prev)
qed

section \<open>What the scan finds\<close>

lemma pop_scan_Some:
  "pop_scan excl act r n = Some r' \<Longrightarrow>
     \<exists>k < n. r' = rotate k r \<and> excl (hd r') \<notin> act"
proof (induction n arbitrary: r)
  case (Suc n)
  show ?case
  proof (cases "excl (hd r) \<in> act")
    case True
    with Suc.prems have "pop_scan excl act (ring_Next r) n = Some r'" by simp
    from Suc.IH [OF this] obtain k where "k < n" "r' = rotate k (rotate1 r)" "excl (hd r') \<notin> act"
      by (auto simp: ring_Next_def)
    then have "Suc k < Suc n \<and> r' = rotate (Suc k) r \<and> excl (hd r') \<notin> act"
      by (simp add: rotate1_rotate_swap)
    then show ?thesis by blast
  next
    case False
    with Suc.prems show ?thesis by (auto intro: exI [of _ 0])
  qed
qed simp

lemma pop_scan_None:
  "pop_scan excl act r n = None \<Longrightarrow> \<forall>k < n. excl (hd (rotate k r)) \<in> act"
proof (induction n arbitrary: r)
  case (Suc n)
  then have h: "excl (hd r) \<in> act" and "pop_scan excl act (ring_Next r) n = None"
    by (auto split: if_splits)
  with Suc.IH have "\<forall>k < n. excl (hd (rotate k (rotate1 r))) \<in> act"
    by (simp add: ring_Next_def)
  then have "\<forall>k < n. excl (hd (rotate (Suc k) r)) \<in> act"
    by (simp add: rotate1_rotate_swap)
  with h show ?case by (metis less_Suc_eq_0_disj rotate0 id_apply)
qed simp

lemma hd_rotate_nth: "k < length r \<Longrightarrow> hd (rotate k r) = r ! k"
  by (metis hd_rotate_conv_nth length_0_conv mod_less not_less_zero)

lemma pop_Some_cases:
  assumes "pop excl q = (Some t, ok, q')"
  shows "ok" "t \<in> set (queue q)" "excl t \<notin> active q" "mset (queue q') = mset (queue q) - {#t#}"
    "active q' = (if excl t = [] then active q else insert (excl t) (active q))"
proof -
  let ?r = "queue q"
  from assms have ne: "?r \<noteq> []" by (auto simp: pop_def Let_def split: if_splits)
  from assms ne obtain r' where scan: "pop_scan excl (active q) ?r (length ?r) = Some r'"
    and t: "t = hd r'" and ok: "ok"
    and qr: "queue q' = (if length ?r = 1 then [] else ring_Unlink1 (ring_Prev r'))"
    and act: "active q' = (if excl t = [] then active q else insert (excl t) (active q))"
    by (auto simp: pop_def Let_def split: option.splits if_splits)
  from pop_scan_Some [OF scan] obtain k where k: "k < length ?r" "r' = rotate k ?r" "excl t \<notin> active q"
    by (auto simp: t)
  have ms: "mset r' = mset ?r" and len: "length r' = length ?r" by (auto simp: k(2))
  show "ok" by (rule ok)
  show "t \<in> set ?r" using k ne by (simp add: t hd_rotate_nth)
  show "excl t \<notin> active q" by (rule k(3))
  show "active q' = (if excl t = [] then active q else insert (excl t) (active q))" by (rule act)
  show "mset (queue q') = mset ?r - {#t#}"
  proof (cases "length ?r = 1")
    case True
    then obtain x where "?r = [x]" by (cases ?r) auto
    with qr k t show ?thesis by simp
  next
    case False
    with ne have "length r' > 1" by (cases ?r) (auto simp: len)
    with False qr show ?thesis by (simp add: unlink_prev_mset ms t)
  qed
qed

lemma pop_None_cases:
  assumes "pop excl q = (None, ok, q')"
  shows "q' = q" "ok \<longleftrightarrow> queue q = []" "\<not> ok \<Longrightarrow> \<forall>t \<in> set (queue q). excl t \<in> active q"
proof -
  from assms show "q' = q" "ok \<longleftrightarrow> queue q = []"
    by (auto simp: pop_def Let_def split: option.splits if_splits)
  assume "\<not> ok"
  with assms have "pop_scan excl (active q) (queue q) (length (queue q)) = None"
    by (auto simp: pop_def Let_def split: option.splits if_splits)
  from pop_scan_None [OF this] have "\<forall>k < length (queue q). excl (queue q ! k) \<in> active q"
    by (simp add: hd_rotate_nth)
  then show "\<forall>t \<in> set (queue q). excl t \<in> active q" by (metis in_set_conv_nth)
qed

section \<open>The interface of the queue\<close>

text \<open>
  What \<open>Execute\<close> relies on: \<open>pop\<close> hands out a test of the queue whose key is free and marks the
  key, says that the queue is empty, or says that every queued test has a key in use.
\<close>

locale exclusive_queue =
  fixes popq :: "'q \<Rightarrow> 't option \<times> bool \<times> 'q"
    and doneq :: "'t \<Rightarrow> 'q \<Rightarrow> 'q"
    and closeq :: "'q \<Rightarrow> 'q"
    and content :: "'q \<Rightarrow> 't multiset"
    and keys :: "'q \<Rightarrow> string set"
    and key :: "'t \<Rightarrow> string"
  assumes pop_Some_law: "popq q = (Some t, ok, q') \<Longrightarrow>
      ok \<and> t \<in># content q \<and> key t \<notin> keys q \<and> content q = add_mset t (content q')
      \<and> keys q' = (if key t = [] then keys q else insert (key t) (keys q))"
    and pop_None_law: "popq q = (None, ok, q') \<Longrightarrow>
      q' = q \<and> (ok \<longleftrightarrow> content q = {#}) \<and> (\<not> ok \<longrightarrow> (\<forall>t \<in># content q. key t \<in> keys q))"
    and done_law: "content (doneq t q) = content q \<and> keys (doneq t q) = keys q - {key t}"
    and close_law: "content (closeq q) = {#} \<and> keys (closeq q) = {}"
begin

lemma pop_ready:
  assumes "t \<in># content q" and "key t \<notin> keys q"
  shows "\<exists>u q'. popq q = (Some u, True, q')"
proof -
  obtain r ok q' where p: "popq q = (r, ok, q')" by (metis prod_cases3)
  show ?thesis
  proof (cases r)
    case None
    with p assms pop_None_law [of q ok q'] show ?thesis by auto
  next
    case (Some u)
    with p pop_Some_law [of q u ok q'] show ?thesis by auto
  qed
qed

lemma pop_done_keys:
  assumes "popq q = (Some t, ok, q')" and "[] \<notin> keys q"
  shows "keys (doneq t q') = keys q"
  using pop_Some_law [OF assms(1)] assms(2) done_law by auto

lemma pop_done_content:
  assumes "popq q = (Some t, ok, q')"
  shows "content q = add_mset t (content (doneq t q'))"
  using pop_Some_law [OF assms] done_law by simp

lemma pop_never_blocks_free:
  assumes "\<forall>t. key t = []" and "[] \<notin> keys q" and "popq q = (None, ok, q')"
  shows "ok"
proof (rule ccontr)
  assume "\<not> ok"
  with pop_None_law [OF assms(3)] obtain t where "t \<in># content q" "key t \<in> keys q"
    by (metis multiset_nonemptyE)
  with assms(1,2) show False by simp
qed

end

interpretation tq: exclusive_queue "pop excl" "queue_done excl" Close "\<lambda>q. mset (queue q)" active excl
  for excl :: "'t \<Rightarrow> string"
proof
  fix q q' :: "'t testQueue" and t ok
  assume p: "pop excl q = (Some t, ok, q')"
  show "ok \<and> t \<in># mset (queue q) \<and> excl t \<notin> active q \<and> mset (queue q) = add_mset t (mset (queue q'))
      \<and> active q' = (if excl t = [] then active q else insert (excl t) (active q))"
    using pop_Some_cases [OF p] by (metis insert_DiffM set_mset_mset)
next
  fix q q' :: "'t testQueue" and ok
  assume "pop excl q = (None, ok, q')"
  from pop_None_cases [OF this]
  show "q' = q \<and> (ok \<longleftrightarrow> mset (queue q) = {#}) \<and> (\<not> ok \<longrightarrow> (\<forall>t \<in># mset (queue q). excl t \<in> active q))"
    by auto
qed (auto simp: queue_done_def Close_def)

section \<open>A worker that runs alone\<close>

text \<open>With no key in use, a worker that runs alone takes every test once.\<close>

lemma take_alone_all:
  assumes "active q = {}" and "length (queue q) < n"
  shows "\<exists>ts. take_alone excl n q = Some ts \<and> mset ts = mset (queue q)"
  using assms
proof (induction n arbitrary: q)
  case (Suc n)
  obtain r ok q' where p: "pop excl q = (r, ok, q')" by (metis prod_cases3)
  show ?case
  proof (cases r)
    case None
    from tq.pop_None_law [OF p [unfolded None]] Suc.prems(1) have "ok" "queue q = []" by auto
    with p None show ?thesis by simp
  next
    case (Some t)
    let ?q = "queue_done excl t q'"
    have c: "mset (queue q) = add_mset t (mset (queue ?q))"
      by (rule tq.pop_done_content [OF p [unfolded Some]])
    have k: "active ?q = {}"
      using tq.pop_done_keys [OF p [unfolded Some]] Suc.prems(1) by simp
    from c have "length (queue q) = Suc (length (queue ?q))" by (metis size_mset size_add_mset)
    with Suc.prems(2) have "length (queue ?q) < n" by simp
    with Suc.IH [OF k] obtain ts where "take_alone excl n ?q = Some ts" "mset ts = mset (queue ?q)"
      by blast
    with p Some c show ?thesis by simp
  qed
qed simp

text \<open>
  The order in which it takes them: the first test, and then the others from the last to the second,
  because the ring pointer moves back after each test.
\<close>

lemma pop_first_free:
  assumes "queue q = x # xs" and "excl x \<notin> active q"
  shows "\<exists>q'. pop excl q = (Some x, True, q') \<and>
     queue q' = (if xs = [] then [] else last xs # butlast xs)"
  using assms by (auto simp: pop_def Let_def unlink_prev)

lemma take_alone_order:
  assumes "active q = {}" and "length (queue q) < n" and "queue q = x # xs"
  shows "take_alone excl n q = Some (x # rev xs)"
  using assms
proof (induction n arbitrary: q x xs)
  case (Suc n)
  from Suc.prems obtain q' where p: "pop excl q = (Some x, True, q')"
    and q': "queue q' = (if xs = [] then [] else last xs # butlast xs)"
    using pop_first_free [of q x xs excl] by auto
  let ?q = "queue_done excl x q'"
  have k: "active ?q = {}" using tq.pop_done_keys [OF p] Suc.prems(1) by simp
  have qq: "queue ?q = queue q'" by (simp add: queue_done_def)
  show ?case
  proof (cases xs rule: rev_cases)
    case Nil
    with qq q' have "queue ?q = []" by simp
    then have "pop excl ?q = (None, True, ?q)" by (simp add: pop_def)
    with p Nil Suc.prems show ?thesis by (cases n) auto
  next
    case (snoc ys y)
    with qq q' have "queue ?q = y # ys" by simp
    moreover from this Suc.prems snoc have "length (queue ?q) < n" by simp
    ultimately have "take_alone excl n ?q = Some (y # rev ys)"
      using Suc.IH k by blast
    with p snoc show ?thesis by simp
  qed
qed simp

end
