(* ===== verification/Execute.thy ===== *)
theory Execute
  imports Test_Queue
begin

text \<open>
  \<open>Execute\<close> of \<open>pkg/test/ginkgo/queue.go\<close> as a step relation: one rule for each action that
  a worker goroutine, the cancellation goroutine or the main goroutine performs under a lock or
  between locks, so that every interleaving is a sequence of steps.
\<close>

section \<open>Execute\<close>

text \<open>
  A worker is about to call \<open>pop\<close>, is between a \<open>pop\<close> that found nothing to run and
  \<open>cond.Wait\<close>, is parked in \<open>cond.Wait\<close>, has taken a test, is inside \<open>fn\<close>, is about to call the
  deferred \<open>done\<close>, or has returned. The condition variable has a lock that does nothing, so
  nothing holds back a broadcast between \<open>pop\<close> and \<open>Wait\<close>.
\<close>

datatype 't worker = AtPop | WillWait | Waiting | Took 't | Running 't | Finished 't | Exited

text \<open>The main goroutine waits for the workers, runs the deferred serial tests, or has returned.\<close>

datatype 't main_state = MainWait | MainSerial "'t list" | MainRun 't "'t list" | MainDone

record 't exec_state =
  ex_q :: "'t testQueue"
  ex_workers :: "'t worker list"
  ex_serial :: "'t list"
  ex_main :: "'t main_state"
  ex_ctxDone :: bool
  ex_closed :: bool
  ex_started :: "'t list"

definition wake :: "'t worker \<Rightarrow> 't worker" where
  "wake w = (case w of Waiting \<Rightarrow> AtPop | _ \<Rightarrow> w)"

text \<open>\<open>cond.Broadcast\<close> wakes the workers that are parked.\<close>

definition broadcast :: "'t exec_state \<Rightarrow> 't exec_state" where
  "broadcast s = s\<lparr>ex_workers := map wake (ex_workers s)\<rparr>"

definition set_worker :: "nat \<Rightarrow> 't worker \<Rightarrow> 't exec_state \<Rightarrow> 't exec_state" where
  "set_worker i w s = s\<lparr>ex_workers := (ex_workers s)[i := w]\<rparr>"

definition exec_init :: "'t list \<Rightarrow> nat \<Rightarrow> 't exec_state" where
  "exec_init tests parallelism =
     \<lparr>ex_q = newParallelTestQueue tests, ex_workers = replicate parallelism AtPop, ex_serial = [],
      ex_main = MainWait, ex_ctxDone = False, ex_closed = False, ex_started = []\<rparr>"

definition is_serial :: "(taddr \<Rightarrow> string) \<Rightarrow> taddr \<Rightarrow> bool" where
  "is_serial nm t = str_contains (nm t) ''[Serial]''"

inductive exec_step ::
  "('t \<Rightarrow> string) \<Rightarrow> ('t \<Rightarrow> bool) \<Rightarrow> 't exec_state \<Rightarrow> 't exec_state \<Rightarrow> bool"
  for excl :: "'t \<Rightarrow> string" and serial :: "'t \<Rightarrow> bool"
where
  pop_got:
    "i < length (ex_workers s) \<Longrightarrow> ex_workers s ! i = AtPop \<Longrightarrow> pop excl (ex_q s) = (Some t, True, q') \<Longrightarrow>
     exec_step excl serial s (set_worker i (Took t) (s\<lparr>ex_q := q'\<rparr>))"
| pop_drained:
    "i < length (ex_workers s) \<Longrightarrow> ex_workers s ! i = AtPop \<Longrightarrow> pop excl (ex_q s) = (None, True, q') \<Longrightarrow>
     exec_step excl serial s (broadcast (set_worker i Exited s))"
| pop_blocked:
    "i < length (ex_workers s) \<Longrightarrow> ex_workers s ! i = AtPop \<Longrightarrow> pop excl (ex_q s) = (None, False, q') \<Longrightarrow>
     exec_step excl serial s (set_worker i WillWait s)"
| cond_wait:
    "i < length (ex_workers s) \<Longrightarrow> ex_workers s ! i = WillWait \<Longrightarrow>
     exec_step excl serial s (set_worker i Waiting s)"
| defer_serial:
    "i < length (ex_workers s) \<Longrightarrow> ex_workers s ! i = Took t \<Longrightarrow> serial t \<Longrightarrow>
     exec_step excl serial s (set_worker i (Finished t) (s\<lparr>ex_serial := ex_serial s @ [t]\<rparr>))"
| fn_start:
    "i < length (ex_workers s) \<Longrightarrow> ex_workers s ! i = Took t \<Longrightarrow> \<not> serial t \<Longrightarrow>
     exec_step excl serial s (set_worker i (Running t) (s\<lparr>ex_started := ex_started s @ [t]\<rparr>))"
| fn_end:
    "i < length (ex_workers s) \<Longrightarrow> ex_workers s ! i = Running t \<Longrightarrow>
     exec_step excl serial s (set_worker i (Finished t) s)"
| take_done:
    "i < length (ex_workers s) \<Longrightarrow> ex_workers s ! i = Finished t \<Longrightarrow>
     exec_step excl serial s (broadcast (set_worker i AtPop (s\<lparr>ex_q := queue_done excl t (ex_q s)\<rparr>)))"
| close_queue:
    "ex_ctxDone s \<Longrightarrow> \<not> ex_closed s \<Longrightarrow>
     exec_step excl serial s (broadcast (s\<lparr>ex_q := Close (ex_q s), ex_closed := True\<rparr>))"
| wg_wait:
    "ex_main s = MainWait \<Longrightarrow> list_all (\<lambda>w. w = Exited) (ex_workers s) \<Longrightarrow>
     exec_step excl serial s (s\<lparr>ex_main := MainSerial (ex_serial s)\<rparr>)"
| serial_cancelled:
    "ex_main s = MainSerial (t # ts) \<Longrightarrow> ex_ctxDone s \<Longrightarrow>
     exec_step excl serial s (s\<lparr>ex_main := MainDone\<rparr>)"
| serial_start:
    "ex_main s = MainSerial (t # ts) \<Longrightarrow> \<not> ex_ctxDone s \<Longrightarrow>
     exec_step excl serial s (s\<lparr>ex_main := MainRun t ts, ex_started := ex_started s @ [t]\<rparr>)"
| serial_end:
    "ex_main s = MainRun t ts \<Longrightarrow>
     exec_step excl serial s (s\<lparr>ex_main := MainSerial ts\<rparr>)"
| serial_finished:
    "ex_main s = MainSerial [] \<Longrightarrow>
     exec_step excl serial s (s\<lparr>ex_main := MainDone\<rparr>)"

text \<open>The environment may cancel the context at any moment.\<close>

definition exec_cancel :: "'t exec_state \<Rightarrow> 't exec_state" where
  "exec_cancel s = s\<lparr>ex_ctxDone := True\<rparr>"

inductive exec_reach ::
  "('t \<Rightarrow> string) \<Rightarrow> ('t \<Rightarrow> bool) \<Rightarrow> 't list \<Rightarrow> nat \<Rightarrow> 't exec_state \<Rightarrow> bool"
  for excl :: "'t \<Rightarrow> string" and serial :: "'t \<Rightarrow> bool" and tests :: "'t list" and parallelism :: nat
where
  reach_init: "exec_reach excl serial tests parallelism (exec_init tests parallelism)"
| reach_step: "exec_reach excl serial tests parallelism s \<Longrightarrow> exec_step excl serial s s' \<Longrightarrow>
     exec_reach excl serial tests parallelism s'"
| reach_cancel: "exec_reach excl serial tests parallelism s \<Longrightarrow>
     exec_reach excl serial tests parallelism (exec_cancel s)"

section \<open>What a worker holds\<close>

fun holds :: "'t worker \<Rightarrow> 't option" where
  "holds (Took t) = Some t"
| "holds (Running t) = Some t"
| "holds (Finished t) = Some t"
| "holds _ = None"

definition held_keys :: "('t \<Rightarrow> string) \<Rightarrow> 't worker list \<Rightarrow> string set" where
  "held_keys excl ws = {k. k \<noteq> [] \<and> (\<exists>w \<in> set ws. \<exists>t. holds w = Some t \<and> excl t = k)}"

fun took :: "'t worker \<Rightarrow> 't list" where
  "took (Took t) = [t]"
| "took _ = []"

definition taken :: "'t worker list \<Rightarrow> 't list" where
  "taken ws = concat (map took ws)"

definition deferred :: "'t exec_state \<Rightarrow> 't list" where
  "deferred s = (case ex_main s of MainWait \<Rightarrow> ex_serial s | MainSerial ts \<Rightarrow> ts
                 | MainRun t ts \<Rightarrow> ts | MainDone \<Rightarrow> [])"

lemma deferred_frame [simp]:
  "deferred (s\<lparr>ex_q := q\<rparr>) = deferred s" "deferred (s\<lparr>ex_workers := ws\<rparr>) = deferred s"
  "deferred (s\<lparr>ex_started := ts\<rparr>) = deferred s" "deferred (s\<lparr>ex_closed := b\<rparr>) = deferred s"
  "deferred (s\<lparr>ex_ctxDone := b\<rparr>) = deferred s"
  by (cases "ex_main s"; simp add: deferred_def)+

lemma deferred_main [simp]:
  "deferred (s\<lparr>ex_main := MainDone\<rparr>) = []" "deferred (s\<lparr>ex_main := MainSerial ts\<rparr>) = ts"
  "deferred (s\<lparr>ex_main := MainRun t ts\<rparr>) = ts"
  "ex_main s = MainWait \<Longrightarrow> deferred s = ex_serial s" "ex_main s = MainSerial ts \<Longrightarrow> deferred s = ts"
  "ex_main s = MainRun t ts \<Longrightarrow> deferred s = ts" "ex_main s = MainDone \<Longrightarrow> deferred s = []"
  by (simp_all add: deferred_def)

lemma holds_wake [simp]: "holds (wake w) = holds w"
  by (cases w) (auto simp: wake_def)

lemma took_wake [simp]: "took (wake w) = took w"
  by (cases w) (auto simp: wake_def)

lemma wake_iff [simp]:
  "wake w = Exited \<longleftrightarrow> w = Exited" "wake w = Running t \<longleftrightarrow> w = Running t"
  "wake w \<noteq> Waiting" "wake w = WillWait \<longleftrightarrow> w = WillWait"
  "Exited = wake w \<longleftrightarrow> w = Exited" "Running t = wake w \<longleftrightarrow> w = Running t"
  "Waiting \<noteq> wake w" "WillWait = wake w \<longleftrightarrow> w = WillWait"
  by (cases w; auto simp: wake_def)+

lemma taken_wake [simp]: "taken (map wake ws) = taken ws"
  by (simp add: taken_def comp_def)

lemma held_keys_wake [simp]: "held_keys excl (map wake ws) = held_keys excl ws"
  by (auto simp: held_keys_def)

lemma taken_update:
  assumes "i < length ws"
  shows "mset (taken (ws[i := w])) + mset (took (ws ! i)) = mset (taken ws) + mset (took w)"
proof -
  have split: "mset (taken (take i ws @ v # drop (Suc i) ws))
      = mset (taken (take i ws)) + mset (took v) + mset (taken (drop (Suc i) ws))" for v
    by (simp add: taken_def)
  have "ws[i := w] = take i ws @ w # drop (Suc i) ws"
    using assms by (simp add: upd_conv_take_nth_drop)
  moreover have "ws = take i ws @ ws ! i # drop (Suc i) ws"
    using assms by (simp add: id_take_nth_drop)
  ultimately show ?thesis using split [of w] split [of "ws ! i"] by simp
qed

lemmas exec_defs = set_worker_def broadcast_def

section \<open>Mutual exclusion by key\<close>

definition exclusive :: "('t \<Rightarrow> string) \<Rightarrow> 't worker list \<Rightarrow> bool" where
  "exclusive excl ws =
     (\<forall>i < length ws. \<forall>j < length ws. \<forall>t u. i \<noteq> j \<longrightarrow> holds (ws ! i) = Some t \<longrightarrow>
        holds (ws ! j) = Some u \<longrightarrow> excl t = excl u \<longrightarrow> excl t = [])"

definition key_inv :: "('t \<Rightarrow> string) \<Rightarrow> 't exec_state \<Rightarrow> bool" where
  "key_inv excl s \<longleftrightarrow> exclusive excl (ex_workers s)
     \<and> active (ex_q s) = (if ex_closed s then {} else held_keys excl (ex_workers s))
     \<and> (ex_closed s \<longrightarrow> queue (ex_q s) = [])"

lemma exclusive_wake [simp]: "exclusive excl (map wake ws) = exclusive excl ws"
  by (auto simp: exclusive_def)

definition keys_of :: "('t \<Rightarrow> string) \<Rightarrow> 't worker \<Rightarrow> string set" where
  "keys_of excl w = (case holds w of None \<Rightarrow> {} | Some t \<Rightarrow> {excl t} - {[]})"

lemma held_keys_UN: "held_keys excl ws = (\<Union>w \<in> set ws. keys_of excl w)"
  by (fastforce simp: held_keys_def keys_of_def split: option.splits)

lemma held_keys_update:
  assumes "i < length ws"
  shows "held_keys excl (ws[i := w]) = keys_of excl w \<union> held_keys excl (take i ws @ drop (Suc i) ws)"
    and "held_keys excl ws = keys_of excl (ws ! i) \<union> held_keys excl (take i ws @ drop (Suc i) ws)"
proof -
  show "held_keys excl (ws[i := w]) = keys_of excl w \<union> held_keys excl (take i ws @ drop (Suc i) ws)"
    using assms by (auto simp: held_keys_UN upd_conv_take_nth_drop)
  have "set ws = insert (ws ! i) (set (take i ws @ drop (Suc i) ws))"
    using assms by (subst id_take_nth_drop [OF assms]) simp
  then show "held_keys excl ws = keys_of excl (ws ! i) \<union> held_keys excl (take i ws @ drop (Suc i) ws)"
    by (simp add: held_keys_UN)
qed

lemma held_keys_nth: "j < length ws \<Longrightarrow> holds (ws ! j) = Some u \<Longrightarrow> excl u \<noteq> [] \<Longrightarrow> excl u \<in> held_keys excl ws"
  using nth_mem by (fastforce simp: held_keys_def)

lemma exclusive_upd_drop:
  assumes "exclusive excl ws" and "holds w = None \<or> holds w = holds (ws ! i)"
  shows "exclusive excl (ws[i := w])"
proof -
  have old: "holds (ws[i := w] ! j) = Some u \<Longrightarrow> holds (ws ! j) = Some u" if "j < length ws" for j u
    using assms(2) that by (cases "j = i") auto
  show ?thesis
    using assms(1) unfolding exclusive_def length_list_update by (blast dest: old)
qed

lemma held_keys_upd_same:
  "i < length ws \<Longrightarrow> holds w = holds (ws ! i) \<Longrightarrow> held_keys excl (ws[i := w]) = held_keys excl ws"
  using held_keys_update(1) [of i ws excl w] held_keys_update(2) [of i ws excl] by (simp add: keys_of_def)

lemma held_keys_upd_take:
  assumes "i < length ws" and "holds (ws ! i) = None" and "holds w = Some t"
  shows "held_keys excl (ws[i := w]) = (if excl t = [] then held_keys excl ws else insert (excl t) (held_keys excl ws))"
  using held_keys_update(1) [OF assms(1), of excl w] held_keys_update(2) [OF assms(1), of excl] assms(2,3)
  by (simp add: keys_of_def)

lemma exclusive_take:
  assumes "exclusive excl ws" and "excl t \<notin> held_keys excl ws" and "holds w = Some t"
  shows "exclusive excl (ws[i := w])"
proof -
  have free: "excl u = []" if "j < length ws" "holds (ws ! j) = Some u" "excl u = excl t" for j u
    using that assms(2) held_keys_nth by metis
  show ?thesis
    unfolding exclusive_def
  proof (intro allI impI)
    fix j k a b
    assume jk: "j < length (ws[i := w])" "k < length (ws[i := w])" "j \<noteq> k"
      "holds (ws[i := w] ! j) = Some a" "holds (ws[i := w] ! k) = Some b" "excl a = excl b"
    consider "j = i" | "k = i" | "j \<noteq> i" "k \<noteq> i" by blast
    then show "excl a = []"
    proof cases
      case 1
      with jk assms(3) free [of k b] show ?thesis by simp
    next
      case 2
      with jk assms(3) free [of j a] show ?thesis by simp
    next
      case 3
      with jk assms(1) show ?thesis by (simp add: exclusive_def)
    qed
  qed
qed

lemma held_keys_others:
  assumes "exclusive excl ws" and "i < length ws" and "holds (ws ! i) = Some t" and "excl t \<noteq> []"
  shows "excl t \<notin> held_keys excl (take i ws @ drop (Suc i) ws)"
proof
  assume "excl t \<in> held_keys excl (take i ws @ drop (Suc i) ws)"
  then obtain w u where w: "w \<in> set (take i ws) \<or> w \<in> set (drop (Suc i) ws)" "holds w = Some u" "excl u = excl t"
    by (auto simp: held_keys_def)
  from w(1) obtain j where "j < length ws" "j \<noteq> i" "ws ! j = w"
  proof
    assume "w \<in> set (take i ws)"
    then obtain k where "k < i" "k < length ws" "take i ws ! k = w"
      by (auto simp: in_set_conv_nth)
    then show thesis by (intro that [of k]) auto
  next
    assume "w \<in> set (drop (Suc i) ws)"
    then obtain k where "k < length ws - Suc i" "drop (Suc i) ws ! k = w"
      by (auto simp: in_set_conv_nth)
    then show thesis by (intro that [of "Suc i + k"]) auto
  qed
  with w assms show False unfolding exclusive_def by metis
qed

lemma held_keys_release:
  assumes "exclusive excl ws" and "i < length ws" and "holds (ws ! i) = Some t" and "holds w = None"
  shows "held_keys excl (ws[i := w]) = held_keys excl ws - {excl t}"
proof -
  have "[] \<notin> held_keys excl (take i ws @ drop (Suc i) ws)" by (simp add: held_keys_def)
  then have "excl t \<notin> held_keys excl (take i ws @ drop (Suc i) ws)"
    using held_keys_others [OF assms(1-3)] by metis
  then show ?thesis
    using held_keys_update(1) [OF assms(2), of excl w] held_keys_update(2) [OF assms(2), of excl] assms(3,4)
    by (auto simp: keys_of_def)
qed

lemma key_inv_init: "key_inv excl (exec_init tests n)"
  by (auto simp: key_inv_def exec_init_def newParallelTestQueue_eq exclusive_def held_keys_def)

lemma key_inv_step:
  assumes "exec_step excl serial s s'" and "key_inv excl s"
  shows "key_inv excl s'"
  using assms
proof (induction rule: exec_step.induct)
  case (pop_got i s t q')
  note p = pop_Some_cases [OF pop_got(3)]
  from pop_got(4) p(2) have open_: "\<not> ex_closed s" by (auto simp: key_inv_def)
  with pop_got(4) p(3) have "excl t \<notin> held_keys excl (ex_workers s)" by (simp add: key_inv_def)
  with pop_got open_ p(5) show ?case
    by (auto simp: key_inv_def exec_defs exclusive_take held_keys_upd_take)
next
  case (take_done i s t)
  then show ?case
    by (auto simp: key_inv_def exec_defs exclusive_upd_drop held_keys_release queue_done_def)
qed (auto simp: key_inv_def exec_defs exclusive_upd_drop held_keys_upd_same Close_def)

lemma key_inv_reach: "exec_reach excl serial tests n s \<Longrightarrow> key_inv excl s"
proof (induction rule: exec_reach.induct)
  case (reach_cancel s)
  then show ?case by (simp add: key_inv_def exec_cancel_def)
qed (auto intro: key_inv_init key_inv_step)

end
