(* ===== verification/Execute_Props.thy ===== *)
theory Execute_Props
  imports Execute
begin

text \<open>
  What \<open>Execute\<close> guarantees in every interleaving: no test is lost or run twice, serial tests run
  alone, every run is finite, and when a run can get stuck.
\<close>

section \<open>Counting tests\<close>

text \<open>
  Every test is in the queue, in the hands of a worker that has not called \<open>fn\<close>, already given to
  \<open>fn\<close>, or deferred; cancellation may only drop tests.
\<close>

definition acct :: "'t exec_state \<Rightarrow> 't multiset" where
  "acct s = mset (queue (ex_q s)) + mset (taken (ex_workers s)) + mset (ex_started s) + mset (deferred s)"

definition acct_inv :: "'t list \<Rightarrow> 't exec_state \<Rightarrow> bool" where
  "acct_inv tests s \<longleftrightarrow> acct s \<subseteq># mset tests \<and> (\<not> ex_ctxDone s \<longrightarrow> acct s = mset tests)
     \<and> (ex_closed s \<longrightarrow> ex_ctxDone s)"

definition exit_inv :: "nat \<Rightarrow> 't exec_state \<Rightarrow> bool" where
  "exit_inv n s \<longleftrightarrow> length (ex_workers s) = n
     \<and> (Exited \<in> set (ex_workers s) \<longrightarrow> queue (ex_q s) = [])
     \<and> (ex_main s \<noteq> MainWait \<longrightarrow> set (ex_workers s) \<subseteq> {Exited})
     \<and> (ex_main s = MainDone \<longrightarrow> ex_ctxDone s \<or> deferred s = [])"

definition serial_inv :: "('t \<Rightarrow> bool) \<Rightarrow> 't exec_state \<Rightarrow> bool" where
  "serial_inv serial s \<longleftrightarrow> (\<forall>t. Running t \<in> set (ex_workers s) \<longrightarrow> \<not> serial t)
     \<and> list_all serial (ex_serial s) \<and> list_all serial (deferred s)
     \<and> (\<forall>t ts. ex_main s = MainRun t ts \<longrightarrow> serial t)"

lemma took_in_update:
  "i < length ws \<Longrightarrow> took (ws ! i) = [] \<Longrightarrow> mset (taken (ws[i := w])) = mset (taken ws) + mset (took w)"
  using taken_update [of i ws w] by simp

lemma took_out_update:
  "i < length ws \<Longrightarrow> ws ! i = Took t \<Longrightarrow> took w = [] \<Longrightarrow>
   add_mset t (mset (taken (ws[i := w]))) = mset (taken ws)"
  using taken_update [of i ws w] by simp

text \<open>A worker that is active shows that the main goroutine still waits.\<close>

lemma exit_inv_waiting:
  "exit_inv n s \<Longrightarrow> i < length (ex_workers s) \<Longrightarrow> ex_workers s ! i \<noteq> Exited \<Longrightarrow> ex_main s = MainWait"
  unfolding exit_inv_def by (metis nth_mem singletonD subsetD)

lemma acct_inv_step:
  assumes "exec_step excl serial s s'" and "acct_inv tests s" and "exit_inv n s"
  shows "acct_inv tests s'"
  using assms
proof (induction rule: exec_step.induct)
  case (pop_got i s t q')
  have "acct (set_worker i (Took t) (s\<lparr>ex_q := q'\<rparr>)) = acct s"
    using pop_got tq.pop_Some_law [OF pop_got(3)] took_in_update [of i "ex_workers s" "Took t"]
    by (simp add: acct_def exec_defs)
  with pop_got show ?case by (simp add: acct_inv_def exec_defs)
next
  case (defer_serial i s t)
  then have "ex_main s = MainWait" by (auto intro: exit_inv_waiting)
  then have "acct (set_worker i (Finished t) (s\<lparr>ex_serial := ex_serial s @ [t]\<rparr>)) = acct s"
    using defer_serial took_out_update [of i "ex_workers s" t "Finished t", symmetric]
    by (simp add: acct_def exec_defs)
  with defer_serial show ?case by (simp add: acct_inv_def exec_defs)
next
  case (fn_start i s t)
  then have "acct (set_worker i (Running t) (s\<lparr>ex_started := ex_started s @ [t]\<rparr>)) = acct s"
    using took_out_update [of i "ex_workers s" t "Running t", symmetric]
    by (simp add: acct_def exec_defs)
  with fn_start show ?case by (simp add: acct_inv_def exec_defs)
next
  case (close_queue s)
  have "acct (broadcast (s\<lparr>ex_q := Close (ex_q s), ex_closed := True\<rparr>)) \<subseteq># acct s"
    by (simp add: acct_def exec_defs Close_def)
  with close_queue show ?case by (auto simp: acct_inv_def exec_defs)
next
  case (serial_cancelled s t ts)
  have "acct (s\<lparr>ex_main := MainDone\<rparr>) \<subseteq># acct s"
    by (simp add: acct_def)
  with serial_cancelled show ?case by (auto simp: acct_inv_def)
qed (auto simp: acct_inv_def acct_def exec_defs took_in_update queue_done_def)

lemma Exited_wake [simp]: "Exited \<in> wake ` A \<longleftrightarrow> Exited \<in> A"
  by (auto simp: image_iff)

lemma exit_inv_active:
  assumes "exit_inv n s" and "i < length (ex_workers s)" and "ex_workers s ! i \<noteq> Exited"
    and "ex_workers s' = (ex_workers s)[i := w] \<or> ex_workers s' = map wake ((ex_workers s)[i := w])"
    and "ex_main s' = ex_main s"
    and "Exited \<in> set (ex_workers s) \<or> w = Exited \<Longrightarrow> queue (ex_q s') = []"
  shows "exit_inv n s'"
proof -
  have "ex_main s = MainWait" by (rule exit_inv_waiting [OF assms(1-3)])
  moreover have "Exited \<in> set (ex_workers s') \<Longrightarrow> Exited \<in> set (ex_workers s) \<or> w = Exited"
    using assms(4) set_update_subset_insert [of "ex_workers s" i w] by auto
  ultimately show ?thesis using assms unfolding exit_inv_def by auto
qed

lemma exit_inv_step:
  assumes "exec_step excl serial s s'" and "exit_inv n s"
  shows "exit_inv n s'"
  using assms
proof (induction rule: exec_step.induct)
  case (pop_got i s t q')
  have "queue (ex_q s) \<noteq> []" using pop_Some_cases(2) [OF pop_got(3)] by auto
  with pop_got(4) have "Exited \<notin> set (ex_workers s)" by (auto simp: exit_inv_def)
  then show ?case
    using exit_inv_active [OF pop_got(4,1), of "set_worker i (Took t) (s\<lparr>ex_q := q'\<rparr>)" "Took t"] pop_got(2)
    by (simp add: exec_defs)
next
  case (pop_drained i s q')
  have "queue (ex_q s) = []" using pop_None_cases(2) [OF pop_drained(3)] by simp
  then show ?case
    using exit_inv_active [OF pop_drained(4,1), of "broadcast (set_worker i Exited s)" Exited] pop_drained(2)
    by (simp add: exec_defs)
next
  case (pop_blocked i s q')
  show ?case
    by (rule exit_inv_active [OF pop_blocked(4,1), of _ "WillWait"])
       (use pop_blocked in \<open>auto simp: exec_defs exit_inv_def\<close>)
next
  case (cond_wait i s)
  show ?case
    by (rule exit_inv_active [OF cond_wait(3,1), of _ "Waiting"])
       (use cond_wait in \<open>auto simp: exec_defs exit_inv_def\<close>)
next
  case (defer_serial i s t)
  show ?case
    by (rule exit_inv_active [OF defer_serial(4,1), of _ "Finished t"])
       (use defer_serial in \<open>auto simp: exec_defs exit_inv_def\<close>)
next
  case (fn_start i s t)
  show ?case
    by (rule exit_inv_active [OF fn_start(4,1), of _ "Running t"])
       (use fn_start in \<open>auto simp: exec_defs exit_inv_def\<close>)
next
  case (fn_end i s t)
  show ?case
    by (rule exit_inv_active [OF fn_end(3,1), of _ "Finished t"])
       (use fn_end in \<open>auto simp: exec_defs exit_inv_def\<close>)
next
  case (take_done i s t)
  show ?case
    by (rule exit_inv_active [OF take_done(3,1), of _ "AtPop"])
       (use take_done in \<open>auto simp: exec_defs exit_inv_def queue_done_def\<close>)
next
  case (close_queue s)
  then show ?case by (auto simp: exit_inv_def exec_defs Close_def)
qed (auto simp: exit_inv_def list_all_iff)

lemma serial_inv_step:
  assumes "exec_step excl serial s s'" and "serial_inv serial s" and "exit_inv n s"
  shows "serial_inv serial s'"
proof -
  have upd: "Running t \<in> set (ws[i := w]) \<Longrightarrow> w = Running t \<or> Running t \<in> set ws" for t :: 'a and ws i w
    using set_update_subset_insert [of ws i w] by auto
  have wk: "Running t \<in> wake ` A \<longleftrightarrow> Running t \<in> A" for t :: 'a and A
    by (auto simp: image_iff)
  show ?thesis
    using assms
  proof (induction rule: exec_step.induct)
    case (defer_serial i s t)
    then have "ex_main s = MainWait" by (auto intro: exit_inv_waiting)
    with defer_serial show ?case by (auto simp: serial_inv_def exec_defs dest!: upd)
  qed (auto simp: serial_inv_def exec_defs wk dest!: upd)
qed

lemma exec_inv_reach:
  assumes "exec_reach excl serial tests n s"
  shows "acct_inv tests s \<and> exit_inv n s \<and> serial_inv serial s"
  using assms
proof (induction rule: exec_reach.induct)
  case reach_init
  show ?case
    by (auto simp: acct_inv_def acct_def exit_inv_def serial_inv_def exec_init_def
        newParallelTestQueue_eq taken_def)
next
  case (reach_step s s')
  then show ?case using acct_inv_step exit_inv_step serial_inv_step by blast
next
  case (reach_cancel s)
  then show ?case
    by (auto simp: acct_inv_def acct_def exit_inv_def serial_inv_def exec_cancel_def)
qed

section \<open>Every run is finite\<close>

fun work_weight :: "'t worker \<Rightarrow> nat" where
  "work_weight (Took t) = 7"
| "work_weight (Running t) = 3"
| "work_weight (Finished t) = 2"
| "work_weight Exited = 0"
| "work_weight _ = 1"

fun poll_weight :: "'t worker \<Rightarrow> nat" where
  "poll_weight AtPop = 2"
| "poll_weight WillWait = 1"
| "poll_weight _ = 0"

definition main_weight :: "'t exec_state \<Rightarrow> nat" where
  "main_weight s = (case ex_main s of MainWait \<Rightarrow> 2 * length (ex_serial s) + 2
     | MainSerial ts \<Rightarrow> 2 * length ts + 1 | MainRun t ts \<Rightarrow> 2 * length ts + 2 | MainDone \<Rightarrow> 0)"

definition work_left :: "'t exec_state \<Rightarrow> nat" where
  "work_left s = 8 * length (queue (ex_q s)) + sum_list (map work_weight (ex_workers s))
     + main_weight s + (if ex_closed s then 0 else 1)"

definition poll_left :: "'t exec_state \<Rightarrow> nat" where
  "poll_left s = sum_list (map poll_weight (ex_workers s))"

lemma sum_list_upd:
  fixes f :: "'a \<Rightarrow> nat"
  assumes "i < length ws"
  shows "sum_list (map f (ws[i := w])) + f (ws ! i) = sum_list (map f ws) + f w"
proof -
  have "ws = take i ws @ ws ! i # drop (Suc i) ws"
    using assms by (simp add: id_take_nth_drop)
  then have "sum_list (map f ws) = sum_list (map f (take i ws)) + f (ws ! i) + sum_list (map f (drop (Suc i) ws))"
    by (metis (no_types) add.assoc list.simps(9) map_append sum_list.Cons sum_list_append)
  then show ?thesis
    using assms by (simp add: upd_conv_take_nth_drop)
qed

lemma work_weight_wake [simp]: "work_weight (wake w) = work_weight w"
  by (cases w) (auto simp: wake_def)

lemma sum_work_wake [simp]: "sum_list (map work_weight (map wake ws)) = sum_list (map work_weight ws)"
  by (simp add: comp_def)

lemma main_weight_frame [simp]:
  "main_weight (s\<lparr>ex_q := q\<rparr>) = main_weight s" "main_weight (s\<lparr>ex_workers := ws\<rparr>) = main_weight s"
  "main_weight (s\<lparr>ex_started := ts\<rparr>) = main_weight s" "main_weight (s\<lparr>ex_closed := b\<rparr>) = main_weight s"
  "main_weight (s\<lparr>ex_serial := ts @ [t]\<rparr>) \<le> main_weight (s\<lparr>ex_serial := ts\<rparr>) + 2"
  by (cases "ex_main s"; simp add: main_weight_def)+

lemma pop_got_length: "pop excl q = (Some t, ok, q') \<Longrightarrow> length (queue q) = Suc (length (queue q'))"
  using tq.pop_Some_law [of excl q t ok q'] by (metis size_add_mset size_mset)

lemma step_decreases:
  assumes "exec_step excl serial s s'"
  shows "work_left s' < work_left s \<or> work_left s' = work_left s \<and> poll_left s' < poll_left s"
  using assms
proof (induction rule: exec_step.induct)
  case (pop_got i s t q')
  with sum_list_upd [OF pop_got(1), of work_weight "Took t"] pop_got_length [OF pop_got(3)] show ?case
    by (simp add: work_left_def exec_defs)
next
  case (pop_drained i s q')
  with sum_list_upd [OF pop_drained(1), of work_weight Exited] show ?case
    by (simp add: work_left_def exec_defs del: map_map)
next
  case (pop_blocked i s q')
  with sum_list_upd [OF pop_blocked(1), of work_weight WillWait]
    sum_list_upd [OF pop_blocked(1), of poll_weight WillWait] show ?case
    by (simp add: work_left_def poll_left_def exec_defs)
next
  case (cond_wait i s)
  with sum_list_upd [OF cond_wait(1), of work_weight Waiting]
    sum_list_upd [OF cond_wait(1), of poll_weight Waiting] show ?case
    by (simp add: work_left_def poll_left_def exec_defs)
next
  case (defer_serial i s t)
  with sum_list_upd [OF defer_serial(1), of work_weight "Finished t"]
    main_weight_frame(5) [where s = s and ts = "ex_serial s" and t = t] show ?case
    by (simp add: work_left_def exec_defs)
next
  case (fn_start i s t)
  with sum_list_upd [OF fn_start(1), of work_weight "Running t"] show ?case
    by (simp add: work_left_def exec_defs)
next
  case (fn_end i s t)
  with sum_list_upd [OF fn_end(1), of work_weight "Finished t"] show ?case
    by (simp add: work_left_def exec_defs)
next
  case (take_done i s t)
  with sum_list_upd [OF take_done(1), of work_weight AtPop] show ?case
    by (simp add: work_left_def exec_defs queue_done_def del: map_map)
next
  case (close_queue s)
  then show ?case by (simp add: work_left_def exec_defs Close_def del: map_map)
qed (simp_all add: work_left_def main_weight_def)

lemma exec_step_wf: "wfp (\<lambda>s' s. exec_step excl serial s s')"
proof -
  have "wf (measures [work_left, poll_left])" by simp
  moreover have "{(s', s). exec_step excl serial s s'} \<subseteq> measures [work_left, poll_left]"
    using step_decreases by fastforce
  ultimately have "wf {(s', s). exec_step excl serial s s'}" by (rule wf_subset)
  then show ?thesis by (simp add: wfp_def)
qed

section \<open>States in which nothing can move\<close>

lemma stuck_shape:
  assumes stuck: "\<And>s'. \<not> exec_step excl serial s s'"
  shows "ex_main s = MainDone \<or>
     ex_main s = MainWait \<and> Waiting \<in> set (ex_workers s) \<and> set (ex_workers s) \<subseteq> {Waiting, Exited}"
proof -
  have workers: "set (ex_workers s) \<subseteq> {Waiting, Exited}"
  proof
    fix w
    assume "w \<in> set (ex_workers s)"
    then obtain i where i: "i < length (ex_workers s)" "ex_workers s ! i = w" by (auto simp: in_set_conv_nth)
    obtain r ok q' where p: "pop excl (ex_q s) = (r, ok, q')" by (metis prod_cases3)
    have "w \<noteq> AtPop"
    proof
      assume "w = AtPop"
      with i stuck p pop_Some_cases(1) [of excl "ex_q s" _ ok q'] show False
        by (cases r; cases ok) (auto intro: exec_step.intros)
    qed
    moreover have "w \<noteq> Took t" for t
      using i stuck exec_step.defer_serial [of i s t serial excl] exec_step.fn_start [of i s t serial excl] by metis
    moreover have "w \<noteq> WillWait" "\<And>t. w \<noteq> Running t" "\<And>t. w \<noteq> Finished t"
      using i stuck by (auto intro: exec_step.intros)
    ultimately show "w \<in> {Waiting, Exited}" by (cases w) auto
  qed
  show ?thesis
  proof (cases "ex_main s")
    case MainWait
    have "\<not> list_all (\<lambda>w. w = Exited) (ex_workers s)"
      using stuck MainWait by (auto intro: exec_step.wg_wait)
    with workers MainWait show ?thesis by (auto simp: list_all_iff)
  next
    case (MainSerial ts)
    then show ?thesis
      using stuck by (cases ts; cases "ex_ctxDone s") (auto intro: exec_step.intros)
  next
    case (MainRun t ts)
    then show ?thesis using stuck by (auto intro: exec_step.intros)
  qed simp
qed

text \<open>A worker finds only tests with a key in use only while another worker holds that key.\<close>

lemma blocked_by_other:
  assumes "key_inv excl s" and "i < length (ex_workers s)" and "ex_workers s ! i = AtPop"
    and "pop excl (ex_q s) = (None, False, q')"
  shows "\<exists>t \<in> set (queue (ex_q s)). excl t \<noteq> [] \<and>
     (\<exists>j < length (ex_workers s). j \<noteq> i \<and> (\<exists>u. holds (ex_workers s ! j) = Some u \<and> excl u = excl t))"
proof -
  from pop_None_cases [OF assms(4)] obtain t where t: "t \<in> set (queue (ex_q s))" "excl t \<in> active (ex_q s)"
    by (cases "queue (ex_q s)") auto
  with assms(1) have "excl t \<in> held_keys excl (ex_workers s)"
    by (auto simp: key_inv_def split: if_splits)
  then obtain j u where j: "j < length (ex_workers s)" "holds (ex_workers s ! j) = Some u" "excl u = excl t"
    and "excl t \<noteq> []"
    by (auto simp: held_keys_def in_set_conv_nth)
  moreover from j(2) assms(3) have "j \<noteq> i" by auto
  ultimately show ?thesis using t(1) by blast
qed

definition no_waiters :: "'t exec_state \<Rightarrow> bool" where
  "no_waiters s \<longleftrightarrow> set (ex_workers s) \<inter> {WillWait, Waiting} = {}"

lemma no_waiters_frame [simp]:
  "no_waiters (s\<lparr>ex_q := q\<rparr>) = no_waiters s" "no_waiters (s\<lparr>ex_serial := ts\<rparr>) = no_waiters s"
  "no_waiters (s\<lparr>ex_started := ts\<rparr>) = no_waiters s" "no_waiters (s\<lparr>ex_main := m\<rparr>) = no_waiters s"
  "no_waiters (s\<lparr>ex_closed := b\<rparr>) = no_waiters s"
  by (simp_all add: no_waiters_def)

lemma no_waiters_step:
  assumes "exec_step excl serial s s'" and "no_waiters s" and "key_inv excl s" and "acct_inv tests s"
    and "(\<forall>t \<in> set tests. excl t = []) \<or> length (ex_workers s) = 1"
  shows "no_waiters s'"
proof -
  have upd: "no_waiters (set_worker i w x)" if "no_waiters x" "w \<notin> {WillWait, Waiting}" for i w and x :: "'a exec_state"
    using that set_update_subset_insert [of "ex_workers x" i w] by (auto simp: no_waiters_def set_worker_def)
  have wk: "no_waiters (broadcast x)" if "no_waiters x" for x :: "'a exec_state"
    using that by (auto simp: no_waiters_def broadcast_def)
  show ?thesis
    using assms
  proof (induction rule: exec_step.induct)
    case (pop_blocked i s q')
    from blocked_by_other [OF pop_blocked(5,1,2,3)] obtain t j where
      tj: "t \<in> set (queue (ex_q s))" "excl t \<noteq> []" "j < length (ex_workers s)" "j \<noteq> i" by blast
    from pop_blocked(6) have "mset (queue (ex_q s)) \<subseteq># mset tests"
      unfolding acct_inv_def acct_def by (metis mset_subset_eq_add_left subset_mset.order_trans union_assoc)
    then have "t \<in> set tests" using tj(1) by (metis mset_subset_eqD set_mset_mset)
    with tj pop_blocked(1,7) show ?case by auto
  next
    case (cond_wait i s)
    then have "WillWait \<in> set (ex_workers s)" by (metis nth_mem)
    with cond_wait(3) show ?case by (simp add: no_waiters_def)
  qed (simp_all add: upd wk)
qed

lemma no_waiters_reach:
  assumes "exec_reach excl serial tests n s" and "(\<forall>t \<in> set tests. excl t = []) \<or> n = 1"
  shows "no_waiters s"
  using assms
proof (induction rule: exec_reach.induct)
  case reach_init
  show ?case by (simp add: no_waiters_def exec_init_def)
next
  case (reach_step s s')
  with exec_inv_reach [OF reach_step(1)] key_inv_reach [OF reach_step(1)] show ?case
    by (auto simp: exit_inv_def intro: no_waiters_step)
next
  case (reach_cancel s)
  then show ?case by (simp add: no_waiters_def exec_cancel_def)
qed

lemma final_complete:
  assumes "exec_reach excl serial tests n s" and "0 < n" and "ex_main s = MainDone" and "\<not> ex_ctxDone s"
  shows "mset (ex_started s) = mset tests"
proof -
  from exec_inv_reach [OF assms(1)] have a: "acct_inv tests s" and e: "exit_inv n s" by auto
  from e assms(2,3) have ex: "set (ex_workers s) \<subseteq> {Exited}" and "ex_workers s \<noteq> []"
    by (auto simp: exit_inv_def)
  then have "Exited \<in> set (ex_workers s)" by (metis list.set_intros(1) neq_Nil_conv singletonD subsetD)
  with e have "queue (ex_q s) = []" by (simp add: exit_inv_def)
  moreover have "taken (ex_workers s) = []"
    using ex by (auto simp: taken_def)
  ultimately show ?thesis using a assms(3,4) by (simp add: acct_inv_def acct_def)
qed

lemma runs_to_end:
  "\<exists>s'. (exec_step excl serial)\<^sup>*\<^sup>* s s' \<and> (\<forall>s''. \<not> exec_step excl serial s' s'')"
proof (induction s rule: wfp_induct_rule [OF exec_step_wf [of excl serial]])
  case (1 s)
  show ?case
  proof (cases "\<exists>t. exec_step excl serial s t")
    case True
    then obtain t where t: "exec_step excl serial s t" by blast
    with 1 obtain s' where "(exec_step excl serial)\<^sup>*\<^sup>* t s'" "\<forall>s''. \<not> exec_step excl serial s' s''" by blast
    with t show ?thesis by (meson converse_rtranclp_into_rtranclp)
  next
    case False
    then show ?thesis by blast
  qed
qed

lemma reach_steps:
  "(exec_step excl serial)\<^sup>*\<^sup>* s s' \<Longrightarrow> exec_reach excl serial tests n s \<Longrightarrow> exec_reach excl serial tests n s'"
  by (induction rule: rtranclp_induct) (auto intro: exec_reach.reach_step)

lemma steps_ctx: "(exec_step excl serial)\<^sup>*\<^sup>* s s' \<Longrightarrow> ex_ctxDone s' = ex_ctxDone s"
proof (induction rule: rtranclp_induct)
  case (step y z)
  from step(2,3) show ?case by (cases rule: exec_step.cases) (auto simp: exec_defs)
qed simp

section \<open>Schedules\<close>

text \<open>
  The step relation, executed: the next action of one goroutine, and a schedule as a list of the
  goroutines that move.
\<close>

datatype actor = Worker nat | MainG | Closer

definition act :: "('t \<Rightarrow> string) \<Rightarrow> ('t \<Rightarrow> bool) \<Rightarrow> actor \<Rightarrow> 't exec_state \<Rightarrow> 't exec_state option" where
  "act excl serial a s = (case a of
     Worker i \<Rightarrow>
       if i < length (ex_workers s) then
         (case ex_workers s ! i of
            AtPop \<Rightarrow> (case pop excl (ex_q s) of
                (Some t, ok, q') \<Rightarrow> Some (set_worker i (Took t) (s\<lparr>ex_q := q'\<rparr>))
              | (None, True, q') \<Rightarrow> Some (broadcast (set_worker i Exited s))
              | (None, False, q') \<Rightarrow> Some (set_worker i WillWait s))
          | WillWait \<Rightarrow> Some (set_worker i Waiting s)
          | Waiting \<Rightarrow> None
          | Took t \<Rightarrow> if serial t then Some (set_worker i (Finished t) (s\<lparr>ex_serial := ex_serial s @ [t]\<rparr>))
                      else Some (set_worker i (Running t) (s\<lparr>ex_started := ex_started s @ [t]\<rparr>))
          | Running t \<Rightarrow> Some (set_worker i (Finished t) s)
          | Finished t \<Rightarrow> Some (broadcast (set_worker i AtPop (s\<lparr>ex_q := queue_done excl t (ex_q s)\<rparr>)))
          | Exited \<Rightarrow> None)
       else None
   | MainG \<Rightarrow>
       (case ex_main s of
          MainWait \<Rightarrow> if list_all (\<lambda>w. w = Exited) (ex_workers s)
                      then Some (s\<lparr>ex_main := MainSerial (ex_serial s)\<rparr>) else None
        | MainSerial [] \<Rightarrow> Some (s\<lparr>ex_main := MainDone\<rparr>)
        | MainSerial (t # ts) \<Rightarrow> if ex_ctxDone s then Some (s\<lparr>ex_main := MainDone\<rparr>)
              else Some (s\<lparr>ex_main := MainRun t ts, ex_started := ex_started s @ [t]\<rparr>)
        | MainRun t ts \<Rightarrow> Some (s\<lparr>ex_main := MainSerial ts\<rparr>)
        | MainDone \<Rightarrow> None)
   | Closer \<Rightarrow>
       if ex_ctxDone s \<and> \<not> ex_closed s
       then Some (broadcast (s\<lparr>ex_q := Close (ex_q s), ex_closed := True\<rparr>)) else None)"

fun schedule :: "('t \<Rightarrow> string) \<Rightarrow> ('t \<Rightarrow> bool) \<Rightarrow> actor list \<Rightarrow> 't exec_state \<Rightarrow> 't exec_state" where
  "schedule excl serial [] s = s"
| "schedule excl serial (a # as) s =
     (case act excl serial a s of None \<Rightarrow> s | Some s' \<Rightarrow> schedule excl serial as s')"

lemma act_step: "act excl serial a s = Some s' \<Longrightarrow> exec_step excl serial s s'"
proof (cases a)
  case (Worker i)
  assume "act excl serial a s = Some s'"
  with Worker show ?thesis
    using pop_Some_cases(1) [of excl "ex_q s"]
    by (auto simp: act_def intro: exec_step.intros split: if_splits worker.splits prod.splits option.splits bool.splits)
qed (auto simp: act_def intro: exec_step.intros split: if_splits main_state.splits list.splits)

lemma step_act: "exec_step excl serial s s' \<Longrightarrow> \<exists>a. act excl serial a s = Some s'"
proof (induction rule: exec_step.induct)
  case (pop_got i s t q')
  then have "act excl serial (Worker i) s = Some (set_worker i (Took t) (s\<lparr>ex_q := q'\<rparr>))"
    by (simp add: act_def)
  then show ?case ..
next
  case (pop_drained i s q')
  then have "act excl serial (Worker i) s = Some (broadcast (set_worker i Exited s))"
    by (simp add: act_def)
  then show ?case ..
next
  case (pop_blocked i s q')
  then have "act excl serial (Worker i) s = Some (set_worker i WillWait s)" by (simp add: act_def)
  then show ?case ..
next
  case (cond_wait i s)
  then have "act excl serial (Worker i) s = Some (set_worker i Waiting s)" by (simp add: act_def)
  then show ?case ..
next
  case (defer_serial i s t)
  then have "act excl serial (Worker i) s = Some (set_worker i (Finished t) (s\<lparr>ex_serial := ex_serial s @ [t]\<rparr>))"
    by (simp add: act_def)
  then show ?case ..
next
  case (fn_start i s t)
  then have "act excl serial (Worker i) s = Some (set_worker i (Running t) (s\<lparr>ex_started := ex_started s @ [t]\<rparr>))"
    by (simp add: act_def)
  then show ?case ..
next
  case (fn_end i s t)
  then have "act excl serial (Worker i) s = Some (set_worker i (Finished t) s)" by (simp add: act_def)
  then show ?case ..
next
  case (take_done i s t)
  then have "act excl serial (Worker i) s
      = Some (broadcast (set_worker i AtPop (s\<lparr>ex_q := queue_done excl t (ex_q s)\<rparr>)))"
    by (simp add: act_def)
  then show ?case ..
next
  case (close_queue s)
  then have "act excl serial Closer s
      = Some (broadcast (s\<lparr>ex_q := Close (ex_q s), ex_closed := True\<rparr>))" by (simp add: act_def)
  then show ?case ..
qed (rule exI [of _ MainG], simp add: act_def)+

lemma schedule_steps: "(exec_step excl serial)\<^sup>*\<^sup>* s (schedule excl serial as s)"
proof (induction as arbitrary: s)
  case (Cons a as)
  show ?case
  proof (cases "act excl serial a s")
    case (Some s')
    with act_step [OF Some] Cons [of s'] show ?thesis
      by (simp add: converse_rtranclp_into_rtranclp)
  qed simp
qed simp

lemma schedule_reach: "exec_reach excl serial tests n (schedule excl serial as (exec_init tests n))"
  by (rule reach_steps [OF schedule_steps exec_reach.reach_init])

lemma stuck_act: "(\<forall>s'. \<not> exec_step excl serial s s') \<longleftrightarrow> (\<forall>a. act excl serial a s = None)"
proof (intro iffI allI)
  fix a
  assume "\<forall>s'. \<not> exec_step excl serial s s'"
  then show "act excl serial a s = None" by (cases "act excl serial a s") (auto dest: act_step)
next
  fix s'
  assume "\<forall>a. act excl serial a s = None"
  then show "\<not> exec_step excl serial s s'" by (auto dest: step_act)
qed

section \<open>Properties\<close>

text \<open>Keys and schedules for concrete runs: tests 0 and 1 share a key, test 2 has another one.\<close>

definition ex_key :: "nat \<Rightarrow> string" where
  "ex_key t = (if t < 2 then ''k'' else ''m'')"

definition ex_serial_test :: "nat \<Rightarrow> bool" where
  "ex_serial_test t = (t = 5)"

definition two_running :: "nat exec_state" where
  "two_running = schedule ex_key ex_serial_test [Worker 0, Worker 1, Worker 0, Worker 1] (exec_init [0, 1, 2] 2)"

definition one_serial :: "nat exec_state" where
  "one_serial = schedule ex_key ex_serial_test
     (replicate 8 (Worker 0) @ [MainG, MainG]) (exec_init [5, 2] 1)"

definition all_done :: "nat exec_state" where
  "all_done = schedule ex_key ex_serial_test
     (replicate 8 (Worker 0) @ replicate 4 MainG) (exec_init [5, 2] 1)"

lemma all_done_reach: "exec_reach ex_key ex_serial_test [5, 2] 1 all_done"
  unfolding all_done_def by (rule schedule_reach)

lemma two_running_reach: "exec_reach ex_key ex_serial_test [0, 1, 2] 2 two_running"
  unfolding two_running_def by (rule schedule_reach)

lemma one_serial_reach: "exec_reach ex_key ex_serial_test [5, 2] 1 one_serial"
  unfolding one_serial_def by (rule schedule_reach)

text \<open>
  C1: at every moment of every interleaving, two workers that hold a test (taken, running, or
  finished and not yet reported done) hold tests with different exclusion keys, unless the key is
  empty. Cancellation does not break this.
\<close>

theorem execute_exclusive:
  assumes "exec_reach excl serial tests n s"
    and "i < length (ex_workers s)" and "j < length (ex_workers s)" and "i \<noteq> j"
    and "holds (ex_workers s ! i) = Some t" and "holds (ex_workers s ! j) = Some u"
  shows "excl t = [] \<or> excl t \<noteq> excl u"
  using key_inv_reach [OF assms(1)] assms(2-) by (auto simp: key_inv_def exclusive_def)

theorem execute_exclusive_witness:
  "holds (ex_workers two_running ! 0) = Some 0 \<and> holds (ex_workers two_running ! 1) = Some 2
   \<and> ex_key 0 \<noteq> ex_key 2"
proof -
  have h: "0 < length (ex_workers two_running)" "1 < length (ex_workers two_running)"
    "holds (ex_workers two_running ! 0) = Some 0" "holds (ex_workers two_running ! 1) = Some 2"
    by code_simp+
  show ?thesis
    using execute_exclusive [OF two_running_reach h(1,2) _ h(3,4)] h by (simp add: ex_key_def)
qed

text \<open>
  C2: no test is ever given to \<open>fn\<close> more often than it occurs in the list of tests, and when
  \<open>Execute\<close> returns without having been cancelled, every test has been given to \<open>fn\<close> exactly as
  often as it occurs in the list, in whatever order the workers moved.
\<close>

theorem execute_each_once:
  assumes "exec_reach excl serial tests n s"
  shows "mset (ex_started s) \<subseteq># mset tests
    \<and> (0 < n \<and> ex_main s = MainDone \<and> \<not> ex_ctxDone s \<longrightarrow> mset (ex_started s) = mset tests)"
proof -
  from exec_inv_reach [OF assms] have "acct s \<subseteq># mset tests" by (simp add: acct_inv_def)
  then have "mset (ex_started s) \<subseteq># mset tests"
    unfolding acct_def by (metis mset_subset_eq_add_left mset_subset_eq_add_right subset_mset.order_trans)
  with final_complete [OF assms] show ?thesis by blast
qed

theorem execute_each_once_witness:
  "ex_main all_done = MainDone \<and> mset (ex_started all_done) = {#5, 2#}"
proof -
  have "ex_main all_done = MainDone" "\<not> ex_ctxDone all_done" by code_simp+
  with execute_each_once [OF all_done_reach] show ?thesis by (simp add: add_mset_commute)
qed

text \<open>
  C8: a test marked \<open>[Serial]\<close> never runs on a worker, and while the main goroutine runs a serial
  test every worker has returned, so nothing else runs at the same time.
\<close>

theorem execute_serial_alone:
  assumes "exec_reach excl serial tests n s"
  shows "(Running u \<in> set (ex_workers s) \<longrightarrow> \<not> serial u)
    \<and> (ex_main s = MainRun t ts \<longrightarrow> serial t \<and> set (ex_workers s) \<subseteq> {Exited})"
  using exec_inv_reach [OF assms] by (auto simp: serial_inv_def exit_inv_def)

theorem execute_serial_alone_witness:
  "ex_main one_serial = MainRun 5 [] \<and> ex_serial_test 5 \<and> set (ex_workers one_serial) \<subseteq> {Exited}"
proof -
  have "ex_main one_serial = MainRun 5 []" by code_simp
  with execute_serial_alone [OF one_serial_reach] show ?thesis by simp
qed

text \<open>
  C7: if no test has an exclusion key, or if there is one worker only, \<open>Execute\<close> always returns:
  from every reachable state the goroutines can go on to the end, and every state in which none of
  them can move is one in which \<open>Execute\<close> has returned. (All runs are finite, whatever the keys.)
\<close>

theorem execute_returns:
  assumes "exec_reach excl serial tests n s"
    and "(\<forall>t \<in> set tests. excl t = []) \<or> n = 1"
  shows "(\<exists>s'. (exec_step excl serial)\<^sup>*\<^sup>* s s' \<and> ex_main s' = MainDone)
    \<and> (\<forall>s'. (exec_step excl serial)\<^sup>*\<^sup>* s s' \<and> (\<forall>s''. \<not> exec_step excl serial s' s'') \<longrightarrow> ex_main s' = MainDone)
    \<and> wfp (\<lambda>s' s. exec_step excl serial s s')"
proof -
  have fin: "ex_main s' = MainDone"
    if "(exec_step excl serial)\<^sup>*\<^sup>* s s'" "\<forall>s''. \<not> exec_step excl serial s' s''" for s'
    using stuck_shape [of excl serial s'] that no_waiters_reach [OF reach_steps [OF that(1) assms(1)] assms(2)]
    by (auto simp: no_waiters_def)
  with runs_to_end [of excl serial s] exec_step_wf show ?thesis by blast
qed

theorem execute_returns_witness:
  "\<exists>s'. (exec_step ex_key ex_serial_test)\<^sup>*\<^sup>* one_serial s' \<and> ex_main s' = MainDone"
  using execute_returns [OF one_serial_reach] by simp

text \<open>
  C15: with two workers and two tests that share a key, a wake-up can be lost: one worker finds both
  keys in use and, before it waits, the other one runs both tests, broadcasts and returns. The
  waiting worker is then never woken, no goroutine can move, and \<open>Execute\<close> does not return although
  every test has run and nothing was cancelled.
\<close>

theorem execute_lost_wakeup:
  "\<exists>s. exec_reach ex_key ex_serial_test [0, 1] 2 s \<and> ex_main s = MainWait \<and> \<not> ex_ctxDone s
     \<and> queue (ex_q s) = [] \<and> mset (ex_started s) = mset [0, 1] \<and> Waiting \<in> set (ex_workers s)
     \<and> (\<forall>s'. \<not> exec_step ex_key ex_serial_test s s')"
proof -
  define s where "s = schedule ex_key ex_serial_test
      ([Worker 0, Worker 1] @ replicate 8 (Worker 0) @ [Worker 1]) (exec_init [0, 1] 2)"
  have eq: "s = \<lparr>ex_q = \<lparr>queue = [], active = {}\<rparr>, ex_workers = [Exited, Waiting], ex_serial = [],
      ex_main = MainWait, ex_ctxDone = False, ex_closed = False, ex_started = [0, 1]\<rparr>"
    unfolding s_def by code_simp
  have "act ex_key ex_serial_test a s = None" for a
    unfolding eq by (cases a) (auto simp: act_def less_Suc_eq numeral_2_eq_2)
  then have "\<forall>s'. \<not> exec_step ex_key ex_serial_test s s'" by (simp add: stuck_act)
  moreover have "exec_reach ex_key ex_serial_test [0, 1] 2 s" unfolding s_def by (rule schedule_reach)
  ultimately show ?thesis by (intro exI [of _ s]) (simp add: eq)
qed

text \<open>
  A worker that runs alone takes every test of the queue, and it takes them in the order first,
  last, last but one, \<dots>, second: the ring pointer steps back after each test. This is the order in
  which \<open>--print-commands\<close> prints the commands.
\<close>

theorem take_alone_reverses:
  assumes "tests = x # xs" and "length tests < fuel"
  shows "take_alone excl fuel (newParallelTestQueue tests) = Some (x # rev xs)"
  using assms by (simp add: newParallelTestQueue_eq take_alone_order)

theorem take_alone_reverses_witness:
  "take_alone ex_key 5 (newParallelTestQueue [1, 2, 3, 4]) = Some [1, 4, 3, 2]"
  using take_alone_reverses [of "[1, 2, 3, 4]" 1 "[2, 3, 4]" 5 ex_key] by simp

end
