(* ===== verification/Go_Time.thy ===== *)
theory Go_Time
  imports OT_Prelude
begin

text \<open>
  The parts of the package \<open>time\<close> that the program uses. A \<open>time.Time\<close> is the number of nanoseconds
  since the zero time (1 January of year 1, UTC), so \<open>IsZero\<close> is equality with 0; a \<open>time.Duration\<close> is
  a number of nanoseconds in the range of a 64-bit integer. Times are formatted in UTC.
\<close>

type_synonym time = int
type_synonym duration = int

definition Millisecond :: duration where
  "Millisecond = 1000000"

definition Second :: duration where
  "Second = 1000000000"

definition Minute :: duration where
  "Minute = 60 * Second"

definition maxDuration :: duration where
  "maxDuration = 2 ^ 63 - 1"

definition minDuration :: duration where
  "minDuration = - (2 ^ 63)"

abbreviation IsZero :: "time \<Rightarrow> bool" where
  "IsZero t \<equiv> t = 0"

abbreviation After :: "time \<Rightarrow> time \<Rightarrow> bool" where
  "After t u \<equiv> u < t"

abbreviation Before :: "time \<Rightarrow> time \<Rightarrow> bool" where
  "Before t u \<equiv> t < u"

text \<open>\<open>t.Sub(u)\<close> saturates.\<close>

definition time_Sub :: "time \<Rightarrow> time \<Rightarrow> duration" where
  "time_Sub t u = max minDuration (min maxDuration (t - u))"

text \<open>\<open>d.Round(m)\<close>: to the nearest multiple of \<open>m\<close>, halves away from zero, saturating.\<close>

definition duration_Round :: "duration \<Rightarrow> duration \<Rightarrow> duration" where
  "duration_Round d m =
     (if m \<le> 0 then d
      else let r = \<bar>d\<bar> mod m in
        if d < 0 then (if 2 * r < m then d + r else max minDuration (d - m + r))
        else (if 2 * r < m then d - r else min maxDuration (d + m - r)))"

section \<open>Duration.String\<close>

text \<open>The digits after the decimal point of \<open>v\<close>, read with \<open>prec\<close> decimals, without trailing zeros.\<close>

fun frac_digits :: "nat \<Rightarrow> int \<Rightarrow> bool \<Rightarrow> string" where
  "frac_digits 0 v printing = []"
| "frac_digits (Suc prec) v printing =
     (let d = v mod 10; pr = (printing \<or> d \<noteq> 0) in
      frac_digits prec (v div 10) pr @ (if pr then [digit_char (nat d)] else []))"

definition frac_str :: "nat \<Rightarrow> int \<Rightarrow> string" where
  "frac_str prec v = (let ds = frac_digits prec v False in if ds = [] then [] else CHR ''.'' # ds)"

definition duration_String :: "duration \<Rightarrow> string" where
  "duration_String d =
     (let u = \<bar>d\<bar>; sign = (if d < 0 then ''-'' else '''') in
      if u = 0 then ''0s''
      else if u < 1000 then sign @ dec_str u @ ''ns''
      else if u < 1000000 then sign @ dec_str (u div 1000) @ frac_str 3 u @ [CHR 0xC2, CHR 0xB5, CHR ''s'']
      else if u < 1000000000 then sign @ dec_str (u div 1000000) @ frac_str 6 u @ ''ms''
      else let s = u div 1000000000; m = s div 60; h = m div 60 in
        sign @ (if h > 0 then dec_str h @ ''h'' else '''')
          @ (if m > 0 then dec_str (m mod 60) @ ''m'' else '''')
          @ dec_str (s mod 60) @ frac_str 9 u @ ''s'')"

section \<open>Time.Format\<close>

text \<open>The year (from 0), the day of the year (from 0) and whether it is a leap year.\<close>

definition civil_year :: "int \<Rightarrow> int \<times> int \<times> bool" where
  "civil_year day =
     (let n400 = day div 146097; d = day mod 146097;
          n100 = min 3 (d div 36524); d = d - 36524 * n100;
          n4 = d div 1461; d = d - 1461 * n4;
          n = min 3 (d div 365); d = d - 365 * n
      in (400 * n400 + 100 * n100 + 4 * n4 + n, d, n = 3 \<and> (n4 \<noteq> 24 \<or> n100 = 3)))"

definition months :: "bool \<Rightarrow> (string \<times> int) list" where
  "months leap =
     [(''Jan'', 31), (''Feb'', if leap then 29 else 28), (''Mar'', 31), (''Apr'', 30), (''May'', 31),
      (''Jun'', 30), (''Jul'', 31), (''Aug'', 31), (''Sep'', 30), (''Oct'', 31), (''Nov'', 30), (''Dec'', 31)]"

text \<open>The month (its number from 1 and its name) and the day of the month (from 1) of a day of the year.\<close>

fun month_of :: "(string \<times> int) list \<Rightarrow> int \<Rightarrow> int \<Rightarrow> int \<times> string \<times> int" where
  "month_of [] m d = (m, '''', d)"
| "month_of ((name, l) # ls) m d =
     (if d < l then (m + 1, name, d + 1) else month_of ls (m + 1) (d - l))"

definition clock_str :: "int \<Rightarrow> string" where
  "clock_str sec = pad_str 2 (sec div 3600) @ '':'' @ pad_str 2 (sec div 60 mod 60) @ '':''
     @ pad_str 2 (sec mod 60)"

text \<open>The layouts \<open>Jan 02 15:04:05\<close> and \<open>2006-01-02T15:04:05\<close>.\<close>

definition format_stamp :: "time \<Rightarrow> string" where
  "format_stamp t =
     (let sec = t div 1000000000; (y, yday, leap) = civil_year (sec div 86400);
          (m, name, d) = month_of (months leap) 0 yday
      in name @ '' '' @ pad_str 2 d @ '' '' @ clock_str (sec mod 86400))"

definition format_iso :: "time \<Rightarrow> string" where
  "format_iso t =
     (let sec = t div 1000000000; (y, yday, leap) = civil_year (sec div 86400);
          (m, name, d) = month_of (months leap) 0 yday
      in pad_str 4 (y + 1) @ ''-'' @ pad_str 2 m @ ''-'' @ pad_str 2 d @ ''T''
         @ clock_str (sec mod 86400))"

definition millis :: "time \<Rightarrow> int" where
  "millis t = t mod 1000000000 div 1000000"

section \<open>Facts\<close>

lemma time_Sub_less [simp]: "time_Sub t u < 0 \<longleftrightarrow> t < u"
  by (auto simp: time_Sub_def minDuration_def maxDuration_def min_def max_def)

lemma time_Sub_greater [simp]: "0 < time_Sub t u \<longleftrightarrow> u < t"
  by (auto simp: time_Sub_def minDuration_def maxDuration_def min_def max_def)

text \<open>Rounding a duration that is not negative gives a multiple of the unit nearby.\<close>

lemma duration_Round_multiple:
  assumes "0 \<le> d" and "0 < m" and "d + m \<le> maxDuration"
  shows "m dvd duration_Round d m \<and> 2 * \<bar>duration_Round d m - d\<bar> \<le> m"
proof -
  let ?r = "d mod m"
  have r: "0 \<le> ?r" "?r < m" and dv: "m dvd d - ?r" using assms by auto
  have dv2: "m dvd d + m - ?r" using dv by (metis add_diff_eq add.commute dvd_add_left_iff dvd_refl)
  show ?thesis
  proof (cases "2 * ?r < m")
    case True
    then show ?thesis using assms r dv by (simp add: duration_Round_def)
  next
    case False
    then show ?thesis using assms r dv2 by (simp add: duration_Round_def min_def)
  qed
qed

end
