(* ===== verification/Monitor_Types.thy ===== *)
theory Monitor_Types
  imports Go_Time
begin

text \<open>
  The data of the monitor, \<open>src/pkg/monitor/types.go\<close>: conditions, events, samples and event intervals,
  how events and intervals are printed, and the order \<open>Less\<close> by which intervals are sorted. The
  contract of \<open>sort.Sort\<close> is instantiated with that order.
\<close>

section \<open>Data\<close>

datatype EventLevel = Info | Warning | Error

record Condition =
  Level :: EventLevel
  Locator :: string
  Message :: string

record Event =
  ev_Condition :: Condition
  ev_At :: time

record sample =
  at :: time
  conditions :: "Condition list"

record EventInterval =
  iv_Condition :: Condition
  iv_From :: time
  iv_To :: time

type_synonym EventIntervals = "EventInterval list"

text \<open>A sampler reads the state \<open>'w\<close> of the world at a time and reports conditions.\<close>

type_synonym 'w SamplerFunc = "'w \<Rightarrow> time \<Rightarrow> Condition list"

section \<open>Printing\<close>

fun eventString :: "EventLevel \<Rightarrow> string" where
  "eventString Info = ''I''"
| "eventString Warning = ''W''"
| "eventString Error = ''E''"

text \<open>\<open>strings.Replace(message, "\n", "\\n", -1)\<close>\<close>

definition one_line :: "string \<Rightarrow> string" where
  "one_line m = str_replace_all m [newline] [backslash, CHR ''n'']"

definition Event_String :: "Event \<Rightarrow> string" where
  "Event_String e =
     (let c = ev_Condition e in
      format_stamp (ev_At e) @ ''.'' @ pad_str 3 (millis (ev_At e)) @ '' '' @ eventString (Level c) @ '' ''
        @ Locator c @ '' '' @ one_line (Message c))"

definition EventInterval_String :: "EventInterval \<Rightarrow> string" where
  "EventInterval_String i =
     (let c = iv_Condition i in
      if iv_From i = iv_To i then
        format_stamp (iv_From i) @ ''.'' @ pad_str 3 (millis (iv_From i)) @ '' '' @ eventString (Level c)
          @ '' '' @ Locator c @ '' '' @ one_line (Message c)
      else
        format_stamp (iv_From i) @ ''.'' @ pad_str 3 (millis (iv_From i)) @ '' - ''
          @ pad_right 5 (int_str (go_quot (time_Sub (iv_To i) (iv_From i)) Second) @ ''s'') @ '' ''
          @ eventString (Level c) @ '' '' @ Locator c @ '' '' @ one_line (Message c))"

section \<open>The order of intervals\<close>

definition interval_less :: "EventInterval \<Rightarrow> EventInterval \<Rightarrow> bool" where
  "interval_less a b =
     (let d = time_Sub (iv_From a) (iv_From b) in
      if d < 0 then True
      else if d > 0 then False
      else let d = time_Sub (iv_To a) (iv_To b) in
        if d < 0 then True
        else if d > 0 then False
        else str_less (Message (iv_Condition a)) (Message (iv_Condition b)))"

text \<open>\<open>sort.Sort(intervals)\<close>\<close>

definition sort_intervals :: "EventIntervals \<Rightarrow> EventIntervals" where
  "sort_intervals = sort_by interval_less"

lemma interval_less_iff:
  "interval_less a b \<longleftrightarrow>
     iv_From a < iv_From b \<or> iv_From a = iv_From b \<and> (iv_To a < iv_To b \<or> iv_To a = iv_To b
       \<and> str_less (Message (iv_Condition a)) (Message (iv_Condition b)))"
  by (auto simp: interval_less_def Let_def)

interpretation ivs: strict_weak interval_less
proof unfold_locales
  fix a b :: EventInterval
  assume "interval_less a b"
  then show "\<not> interval_less b a"
    by (auto simp: interval_less_iff dest: str_less_asym)
next
  fix a b c :: EventInterval
  assume "interval_less a b"
  then show "interval_less a c \<or> interval_less c b"
    by (auto simp: interval_less_iff dest: str_less_cotrans)
qed

lemmas sort_intervals_facts =
  ivs.by_insertion.srt_mset [folded sort_intervals_def]
  ivs.by_insertion.srt_sorted [folded sort_intervals_def]
  ivs.by_insertion.srt_set [folded sort_intervals_def]

lemma sort_intervals_From:
  "sorted_wrt (\<lambda>a b. iv_From a \<le> iv_From b) (sort_intervals xs)"
  by (rule sorted_wrt_mono_rel [OF _ sort_intervals_facts(2)]) (auto simp: interval_less_iff)

section \<open>One line per event\<close>

lemma str_join_set: "set (str_join xs sep) \<subseteq> \<Union> (set ` set xs) \<union> set sep"
  by (induction xs sep rule: str_join.induct) auto

lemma one_line_no_newline: "newline \<notin> set (one_line m)"
proof -
  have "newline \<notin> set acc \<Longrightarrow> \<forall>x \<in> set (split_acc [newline] acc m). newline \<notin> set x" for acc
  proof (induction m arbitrary: acc)
    case (Cons a m)
    from Cons.IH [of "[]"] Cons.IH [of "a # acc"] Cons.prems show ?case by auto
  qed simp
  from this [of "[]"] have "newline \<notin> \<Union> (set ` set (str_split m [newline]))" by (auto simp: str_split_def)
  then show ?thesis
    using str_join_set [of "str_split m [newline]" "[backslash, CHR ''n'']"]
    by (auto simp: one_line_def str_replace_all_def)
qed

end
