(* ===== verification/Monitor_Core.thy ===== *)
theory Monitor_Core
  imports Monitor_Types
begin

text \<open>
  The monitor of \<open>src/pkg/monitor/monitor.go\<close>: recording of events, sampling, and the queries \<open>Events\<close>
  and \<open>Conditions\<close>, and the printing loop of \<open>src/pkg/monitor/cmd.go\<close>. Samplers read a state
  \<open>'w\<close> of the world, which is a parameter here and the state of the informers and of the probes in
  \<open>Monitor_Sampler\<close>. Each call that holds the lock is one atomic step; \<open>sample\<close> holds it twice, and
  other steps may run between its two halves.
\<close>

section \<open>State and recording\<close>

record 'w Monitor =
  interval :: duration
  samplers :: "'w SamplerFunc list"
  events :: "Event list"
  samples :: "sample list"

definition NewMonitor :: "'w Monitor" where
  "NewMonitor = \<lparr>interval = 15 * Second, samplers = [], events = [], samples = []\<rparr>"

definition AddSampler :: "'w SamplerFunc \<Rightarrow> 'w Monitor \<Rightarrow> 'w Monitor" where
  "AddSampler fn m = m\<lparr>samplers := samplers m @ [fn]\<rparr>"

text \<open>\<open>t\<close> is the time that the call of \<open>time.Now\<close> under the lock returns.\<close>

definition Record :: "time \<Rightarrow> Condition list \<Rightarrow> 'w Monitor \<Rightarrow> 'w Monitor" where
  "Record t cs m =
     (if cs = [] then m
      else m\<lparr>events := events m @ map (\<lambda>c. \<lparr>ev_Condition = c, ev_At = t\<rparr>) cs\<rparr>)"

text \<open>The two halves of \<open>sample\<close>: running the samplers, and storing what they reported.\<close>

definition sample_collect :: "'w \<Rightarrow> time \<Rightarrow> 'w SamplerFunc list \<Rightarrow> Condition list" where
  "sample_collect w now fns = concat (map (\<lambda>fn. fn w now) fns)"

definition sample_store :: "time \<Rightarrow> Condition list \<Rightarrow> 'w Monitor \<Rightarrow> 'w Monitor" where
  "sample_store t cs m =
     (if cs = [] then m else m\<lparr>samples := samples m @ [\<lparr>at = t, conditions = cs\<rparr>]\<rparr>)"

definition Monitor_sample :: "'w \<Rightarrow> time \<Rightarrow> time \<Rightarrow> 'w Monitor \<Rightarrow> 'w Monitor" where
  "Monitor_sample w now t m = sample_store t (sample_collect w now (samplers m)) m"

text \<open>
  The goroutine of \<open>StartSampling\<close>: what each \<open>select\<close> receives, with the world and the two times
  that the \<open>sample\<close> after it sees.
\<close>

datatype 'w select = Tick 'w time time | Done 'w time time

fun sampling_loop :: "'w select list \<Rightarrow> 'w Monitor \<Rightarrow> 'w Monitor" where
  "sampling_loop [] m = m"
| "sampling_loop (Tick w now t # r) m = sampling_loop r (Monitor_sample w now t m)"
| "sampling_loop (Done w now t # r) m = Monitor_sample w now t m"

definition Monitor_StartSampling :: "'w select list \<Rightarrow> 'w Monitor \<Rightarrow> 'w Monitor" where
  "Monitor_StartSampling r m = (if interval m = 0 then m else sampling_loop r m)"

section \<open>Queries\<close>

definition snapshot :: "'w Monitor \<Rightarrow> sample list \<times> Event list" where
  "snapshot m = (samples m, events m)"

text \<open>\<open>sort.Search\<close> never returns -1, so the early returns on -1 are dead code.\<close>

definition filterEvents :: "Event list \<Rightarrow> time \<Rightarrow> time \<Rightarrow> Event list" where
  "filterEvents es from to =
     (if IsZero from \<and> IsZero to then es
      else let first = sort_search (length es) (\<lambda>i. After (ev_At (es ! i)) from) in
        if IsZero to then drop first es
        else takeWhile (\<lambda>e. \<not> After (ev_At e) to) (drop first es))"

definition window :: "sample list \<Rightarrow> time \<Rightarrow> time \<Rightarrow> sample list" where
  "window ss from to =
     (let ss = (if \<not> IsZero from
                then drop (sort_search (length ss) (\<lambda>i. After (at (ss ! i)) from)) ss else ss)
      in if \<not> IsZero to then takeWhile (\<lambda>s. \<not> After (at s) to) ss else ss)"

text \<open>
  The loop over the conditions of one sample. Intervals are shared by reference between the list and
  the maps \<open>last\<close> and \<open>next\<close>; a reference is the position of the interval in the list.
\<close>

fun sample_conditions ::
  "time \<Rightarrow> (Condition \<rightharpoonup> nat) \<Rightarrow> Condition list \<Rightarrow> EventIntervals \<Rightarrow> (Condition \<rightharpoonup> nat)
    \<Rightarrow> EventIntervals \<times> (Condition \<rightharpoonup> nat)" where
  "sample_conditions t last_m [] ivs next_m = (ivs, next_m)"
| "sample_conditions t last_m (c # cs) ivs next_m =
     (case last_m c of
        Some i \<Rightarrow> sample_conditions t last_m cs (ivs[i := (ivs ! i)\<lparr>iv_To := t\<rparr>]) (next_m(c \<mapsto> i))
      | None \<Rightarrow> sample_conditions t last_m cs
                  (ivs @ [\<lparr>iv_Condition = c, iv_From = t, iv_To = t\<rparr>]) (next_m(c \<mapsto> length ivs)))"

fun sample_intervals :: "sample list \<Rightarrow> EventIntervals \<Rightarrow> (Condition \<rightharpoonup> nat) \<Rightarrow> EventIntervals" where
  "sample_intervals [] ivs last_m = ivs"
| "sample_intervals (s # ss) ivs last_m =
     (let (ivs, next_m) = sample_conditions (at s) last_m (conditions s) ivs Map.empty
      in sample_intervals ss ivs next_m)"

definition filterSamples :: "sample list \<Rightarrow> time \<Rightarrow> time \<Rightarrow> EventIntervals" where
  "filterSamples ss from to =
     (if ss = [] then []
      else let ss = window ss from to in
        if ss = [] then [] else sample_intervals ss [] Map.empty)"

definition Conditions :: "'w Monitor \<Rightarrow> time \<Rightarrow> time \<Rightarrow> EventIntervals" where
  "Conditions m from to = filterSamples (fst (snapshot m)) from to"

abbreviation event_interval :: "Event \<Rightarrow> EventInterval" where
  "event_interval e \<equiv> \<lparr>iv_Condition = ev_Condition e, iv_From = ev_At e, iv_To = ev_At e\<rparr>"

definition Events :: "'w Monitor \<Rightarrow> time \<Rightarrow> time \<Rightarrow> EventIntervals" where
  "Events m from to =
     (let (ss, es) = snapshot m;
          ivs = filterSamples ss from to;
          es = filterEvents es from to;
          all = ivs @ map event_interval es
      in if ivs \<noteq> [] then sort_intervals all else all)"

text \<open>
  The positions of the events that \<open>Events\<close> reports as out of order, one message for each, straight to the
  standard output; the result does not depend on them.
\<close>

definition Events_out_of_order :: "'w Monitor \<Rightarrow> time \<Rightarrow> time \<Rightarrow> nat list" where
  "Events_out_of_order m from to =
     (let es = filterEvents (snd (snapshot m)) from to in
      filter (\<lambda>i. i > 0 \<and> After (ev_At (es ! (i - 1))) (ev_At (es ! i))) [0..<length es])"

section \<open>The monitor command\<close>

text \<open>One round of the printing goroutine: what it prints, and the new value of \<open>last\<close>.\<close>

definition print_poll :: "'w Monitor \<Rightarrow> time \<Rightarrow> EventIntervals \<times> time" where
  "print_poll m lst =
     (let evs = Events m lst 0 in
      if evs = [] then ([], lst)
      else (filter (\<lambda>e. iv_From e = iv_To e) evs, iv_From (last evs)))"

fun print_loop :: "'w Monitor list \<Rightarrow> time \<Rightarrow> EventIntervals" where
  "print_loop [] lst = []"
| "print_loop (m # ms) lst = (let (out, lst) = print_poll m lst in out @ print_loop ms lst)"

text \<open>The lines written by \<open>Options.Run\<close>, each followed by a line break: the polls, then the conditions
  of the final state.\<close>

definition Options_Run_out :: "'w Monitor list \<Rightarrow> 'w Monitor \<Rightarrow> string list" where
  "Options_Run_out polls final =
     map EventInterval_String (print_loop polls 0)
       @ (let cs = Conditions final 0 0 in
          if cs = [] then [] else [[newline] @ ''Conditions:'' @ [newline]] @ map EventInterval_String cs)"

section \<open>The monitor over time\<close>

text \<open>
  All goroutines that use one monitor: the clock, and for every call of \<open>sample\<close> that is between its two
  halves, the conditions it has collected. The clock never goes backwards: \<open>time.Now().UTC()\<close> is a wall clock
  time without the monotonic reading, so this is the assumption that nobody sets the clock of the machine back
  while the monitor runs.
\<close>

record 'w mon_sys =
  now :: time
  mon :: "'w Monitor"
  collected :: "Condition list multiset"

inductive mon_step :: "'w mon_sys \<Rightarrow> 'w mon_sys \<Rightarrow> bool" where
  tick: "now s \<le> t \<Longrightarrow> mon_step s (s\<lparr>now := t\<rparr>)"
| record_: "mon_step s (s\<lparr>mon := Record (now s) cs (mon s)\<rparr>)"
| add_sampler: "mon_step s (s\<lparr>mon := AddSampler fn (mon s)\<rparr>)"
| collect: "mon_step s (s\<lparr>collected := add_mset (sample_collect w t (samplers (mon s))) (collected s)\<rparr>)"
| store: "cs \<in># collected s \<Longrightarrow>
    mon_step s (s\<lparr>mon := sample_store (now s) cs (mon s), collected := collected s - {#cs#}\<rparr>)"

definition mon_init :: "time \<Rightarrow> 'w mon_sys" where
  "mon_init t = \<lparr>now = t, mon = NewMonitor, collected = {#}\<rparr>"

abbreviation mon_reach :: "'w mon_sys \<Rightarrow> 'w mon_sys \<Rightarrow> bool" where
  "mon_reach \<equiv> mon_step\<^sup>*\<^sup>*"

end
