(* ===== verification/Monitor_Props.thy ===== *)
theory Monitor_Props
  imports Monitor_Core
begin

text \<open>
  Correctness of the monitor: the queries return exactly the events of the window and exactly the
  maximal runs of each sampled condition, in order; what is recorded stays in order in every
  interleaving; the printing loop prints every event once.
\<close>

section \<open>Windows of sorted lists\<close>

abbreviation ascending :: "('a \<Rightarrow> time) \<Rightarrow> 'a list \<Rightarrow> bool" where
  "ascending f xs \<equiv> sorted_wrt (\<lambda>a b. f a \<le> f b) xs"

lemma drop_search_filter:
  assumes "ascending f xs"
  shows "drop (sort_search (length xs) (\<lambda>i. t < f (xs ! i))) xs = filter (\<lambda>x. t < f x) xs"
proof -
  define g where "g i = (i \<ge> length xs \<or> t < f (xs ! i))" for i
  define k where "k = sort_search (length xs) (\<lambda>i. t < f (xs ! i))"
  have mono: "g b" if "a \<le> b" "g a" for a b
  proof (cases "a < b \<and> b < length xs")
    case True
    with assms have "f (xs ! a) \<le> f (xs ! b)" by (simp add: sorted_wrt_iff_nth_less)
    with that True show ?thesis by (simp add: g_def)
  qed (use that in \<open>auto simp: g_def\<close>)
  have k: "k = sort_search (length xs) g"
    unfolding k_def by (rule sort_search_cong) (simp add: g_def)
  have least: "k \<le> length xs" "\<forall>i < k. \<not> g i" "k < length xs \<longrightarrow> g k"
    using sort_search_least [of g "length xs"] mono k by auto
  have pre: "filter (\<lambda>x. t < f x) (take k xs) = []"
    using least(1,2) by (auto simp: filter_empty_conv in_set_conv_nth g_def)
  have post: "filter (\<lambda>x. t < f x) (drop k xs) = drop k xs"
  proof (rule filter_True, rule ballI)
    fix x assume "x \<in> set (drop k xs)"
    then obtain i where "i < length xs - k" "x = xs ! (k + i)" by (auto simp: in_set_conv_nth)
    with mono [of k "k + i"] least(3) show "t < f x" by (auto simp: g_def)
  qed
  have "filter (\<lambda>x. t < f x) xs = filter (\<lambda>x. t < f x) (take k xs @ drop k xs)" by simp
  then show ?thesis using pre post by (simp only: filter_append append_Nil k_def)
qed

lemma takeWhile_filter:
  "ascending f xs \<Longrightarrow> takeWhile (\<lambda>x. \<not> t < f x) xs = filter (\<lambda>x. f x \<le> t) xs"
proof (induction xs)
  case (Cons x xs)
  then have "\<not> f x \<le> t \<Longrightarrow> filter (\<lambda>x. f x \<le> t) xs = []" by (fastforce simp: filter_empty_conv)
  with Cons show ?case by (auto simp: not_less)
qed simp

definition in_window :: "time \<Rightarrow> time \<Rightarrow> time \<Rightarrow> bool" where
  "in_window from to t = (from < t \<and> (to = 0 \<or> t \<le> to))"

lemma ascending_filter: "ascending f xs \<Longrightarrow> ascending f (filter P xs)"
  by (rule sorted_wrt_filter)

lemma filterEvents_window:
  assumes "ascending ev_At es" and "\<And>e. e \<in> set es \<Longrightarrow> 0 < ev_At e"
  shows "filterEvents es from to = filter (\<lambda>e. in_window from to (ev_At e)) es"
  using assms
  by (auto simp: filterEvents_def Let_def in_window_def drop_search_filter takeWhile_filter ascending_filter
      filter_id_conv intro!: filter_cong)

lemma window_filter:
  assumes "ascending at ss" and "\<And>s. s \<in> set ss \<Longrightarrow> 0 < at s"
  shows "window ss from to = filter (\<lambda>s. in_window from to (at s)) ss"
  using assms
  by (auto simp: window_def Let_def in_window_def drop_search_filter takeWhile_filter ascending_filter
      filter_id_conv intro!: filter_cong)

section \<open>Sampled conditions\<close>

text \<open>
  The specification of \<open>Conditions\<close>: an interval begins where a sample reports a condition that the
  sample before did not report, and ends at the last of the following samples that report it
  without a gap.
\<close>

fun run_end :: "Condition \<Rightarrow> time \<Rightarrow> sample list \<Rightarrow> time" where
  "run_end c t [] = t"
| "run_end c t (s # ss) = (if c \<in> set (conditions s) then run_end c (at s) ss else t)"

fun spec_intervals :: "Condition set \<Rightarrow> sample list \<Rightarrow> EventIntervals" where
  "spec_intervals prev [] = []"
| "spec_intervals prev (s # ss) =
     map (\<lambda>c. \<lparr>iv_Condition = c, iv_From = at s, iv_To = run_end c (at s) ss\<rparr>)
       (filter (\<lambda>c. c \<notin> prev) (conditions s))
     @ spec_intervals (set (conditions s)) ss"

text \<open>
  Without any assumption on the samples: of equal conditions in one sample, only the last is
  extended by the samples that follow.
\<close>

abbreviation new_interval :: "time \<Rightarrow> Condition \<Rightarrow> EventInterval" where
  "new_interval t c \<equiv> \<lparr>iv_Condition = c, iv_From = t, iv_To = t\<rparr>"

fun upd_last :: "(Condition \<Rightarrow> time \<Rightarrow> time) \<Rightarrow> Condition set \<Rightarrow> EventIntervals \<Rightarrow> EventIntervals" where
  "upd_last f A [] = []"
| "upd_last f A (iv # ivs) =
     (if iv_Condition iv \<in> A \<and> iv_Condition iv \<notin> iv_Condition ` set ivs
      then iv\<lparr>iv_To := f (iv_Condition iv) (iv_To iv)\<rparr> else iv) # upd_last f A ivs"

fun raw_intervals :: "Condition set \<Rightarrow> sample list \<Rightarrow> EventIntervals" where
  "raw_intervals prev [] = []"
| "raw_intervals prev (s # ss) =
     upd_last (\<lambda>c t. run_end c t ss) (set (conditions s))
       (map (new_interval (at s)) (filter (\<lambda>c. c \<notin> prev) (conditions s)))
     @ raw_intervals (set (conditions s)) ss"

fun last_pos :: "Condition \<Rightarrow> EventIntervals \<Rightarrow> nat option" where
  "last_pos c [] = None"
| "last_pos c (iv # ivs) =
     (case last_pos c ivs of
        Some i \<Rightarrow> Some (Suc i)
      | None \<Rightarrow> if iv_Condition iv = c then Some 0 else None)"

definition last_map :: "Condition set \<Rightarrow> EventIntervals \<Rightarrow> (Condition \<rightharpoonup> nat)" where
  "last_map A ivs c = (if c \<in> A then last_pos c ivs else None)"

lemma last_pos_None [simp]: "last_pos c ivs = None \<longleftrightarrow> c \<notin> iv_Condition ` set ivs"
  by (induction ivs) (auto split: option.splits)

lemma last_pos_None' [simp]: "None = last_pos c ivs \<longleftrightarrow> c \<notin> iv_Condition ` set ivs"
  by (metis last_pos_None)

lemma last_pos_append [simp]:
  "last_pos c (ivs @ [iv]) = (if iv_Condition iv = c then Some (length ivs) else last_pos c ivs)"
  by (induction ivs) (auto split: option.splits)

lemma cond_upd_last [simp]: "map iv_Condition (upd_last f A ivs) = map iv_Condition ivs"
  by (induction ivs) auto

lemma cond_set_upd_last [simp]: "iv_Condition ` set (upd_last f A ivs) = iv_Condition ` set ivs"
  by (metis cond_upd_last list.set_map)

lemma last_pos_cong: "map iv_Condition xs = map iv_Condition ys \<Longrightarrow> last_pos c xs = last_pos c ys"
proof (induction xs arbitrary: ys)
  case (Cons x xs)
  then obtain y ys' where "ys = y # ys'" "iv_Condition x = iv_Condition y"
    "map iv_Condition xs = map iv_Condition ys'" by (auto simp: Cons_eq_map_conv)
  with Cons.IH show ?case by simp
qed simp

lemma update_last_pos:
  "last_pos c ivs = Some i \<Longrightarrow> ivs[i := (ivs ! i)\<lparr>iv_To := t\<rparr>] = upd_last (\<lambda>_ _. t) {c} ivs"
proof (induction ivs arbitrary: i)
  case (Cons iv ivs)
  show ?case
  proof (cases "last_pos c ivs")
    case None
    then have "upd_last (\<lambda>_ _. t) {c} ivs = ivs" by (induction ivs) (auto split: option.splits if_splits)
    moreover from None have "last_pos c (iv # ivs) = (if iv_Condition iv = c then Some 0 else None)"
      by (simp del: last_pos_None)
    moreover from None have "c \<notin> iv_Condition ` set ivs" by simp
    ultimately show ?thesis using Cons.prems by (auto split: if_splits)
  next
    case (Some j)
    then have "c \<in> iv_Condition ` set ivs" by (metis last_pos_None option.distinct(1))
    with Some Cons show ?thesis by auto
  qed
qed simp

lemma upd_last_union:
  "upd_last (\<lambda>_ _. t) A (upd_last (\<lambda>_ _. t) B ivs) = upd_last (\<lambda>_ _. t) (A \<union> B) ivs"
  by (induction ivs) auto

lemma upd_last_append:
  "iv_Condition ` set ys \<inter> A = {} \<Longrightarrow> upd_last f A (xs @ ys) = upd_last f A xs @ ys"
proof (induction xs)
  case Nil
  then show ?case by (induction ys) auto
next
  case (Cons x xs)
  then show ?case by auto
qed

lemma last_map_cong:
  "map iv_Condition xs = map iv_Condition ys \<Longrightarrow> last_map A xs = last_map A ys"
  by (auto simp: last_map_def fun_eq_iff dest: last_pos_cong)

lemma sample_conditions_spec:
  assumes "prev \<subseteq> iv_Condition ` set ivs" and "last_m = last_map prev ivs" and "next_m = last_map P ivs"
    and "P \<subseteq> iv_Condition ` set ivs"
  shows "sample_conditions t last_m cs ivs next_m =
    (let ivs' = upd_last (\<lambda>_ _. t) (prev \<inter> set cs) ivs @ map (new_interval t) (filter (\<lambda>c. c \<notin> prev) cs)
     in (ivs', last_map (P \<union> set cs) ivs'))"
  using assms
proof (induction cs arbitrary: ivs next_m P)
  case Nil
  have "upd_last (\<lambda>_ _. t) {} ivs = ivs" by (induction ivs) auto
  with Nil show ?case by simp
next
  case (Cons c cs)
  show ?case
  proof (cases "c \<in> prev")
    case True
    with Cons.prems(1,2) obtain i where i: "last_m c = Some i" "last_pos c ivs = Some i"
      by (cases "last_pos c ivs") (auto simp: last_map_def)
    let ?u = "upd_last (\<lambda>_ _. t) {c} ivs"
    have nm: "next_m(c \<mapsto> i) = last_map (insert c P) ?u"
      using Cons.prems(3) i by (auto simp: last_map_def fun_eq_iff last_pos_cong [of ?u ivs])
    have lm: "last_m = last_map prev ?u" using Cons.prems(2) by (simp add: last_map_cong [of ?u ivs])
    have sub: "prev \<subseteq> iv_Condition ` set ?u" "insert c P \<subseteq> iv_Condition ` set ?u"
      using Cons.prems(1,4) True by auto
    note Cons.IH [OF sub(1) lm nm sub(2)]
    with i True show ?thesis by (simp add: update_last_pos upd_last_union Un_commute fun_upd_def)
  next
    case False
    let ?n = "ivs @ [new_interval t c]"
    have l: "last_m c = None" using False Cons.prems(2) by (simp add: last_map_def)
    have lm: "last_m = last_map prev ?n" using False Cons.prems(2) by (auto simp: last_map_def fun_eq_iff)
    have nm: "next_m(c \<mapsto> length ivs) = last_map (insert c P) ?n"
      using Cons.prems(3) by (auto simp: last_map_def fun_eq_iff)
    have sub: "prev \<subseteq> iv_Condition ` set ?n" "insert c P \<subseteq> iv_Condition ` set ?n"
      using Cons.prems(1,4) by auto
    note Cons.IH [OF sub(1) lm nm sub(2)]
    with l False show ?thesis by (simp add: upd_last_append Let_def fun_upd_def)
  qed
qed

lemma run_end_idle: "\<forall>s \<in> set ss. c \<notin> set (conditions s) \<Longrightarrow> run_end c t ss = t"
  by (cases ss) auto

lemma upd_last_step:
  assumes "iv_Condition ` set new = set (conditions s) - prev" and "prev \<subseteq> iv_Condition ` set ivs"
  shows "upd_last (\<lambda>c t. run_end c t ss) (set (conditions s))
      (upd_last (\<lambda>_ _. at s) (prev \<inter> set (conditions s)) ivs @ new)
    = upd_last (\<lambda>c t. run_end c t (s # ss)) prev ivs
      @ upd_last (\<lambda>c t. run_end c t ss) (set (conditions s)) new"
  using assms(1)
proof (induction ivs)
  case (Cons iv ivs)
  then show ?case by (auto simp: image_Un)
qed simp

lemma sample_intervals_raw:
  assumes "prev \<subseteq> iv_Condition ` set ivs" and "last_m = last_map prev ivs"
  shows "sample_intervals ss ivs last_m = upd_last (\<lambda>c t. run_end c t ss) prev ivs @ raw_intervals prev ss"
  using assms
proof (induction ss arbitrary: ivs last_m prev)
  case Nil
  have "upd_last (\<lambda>c t. t) prev ivs = ivs" by (induction ivs) auto
  then show ?case by simp
next
  case (Cons s ss)
  define new where "new = map (new_interval (at s)) (filter (\<lambda>c. c \<notin> prev) (conditions s))"
  define ivs' where "ivs' = upd_last (\<lambda>_ _. at s) (prev \<inter> set (conditions s)) ivs @ new"
  have new: "iv_Condition ` set new = set (conditions s) - prev" by (auto simp: new_def image_iff)
  have sub: "set (conditions s) \<subseteq> iv_Condition ` set ivs'"
    using Cons.prems(1) new by (auto simp: ivs'_def image_Un)
  have "sample_conditions (at s) last_m (conditions s) ivs Map.empty
    = (ivs', last_map (set (conditions s)) ivs')"
    using sample_conditions_spec [OF Cons.prems, of Map.empty "{}"]
    by (simp add: last_map_def fun_eq_iff ivs'_def new_def Let_def)
  then have "sample_intervals (s # ss) ivs last_m = sample_intervals ss ivs' (last_map (set (conditions s)) ivs')"
    by simp
  also have "\<dots> = upd_last (\<lambda>c t. run_end c t ss) (set (conditions s)) ivs' @ raw_intervals (set (conditions s)) ss"
    by (rule Cons.IH [OF sub refl])
  finally show ?case
    unfolding ivs'_def upd_last_step [OF new Cons.prems(1)] by (simp add: new_def)
qed

lemma filterSamples_raw: "filterSamples ss from to = raw_intervals {} (window ss from to)"
  using sample_intervals_raw [of "{}" "[]" Map.empty]
  by (auto simp: filterSamples_def Let_def last_map_def fun_eq_iff window_def)

lemma raw_spec:
  "\<forall>s \<in> set ss. distinct (conditions s) \<Longrightarrow> raw_intervals prev ss = spec_intervals prev ss"
proof (induction ss arbitrary: prev)
  case (Cons s ss)
  have "upd_last (\<lambda>c t. run_end c t ss) A (map (new_interval (at s)) cs)
     = map (\<lambda>c. \<lparr>iv_Condition = c, iv_From = at s, iv_To = run_end c (at s) ss\<rparr>) cs"
    if "distinct cs" "set cs \<subseteq> A" for A cs
    using that by (induction cs) auto
  with Cons show ?case by auto
qed simp

section \<open>Maximal runs\<close>

text \<open>Samples \<open>i\<close> to \<open>j\<close> all report \<open>c\<close>, and the samples before and after them do not.\<close>

definition maximal_run :: "sample list \<Rightarrow> Condition \<Rightarrow> nat \<Rightarrow> nat \<Rightarrow> bool" where
  "maximal_run ss c i j =
     (i \<le> j \<and> j < length ss \<and> (\<forall>k. i \<le> k \<and> k \<le> j \<longrightarrow> c \<in> set (conditions (ss ! k)))
      \<and> (i = 0 \<or> c \<notin> set (conditions (ss ! (i - 1))))
      \<and> (j + 1 = length ss \<or> c \<notin> set (conditions (ss ! (j + 1)))))"

lemma run_end_nth:
  assumes "\<forall>k < n. c \<in> set (conditions (ss ! k))" and "n \<le> length ss"
    and "n = length ss \<or> c \<notin> set (conditions (ss ! n))"
  shows "run_end c t ss = (if n = 0 then t else at (ss ! (n - 1)))"
  using assms
proof (induction ss arbitrary: n t)
  case (Cons s ss)
  show ?case
  proof (cases n)
    case (Suc n')
    with Cons.prems have "c \<in> set (conditions s)" "\<forall>k < n'. c \<in> set (conditions (ss ! k))" "n' \<le> length ss"
      "n' = length ss \<or> c \<notin> set (conditions (ss ! n'))" by (auto dest: spec [of _ "Suc _"])
    with Cons.IH [of n' "at s"] Suc show ?thesis by (simp add: nth_Cons')
  qed (use Cons.prems in auto)
qed simp

lemma run_length:
  "\<exists>n \<le> length ss. (\<forall>k < n. c \<in> set (conditions (ss ! k))) \<and> (n = length ss \<or> c \<notin> set (conditions (ss ! n)))"
proof (induction ss)
  case (Cons s ss)
  then obtain n where "n \<le> length ss" "\<forall>k < n. c \<in> set (conditions (ss ! k))"
    "n = length ss \<or> c \<notin> set (conditions (ss ! n))" by blast
  then show ?case
    by (cases "c \<in> set (conditions s)") (auto intro!: exI [of _ "if c \<in> set (conditions s) then Suc n else 0"] simp: less_Suc_eq_0_disj)
qed simp

text \<open>A position where a run starts has exactly one maximal run, and it ends at \<open>run_end\<close>.\<close>

lemma maximal_run_from:
  assumes "i < length ss" and "c \<in> set (conditions (ss ! i))"
    and "i = 0 \<or> c \<notin> set (conditions (ss ! (i - 1)))"
  shows "\<exists>j. maximal_run ss c i j \<and> run_end c (at (ss ! i)) (drop (Suc i) ss) = at (ss ! j)"
proof -
  let ?r = "drop (Suc i) ss"
  obtain n where n: "n \<le> length ?r" "\<forall>k < n. c \<in> set (conditions (?r ! k))"
    "n = length ?r \<or> c \<notin> set (conditions (?r ! n))" using run_length by blast
  have "c \<in> set (conditions (ss ! k))" if "i \<le> k" "k \<le> i + n" for k
  proof (cases "k = i")
    case False
    with that have "k - Suc i < n" "k = Suc i + (k - Suc i)" by auto
    with n(1,2) show ?thesis by (metis nth_drop less_or_eq_imp_le add_leE assms(1) Suc_leI)
  qed (use assms in simp)
  moreover have "i + n + 1 = length ss \<or> c \<notin> set (conditions (ss ! (i + n + 1)))"
    using n(1,3) assms(1) by (auto simp: algebra_simps)
  ultimately have "maximal_run ss c i (i + n)"
    using n(1) assms by (auto simp: maximal_run_def)
  moreover have "run_end c (at (ss ! i)) ?r = at (ss ! (i + n))"
    using run_end_nth [OF n(2,1,3), of "at (ss ! i)"] n(1) assms(1) by (cases n) (auto simp: nth_drop)
  ultimately show ?thesis by blast
qed

lemma maximal_run_unique: "maximal_run ss c i j \<Longrightarrow> maximal_run ss c i j' \<Longrightarrow> j = j'"
proof (rule ccontr)
  assume r: "maximal_run ss c i j" "maximal_run ss c i j'" and "j \<noteq> j'"
  then consider "j < j'" | "j' < j" by linarith
  then show False by cases (use r in \<open>auto simp: maximal_run_def\<close>)
qed

lemma ex_zero_Suc: "(\<exists>i. P i) \<longleftrightarrow> P 0 \<or> (\<exists>i. P (Suc i))" for P :: "nat \<Rightarrow> bool"
  by (metis not0_implies_Suc)

lemma spec_intervals_nth:
  "iv \<in> set (spec_intervals prev ss) \<longleftrightarrow>
    (\<exists>i c. i < length ss \<and> c \<in> set (conditions (ss ! i))
       \<and> (if i = 0 then c \<notin> prev else c \<notin> set (conditions (ss ! (i - 1))))
       \<and> iv = \<lparr>iv_Condition = c, iv_From = at (ss ! i), iv_To = run_end c (at (ss ! i)) (drop (Suc i) ss)\<rparr>)"
  (is "_ \<longleftrightarrow> (\<exists>i c. ?Q prev ss i c)")
proof (induction ss arbitrary: prev)
  case (Cons s ss)
  have "(\<exists>i c. ?Q prev (s # ss) i c) \<longleftrightarrow> (\<exists>c. ?Q prev (s # ss) 0 c) \<or> (\<exists>i c. ?Q prev (s # ss) (Suc i) c)"
    by (rule ex_zero_Suc)
  also have "(\<exists>i c. ?Q prev (s # ss) (Suc i) c) \<longleftrightarrow> (\<exists>i c. ?Q (set (conditions s)) ss i c)"
  proof (intro ex_cong1)
    fix i c
    show "?Q prev (s # ss) (Suc i) c \<longleftrightarrow> ?Q (set (conditions s)) ss i c" by (cases i) simp_all
  qed
  also have "(\<exists>c. ?Q prev (s # ss) 0 c) \<longleftrightarrow> iv \<in> set (map (\<lambda>c. \<lparr>iv_Condition = c, iv_From = at s,
      iv_To = run_end c (at s) ss\<rparr>) (filter (\<lambda>c. c \<notin> prev) (conditions s)))" by auto
  finally show ?case using Cons.IH by (simp only: spec_intervals.simps set_append Un_iff)
qed simp

lemma spec_intervals_runs:
  "iv \<in> set (spec_intervals {} ss) \<longleftrightarrow>
    (\<exists>i j. maximal_run ss (iv_Condition iv) i j \<and> iv_From iv = at (ss ! i) \<and> iv_To iv = at (ss ! j))"
proof
  assume "iv \<in> set (spec_intervals {} ss)"
  then obtain i c where ic: "i < length ss" "c \<in> set (conditions (ss ! i))"
    "i = 0 \<or> c \<notin> set (conditions (ss ! (i - 1)))"
    "iv = \<lparr>iv_Condition = c, iv_From = at (ss ! i), iv_To = run_end c (at (ss ! i)) (drop (Suc i) ss)\<rparr>"
    unfolding spec_intervals_nth by (auto split: if_splits)
  from maximal_run_from [OF ic(1-3)] ic(4)
  show "\<exists>i j. maximal_run ss (iv_Condition iv) i j \<and> iv_From iv = at (ss ! i) \<and> iv_To iv = at (ss ! j)" by auto
next
  assume "\<exists>i j. maximal_run ss (iv_Condition iv) i j \<and> iv_From iv = at (ss ! i) \<and> iv_To iv = at (ss ! j)"
  then obtain i j where r: "maximal_run ss (iv_Condition iv) i j" and t: "iv_From iv = at (ss ! i)"
    "iv_To iv = at (ss ! j)" by blast
  from r have i: "i < length ss" "iv_Condition iv \<in> set (conditions (ss ! i))"
    "i = 0 \<or> iv_Condition iv \<notin> set (conditions (ss ! (i - 1)))" by (auto simp: maximal_run_def)
  from maximal_run_from [OF this] maximal_run_unique [OF r]
  have "run_end (iv_Condition iv) (at (ss ! i)) (drop (Suc i) ss) = at (ss ! j)" by auto
  with i t show "iv \<in> set (spec_intervals {} ss)"
    unfolding spec_intervals_nth by (intro exI [of _ i] exI [of _ "iv_Condition iv"]) auto
qed

lemma spec_intervals_From:
  "ascending at ss \<Longrightarrow> ascending iv_From (spec_intervals prev ss)"
proof (induction ss arbitrary: prev)
  case (Cons s ss)
  have "at s \<le> iv_From iv" if "iv \<in> set (spec_intervals (set (conditions s)) ss)" for iv
    using that Cons.prems unfolding spec_intervals_nth by auto
  with Cons show ?case by (auto simp: sorted_wrt_append sorted_wrt_map)
qed simp

section \<open>The invariant of the monitor\<close>

definition mon_wf :: "'w Monitor \<Rightarrow> bool" where
  "mon_wf m = (ascending ev_At (events m) \<and> ascending at (samples m)
     \<and> (\<forall>e \<in> set (events m). 0 < ev_At e) \<and> (\<forall>s \<in> set (samples m). 0 < at s \<and> conditions s \<noteq> []))"

definition mon_inv :: "'w mon_sys \<Rightarrow> bool" where
  "mon_inv s = (mon_wf (mon s) \<and> 0 < now s
     \<and> (\<forall>e \<in> set (events (mon s)). ev_At e \<le> now s) \<and> (\<forall>x \<in> set (samples (mon s)). at x \<le> now s))"

inductive_cases mon_stepE: "mon_step s s'"

lemma sorted_wrt_True [simp]: "sorted_wrt (\<lambda>_ _. True) xs"
  by (induction xs) auto

lemma Record_inv: "mon_inv s \<Longrightarrow> mon_inv (s\<lparr>mon := Record (now s) cs (mon s)\<rparr>)"
  by (auto simp: mon_inv_def mon_wf_def Record_def sorted_wrt_append sorted_wrt_map)

lemma sample_store_inv: "mon_inv s \<Longrightarrow> mon_inv (s\<lparr>mon := sample_store (now s) cs (mon s), collected := k\<rparr>)"
  by (auto simp: mon_inv_def mon_wf_def sample_store_def sorted_wrt_append)

lemma other_inv:
  "mon_inv s \<Longrightarrow> now s \<le> t \<Longrightarrow> mon_inv (s\<lparr>now := t\<rparr>)"
  "mon_inv s \<Longrightarrow> mon_inv (s\<lparr>mon := AddSampler fn (mon s)\<rparr>)"
  "mon_inv s \<Longrightarrow> mon_inv (s\<lparr>collected := k\<rparr>)"
  by (auto simp: mon_inv_def mon_wf_def AddSampler_def)

lemma mon_inv_step: "mon_step s s' \<Longrightarrow> mon_inv s \<Longrightarrow> mon_inv s'"
  by (erule mon_stepE) (auto intro: Record_inv sample_store_inv other_inv)

lemma mon_inv_reach: "mon_reach s s' \<Longrightarrow> mon_inv s \<Longrightarrow> mon_inv s'"
  by (induction rule: rtranclp_induct) (auto intro: mon_inv_step)

lemma mon_inv_init: "0 < t \<Longrightarrow> mon_inv (mon_init t)"
  by (simp add: mon_inv_def mon_init_def mon_wf_def NewMonitor_def)

lemma mon_reach_wf: "mon_reach (mon_init t) s \<Longrightarrow> 0 < t \<Longrightarrow> mon_wf (mon s)"
  using mon_inv_reach [OF _ mon_inv_init] unfolding mon_inv_def by blast

abbreviation win :: "time \<Rightarrow> time \<Rightarrow> sample list \<Rightarrow> sample list" where
  "win from to ss \<equiv> filter (\<lambda>s. in_window from to (at s)) ss"

abbreviation no_repeats :: "'w Monitor \<Rightarrow> bool" where
  "no_repeats m \<equiv> list_all (\<lambda>s. distinct (conditions s)) (samples m)"

lemma mon_wf_queries:
  assumes "mon_wf m"
  shows "filterEvents (events m) from to = filter (\<lambda>e. in_window from to (ev_At e)) (events m)"
    and "window (samples m) from to = win from to (samples m)"
  using assms by (auto simp: mon_wf_def intro!: filterEvents_window window_filter)

lemma Conditions_spec:
  assumes "mon_wf m" and "no_repeats m"
  shows "filterSamples (samples m) from to = spec_intervals {} (win from to (samples m))"
  using assms by (simp add: filterSamples_raw mon_wf_queries raw_spec list_all_iff)

lemma raw_From_set:
  "iv \<in> set (raw_intervals prev ss) \<Longrightarrow> iv_From iv \<in> at ` set ss"
proof (induction ss arbitrary: prev)
  case (Cons s ss)
  have "iv_From iv = t" if "iv \<in> set (upd_last f A (map (new_interval t) cs))" for f A t cs
    using that by (induction cs) (auto split: if_splits)
  with Cons show ?case by auto
qed simp

text \<open>
  C3: In every reachable state of the monitor, however the recording and sampling goroutines
  interleave, \<open>Conditions(from, to)\<close> returns in order of their first sampling exactly the maximal
  runs of consecutive stored samples of the window that report a condition, each run once, with the
  times of its first and last sample (for samples that do not report one condition twice).
\<close>
theorem conditions_maximal_runs:
  fixes s :: "'w mon_sys"
  assumes "mon_reach (mon_init t) s" and "0 < t" and "no_repeats (mon s)"
  shows "Conditions (mon s) from to = spec_intervals {} (win from to (samples (mon s)))
    \<and> ascending iv_From (Conditions (mon s) from to)
    \<and> (\<forall>iv. iv \<in> set (Conditions (mon s) from to) \<longleftrightarrow>
        (\<exists>i j. maximal_run (win from to (samples (mon s))) (iv_Condition iv) i j
           \<and> iv_From iv = at (win from to (samples (mon s)) ! i)
           \<and> iv_To iv = at (win from to (samples (mon s)) ! j)))"
proof -
  have wf: "mon_wf (mon s)" by (rule mon_reach_wf [OF assms(1,2)])
  then have eq: "Conditions (mon s) from to = spec_intervals {} (win from to (samples (mon s)))"
    using assms(3) by (simp add: Conditions_def snapshot_def Conditions_spec)
  moreover have "ascending at (win from to (samples (mon s)))"
    using wf by (intro ascending_filter) (simp add: mon_wf_def)
  ultimately show ?thesis by (simp add: spec_intervals_runs spec_intervals_From)
qed

text \<open>
  C9: In every reachable state \<open>Events(from, to)\<close> returns, ordered by start, exactly the recorded
  events of the window, each as an instantaneous interval, together with the intervals that
  \<open>Conditions(from, to)\<close> returns.
\<close>
theorem events_exact:
  fixes s :: "'w mon_sys"
  assumes "mon_reach (mon_init t) s" and "0 < t"
  shows "ascending iv_From (Events (mon s) from to)
    \<and> mset (Events (mon s) from to) = mset (Conditions (mon s) from to)
        + mset (map event_interval (filter (\<lambda>e. in_window from to (ev_At e)) (events (mon s))))"
proof -
  have wf: "mon_wf (mon s)" by (rule mon_reach_wf [OF assms])
  then have "ascending iv_From (map event_interval (filter (\<lambda>e. in_window from to (ev_At e)) (events (mon s))))"
    by (simp add: sorted_wrt_map mon_wf_def sorted_wrt_filter)
  with wf show ?thesis
    by (auto simp: Events_def snapshot_def Conditions_def Let_def mon_wf_queries sort_intervals_From sort_intervals_facts)
qed

section \<open>The printing loop\<close>

definition mon_times :: "'w Monitor \<Rightarrow> time set" where
  "mon_times m = ev_At ` set (events m) \<union> at ` set (samples m)"

text \<open>\<open>m'\<close> is a later state of the monitor: what it has recorded since has later times.\<close>

definition later :: "'w Monitor \<Rightarrow> 'w Monitor \<Rightarrow> bool" where
  "later m m' = (\<exists>es ss. events m' = events m @ es \<and> samples m' = samples m @ ss
     \<and> (\<forall>x \<in> mon_times m. (\<forall>e \<in> set es. x < ev_At e) \<and> (\<forall>s \<in> set ss. x < at s)))"

text \<open>The instantaneous conditions that the polls print besides the events.\<close>

fun poll_conditions :: "'w Monitor list \<Rightarrow> time \<Rightarrow> EventIntervals" where
  "poll_conditions [] lst = []"
| "poll_conditions (m # ms) lst =
     filter (\<lambda>i. iv_From i = iv_To i) (Conditions m lst 0) @ poll_conditions ms (snd (print_poll m lst))"

lemma Events_mset:
  assumes "mon_wf m"
  shows "mset (Events m from to) = mset (Conditions m from to)
    + mset (map event_interval (filter (\<lambda>e. in_window from to (ev_At e)) (events m)))"
  using assms
  by (auto simp: Events_def snapshot_def Conditions_def Let_def mon_wf_queries sort_intervals_facts)

lemma Events_ascending: "mon_wf m \<Longrightarrow> ascending iv_From (Events m from to)"
  by (auto simp: Events_def snapshot_def Let_def mon_wf_queries sort_intervals_From sorted_wrt_map
      mon_wf_def sorted_wrt_filter)

lemma ascending_last: "ascending f xs \<Longrightarrow> x \<in> set xs \<Longrightarrow> f x \<le> f (last xs)"
  by (induction xs) auto

text \<open>After a poll every event is at or before the new \<open>last\<close>, which is a time of the monitor.\<close>

lemma print_poll_last:
  assumes wf: "mon_wf m" and lst: "lst = 0 \<or> lst \<in> mon_times m" and p: "print_poll m lst = (out, lst')"
  shows "(\<forall>e \<in> set (events m). ev_At e \<le> lst') \<and> (lst' = 0 \<or> lst' \<in> mon_times m)"
proof -
  let ?evs = "Events m lst 0"
  have set_evs: "set ?evs = set (Conditions m lst 0) \<union> event_interval ` {e \<in> set (events m). lst < ev_At e}"
    using arg_cong [OF Events_mset [OF wf, of lst 0], of set_mset] by (auto simp: in_window_def)
  show ?thesis
  proof (cases "?evs = []")
    case True
    then show ?thesis using p lst set_evs by (auto simp: print_poll_def)
  next
    case False
    then have l: "lst' = iv_From (last ?evs)" using p by (simp add: print_poll_def Let_def)
    have "ev_At e \<le> lst'" if "e \<in> set (events m)" for e
    proof (cases "lst < ev_At e")
      case True
      then have "event_interval e \<in> set ?evs" using that set_evs by auto
      from ascending_last [OF Events_ascending [OF wf] this] l show ?thesis by simp
    next
      case le: False
      have "lst \<le> iv_From (last ?evs)"
      proof -
        have "last ?evs \<in> set (Conditions m lst 0) \<or> last ?evs \<in> event_interval ` {e \<in> set (events m). lst < ev_At e}"
          using last_in_set [OF False] set_evs by blast
        then show ?thesis
          using raw_From_set [of "last ?evs" "{}" "win lst 0 (samples m)"] wf
          by (auto simp: Conditions_def snapshot_def filterSamples_raw mon_wf_queries in_window_def)
      qed
      with le l show ?thesis by simp
    qed
    moreover have "lst' \<in> mon_times m"
      using last_in_set [OF False] set_evs l raw_From_set [of "last ?evs" "{}" "win lst 0 (samples m)"] wf
      by (auto simp: mon_times_def Conditions_def snapshot_def filterSamples_raw mon_wf_queries)
    ultimately show ?thesis by blast
  qed
qed

lemma print_poll_out:
  assumes "mon_wf m"
  shows "mset (fst (print_poll m lst)) = mset (filter (\<lambda>i. iv_From i = iv_To i) (Conditions m lst 0))
    + mset (map event_interval (filter (\<lambda>e. lst < ev_At e) (events m)))"
proof -
  have "mset (fst (print_poll m lst)) = filter_mset (\<lambda>i. iv_From i = iv_To i) (mset (Events m lst 0))"
    by (auto simp: print_poll_def Let_def)
  moreover have "filter (\<lambda>i. iv_From i = iv_To i) (map event_interval es) = map event_interval es" for es
    by (induction es) auto
  ultimately show ?thesis
    unfolding Events_mset [OF assms] by (simp add: in_window_def flip: mset_filter del: mset_map)
qed

text \<open>\<open>m'\<close> continues \<open>m\<close>: what it has recorded since has no earlier times.\<close>

definition grows :: "'w Monitor \<Rightarrow> 'w Monitor \<Rightarrow> bool" where
  "grows m m' = (\<exists>es ss. events m' = events m @ es \<and> samples m' = samples m @ ss
     \<and> (\<forall>x \<in> mon_times m. (\<forall>e \<in> set es. x \<le> ev_At e) \<and> (\<forall>s \<in> set ss. x \<le> at s)))"

lemma mon_step_grows: "mon_step s s' \<Longrightarrow> mon_inv s \<Longrightarrow> grows (mon s) (mon s') \<and> now s \<le> now s'"
  by (erule mon_stepE)
    (auto simp: grows_def mon_times_def mon_inv_def Record_def sample_store_def AddSampler_def)

lemma grows_trans: "grows m m' \<Longrightarrow> grows m' m'' \<Longrightarrow> grows m m''"
  by (auto simp: grows_def mon_times_def)

lemma mon_reach_grows: "mon_reach s s' \<Longrightarrow> mon_inv s \<Longrightarrow> grows (mon s) (mon s')"
proof (induction rule: rtranclp_induct)
  case base
  show ?case by (auto simp: grows_def)
next
  case (step s' s'')
  then have "grows (mon s') (mon s'')" using mon_step_grows mon_inv_reach by blast
  with step grows_trans show ?case by blast
qed

text \<open>
  The events that no poll prints: they are recorded after a poll but carry the very time up to which that poll
  has printed, and the next poll asks for later times only. \<open>n\<close> events were there at the poll before.
\<close>

fun missed :: "'w Monitor list \<Rightarrow> time \<Rightarrow> nat \<Rightarrow> Event list" where
  "missed [] lst n = []"
| "missed (m # ms) lst n =
     filter (\<lambda>e. ev_At e = lst) (drop n (events m)) @ missed ms (snd (print_poll m lst)) (length (events m))"

lemma grows_last: "sorted_wrt grows (m # ms) \<Longrightarrow> grows m (last (m # ms))"
  by (cases ms) (auto simp: grows_def)

lemma mset_split_at:
  "\<forall>e \<in> set es. (l :: time) \<le> f e \<Longrightarrow> mset (filter (\<lambda>e. l < f e) es) + mset (filter (\<lambda>e. f e = l) es) = mset es"
  by (induction es) auto

lemma mset_add_pairs:
  "x + f = c + d \<Longrightarrow> p + m = q + e \<Longrightarrow> (x + p) + (f + m) = (c + q) + (d + e)" for x :: "'a multiset"
proof -
  assume eq: "x + f = c + d" "p + m = q + e"
  have "(x + p) + (f + m) = (x + f) + (p + m)" by (simp only: ac_simps)
  also have "\<dots> = (c + q) + (d + e)" unfolding eq by (simp only: ac_simps)
  finally show ?thesis .
qed

lemma print_poll_new:
  assumes "mon_wf m" and "\<forall>e \<in> set (take n (events m)). ev_At e \<le> lst" and "\<forall>e \<in> set (drop n (events m)). lst \<le> ev_At e"
  shows "mset (fst (print_poll m lst)) + mset (map event_interval (filter (\<lambda>e. ev_At e = lst) (drop n (events m))))
    = mset (filter (\<lambda>i. iv_From i = iv_To i) (Conditions m lst 0)) + mset (map event_interval (drop n (events m)))"
proof -
  have "filter (\<lambda>e. lst < ev_At e) (take n (events m)) = []" using assms(2) by (auto simp: filter_empty_conv)
  then have "filter (\<lambda>e. lst < ev_At e) (events m) = filter (\<lambda>e. lst < ev_At e) (drop n (events m))"
    by (metis append_Nil append_take_drop_id filter_append)
  then show ?thesis
    using print_poll_out [OF assms(1), of lst] mset_split_at [OF assms(3)]
    by (simp add: add.assoc) (simp flip: image_mset_union)
qed

lemma print_loop_from:
  assumes "sorted_wrt grows (m # ms)" and "\<forall>x \<in> set (m # ms). mon_wf x" and "lst = 0 \<or> lst \<in> mon_times m"
    and "n \<le> length (events m)" and "\<forall>e \<in> set (take n (events m)). ev_At e \<le> lst" and "\<forall>e \<in> set (drop n (events m)). lst \<le> ev_At e"
  shows "mset (print_loop (m # ms) lst) + mset (map event_interval (missed (m # ms) lst n))
    = mset (poll_conditions (m # ms) lst) + mset (map event_interval (drop n (events (last (m # ms)))))"
  using assms
proof (induction ms arbitrary: m lst n)
  case Nil
  then show ?case using print_poll_new [of m n lst] by (simp add: case_prod_beta)
next
  case (Cons m' ms)
  obtain out lst' where p: "print_poll m lst = (out, lst')" by fastforce
  have wf: "mon_wf m" using Cons.prems by simp
  from Cons.prems(1) obtain es smp where
    es: "events m' = events m @ es" "\<forall>x \<in> mon_times m. \<forall>e \<in> set es. x \<le> ev_At e" and smp: "samples m' = samples m @ smp"
    by (auto simp: grows_def)
  have sub: "mon_times m \<subseteq> mon_times m'" using es(1) smp by (auto simp: mon_times_def)
  from grows_last [OF Cons.prems(1)] obtain es' where all: "events (last (m' # ms)) = events m @ es'"
    by (auto simp: grows_def)
  have pos: "\<forall>e \<in> set es. 0 < ev_At e" using Cons.prems(2) es(1) by (auto simp: mon_wf_def)
  have l: "\<forall>e \<in> set (events m). ev_At e \<le> lst'" "lst' = 0 \<or> lst' \<in> mon_times m"
    using print_poll_last [OF wf Cons.prems(3) p] by auto
  have ih: "mset (print_loop (m' # ms) lst') + mset (map event_interval (missed (m' # ms) lst' (length (events m))))
    = mset (poll_conditions (m' # ms) lst') + mset (map event_interval (drop (length (events m)) (events (last (m' # ms)))))"
    using Cons.prems l es sub pos by (intro Cons.IH) (auto intro: less_imp_le)
  have "print_loop (m # m' # ms) lst = out @ print_loop (m' # ms) lst'"
    "poll_conditions (m # m' # ms) lst = filter (\<lambda>i. iv_From i = iv_To i) (Conditions m lst 0) @ poll_conditions (m' # ms) lst'"
    "missed (m # m' # ms) lst n = filter (\<lambda>e. ev_At e = lst) (drop n (events m)) @ missed (m' # ms) lst' (length (events m))"
    by (simp_all only: print_loop.simps(2) [of m] poll_conditions.simps(2) [of m] missed.simps(2) [of m] p Let_def prod.case snd_conv)
  moreover have "drop n (events (last (m # m' # ms))) = drop n (events m) @ drop (length (events m)) (events (last (m' # ms)))"
    using all Cons.prems(4) by simp
  moreover note print_poll_new [OF wf Cons.prems(5,6), unfolded p fst_conv]
  ultimately show ?case using ih mset_add_pairs by (simp only: map_append mset_append)
qed

lemma missed_later:
  assumes "sorted_wrt later (m # ms)" and "\<forall>x \<in> set (m # ms). mon_wf x" and "lst = 0 \<or> lst \<in> mon_times m"
    and "\<forall>e \<in> set (drop n (events m)). lst < ev_At e"
  shows "missed (m # ms) lst n = []"
  using assms
proof (induction ms arbitrary: m lst n)
  case Nil
  then show ?case by (auto simp: filter_empty_conv)
next
  case (Cons m' ms)
  obtain out lst' where p: "print_poll m lst = (out, lst')" by fastforce
  have l: "lst' = 0 \<or> lst' \<in> mon_times m" using print_poll_last [OF _ Cons.prems(3) p] Cons.prems(2) by auto
  from Cons.prems(1) obtain es smp where
    es: "events m' = events m @ es" "\<forall>x \<in> mon_times m. \<forall>e \<in> set es. x < ev_At e" and smp: "samples m' = samples m @ smp"
    by (auto simp: later_def)
  have sub: "mon_times m \<subseteq> mon_times m'" using es(1) smp by (auto simp: mon_times_def)
  have pos: "\<forall>e \<in> set es. 0 < ev_At e" using Cons.prems(2) es(1) by (auto simp: mon_wf_def)
  have "missed (m' # ms) lst' (length (events m)) = []"
    using Cons.prems l es sub pos by (intro Cons.IH) auto
  with Cons.prems(4) p show ?case by (auto simp: filter_empty_conv)
qed

text \<open>
  C16: The monitor command prints every recorded event once, except those that are recorded after a poll with the very time
  up to which that poll has printed, which are never printed: over all polls of states that follow each other, in any
  interleaving, the lines printed and the missed events are together the events of the last polled state and
  the conditions that a poll saw in a single sample. When what is recorded after a poll always has a later time than
  what was there at the poll, nothing is missed.
\<close>
theorem print_loop_each_once:
  fixes ss :: "'w mon_sys list"
  assumes "0 < t" and "ss \<noteq> []" and "sorted_wrt mon_reach (mon_init t # ss)"
  defines "ms \<equiv> map mon ss"
  shows "mset (print_loop ms 0) + mset (map event_interval (missed ms 0 0))
      = mset (poll_conditions ms 0) + mset (map event_interval (events (last ms)))
    \<and> (sorted_wrt later ms \<longrightarrow> missed ms 0 0 = [])"
proof -
  obtain s ss' where ss: "ss = s # ss'" using assms(2) by (cases ss) auto
  have inv: "\<forall>s \<in> set ss. mon_inv s" using assms(1,3) mon_inv_reach [OF _ mon_inv_init] by auto
  then have wf: "\<forall>m \<in> set ms. mon_wf m" by (auto simp: ms_def mon_inv_def)
  have "sorted_wrt grows ms"
    unfolding ms_def sorted_wrt_map using assms(3) inv mon_reach_grows
    by (auto intro: sorted_wrt_mono_rel [of ss mon_reach])
  moreover have "\<forall>e \<in> set (events (mon s)). 0 < ev_At e" using wf ss by (simp add: ms_def mon_wf_def)
  ultimately show ?thesis
    using print_loop_from [of "mon s" "map mon ss'" 0 0] missed_later [of "mon s" "map mon ss'" 0 0] wf
    by (auto simp: ms_def ss less_imp_le last_map)
qed

section \<open>Rounds without conditions\<close>






text \<open>In every reachable state the events are in order, so that \<open>Events\<close> never reports one that is not.\<close>

lemma Events_in_order: "mon_reach (mon_init t) s \<Longrightarrow> 0 < t \<Longrightarrow> Events_out_of_order (mon s) from to = []"
proof -
  assume "mon_reach (mon_init t) s" "0 < t"
  then have wf: "mon_wf (mon s)" by (rule mon_reach_wf)
  then have "ascending ev_At (filterEvents (events (mon s)) from to)"
    by (simp add: mon_wf_queries ascending_filter mon_wf_def)
  then show ?thesis
    by (auto simp: Events_out_of_order_def snapshot_def Let_def filter_empty_conv sorted_wrt_iff_nth_less sorted_wrt_map)
      (metis Suc_pred lessI not_less)
qed

section \<open>Runs of the monitor, for the witnesses\<close>

datatype 'w mon_act = Atick time | Arecord "Condition list" | Aadd "'w SamplerFunc" | Asample 'w time

fun mon_do :: "'w mon_act list \<Rightarrow> 'w mon_sys \<Rightarrow> 'w mon_sys" where
  "mon_do [] s = s"
| "mon_do (Atick d # as) s = mon_do as (s\<lparr>now := now s + \<bar>d\<bar>\<rparr>)"
| "mon_do (Arecord cs # as) s = mon_do as (s\<lparr>mon := Record (now s) cs (mon s)\<rparr>)"
| "mon_do (Aadd fn # as) s = mon_do as (s\<lparr>mon := AddSampler fn (mon s)\<rparr>)"
| "mon_do (Asample w t # as) s =
     mon_do as (s\<lparr>mon := sample_store (now s) (sample_collect w t (samplers (mon s))) (mon s)\<rparr>)"

lemma mon_do_reach: "mon_reach s (mon_do as s)"
proof (induction as s rule: mon_do.induct)
  case (5 w t as s)
  let ?cs = "sample_collect w t (samplers (mon s))"
  have "mon_step s (s\<lparr>collected := add_mset ?cs (collected s)\<rparr>)" by (rule mon_step.collect)
  moreover have "mon_step (s\<lparr>collected := add_mset ?cs (collected s)\<rparr>)
     (s\<lparr>mon := sample_store (now s) ?cs (mon s)\<rparr>)"
    using mon_step.store [of ?cs "s\<lparr>collected := add_mset ?cs (collected s)\<rparr>"] by simp
  ultimately show ?case using 5 by (simp add: converse_rtranclp_into_rtranclp)
next
  case (2 d as s)
  have "mon_step s (s\<lparr>now := now s + \<bar>d\<bar>\<rparr>)" by (rule mon_step.tick) simp
  with 2 show ?case by (simp add: converse_rtranclp_into_rtranclp)
qed (auto intro: converse_rtranclp_into_rtranclp mon_step.intros)

definition demo_condition :: "string \<Rightarrow> Condition" where
  "demo_condition l = \<lparr>Level = Error, Locator = l, Message = ''failed''\<rparr>"

text \<open>A condition seen in two of three samples, another in all of them, and one event.\<close>

definition demo_run :: "bool mon_sys" where
  "demo_run = mon_do [Aadd (\<lambda>b _. if b then [demo_condition ''a''] else []), Aadd (\<lambda>_ _. [demo_condition ''b'']),
     Asample True 5, Atick 2, Arecord [demo_condition ''c''], Asample False 7, Atick 2, Asample True 9] (mon_init 5)"

lemma demo_run_samples:
  "samples (mon demo_run) =
     [\<lparr>at = 5, conditions = [demo_condition ''a'', demo_condition ''b'']\<rparr>,
      \<lparr>at = 7, conditions = [demo_condition ''b'']\<rparr>,
      \<lparr>at = 9, conditions = [demo_condition ''a'', demo_condition ''b'']\<rparr>]"
  "events (mon demo_run) = [\<lparr>ev_Condition = demo_condition ''c'', ev_At = 7\<rparr>]"
  by (simp_all add: demo_run_def mon_init_def NewMonitor_def AddSampler_def sample_store_def
      sample_collect_def Record_def)

lemma demo_run_wf: "mon_wf (mon demo_run)"
  by (simp add: mon_wf_def demo_run_samples)

theorem conditions_maximal_runs_witness:
  "map iv_To (Conditions (mon demo_run) 0 0) = [5, 9, 9]
   \<and> Conditions (mon demo_run) 0 0 = spec_intervals {} (win 0 0 (samples (mon demo_run)))"
proof -
  have r: "mon_reach (mon_init 5) demo_run" unfolding demo_run_def by (rule mon_do_reach)
  have n: "no_repeats (mon demo_run)" by (simp add: demo_run_samples demo_condition_def)
  note e = conjunct1 [OF conditions_maximal_runs [OF r zero_less_numeral n, of 0 0]]
  have "map iv_To (spec_intervals {} (win 0 0 (samples (mon demo_run)))) = [5, 9, 9]"
    by (simp add: demo_run_samples in_window_def demo_condition_def)
  with e show ?thesis by (simp only:)
qed

theorem events_exact_witness:
  "ascending iv_From (Events (mon demo_run) 6 8) \<and> Events (mon demo_run) 6 8 \<noteq> []"
proof -
  have r: "mon_reach (mon_init 5) demo_run" unfolding demo_run_def by (rule mon_do_reach)
  note e = events_exact [OF r zero_less_numeral, of 6 8]
  have "mset (Events (mon demo_run) 6 8) \<noteq> {#}"
    unfolding conjunct2 [OF e] by (simp add: demo_run_samples in_window_def)
  with e show ?thesis by auto
qed

text \<open>An event is polled, then another one is recorded at the same time: only the first is printed.\<close>

theorem print_loop_each_once_witness:
  "\<exists>s s' :: bool mon_sys. sorted_wrt mon_reach [mon_init 5, s, s']
     \<and> mset (print_loop [mon s, mon s'] 0) + {#event_interval \<lparr>ev_Condition = demo_condition ''d'', ev_At = 5\<rparr>#}
       = mset (map event_interval (events (mon s')))
     \<and> event_interval \<lparr>ev_Condition = demo_condition ''d'', ev_At = 5\<rparr> \<in> event_interval ` set (events (mon s'))"
proof -
  define s :: "bool mon_sys" where "s = mon_do [Arecord [demo_condition ''c'']] (mon_init 5)"
  define s' where "s' = mon_do [Arecord [demo_condition ''d'']] s"
  have r: "sorted_wrt mon_reach (mon_init 5 # [s, s'])"
  proof -
    have "mon_reach (mon_init 5) s" "mon_reach s s'" unfolding s_def s'_def by (rule mon_do_reach)+
    then show ?thesis by auto
  qed
  have ev: "events (mon s) = [\<lparr>ev_Condition = demo_condition ''c'', ev_At = 5\<rparr>]" "samples (mon s) = []"
    "events (mon s') = [\<lparr>ev_Condition = demo_condition ''c'', ev_At = 5\<rparr>, \<lparr>ev_Condition = demo_condition ''d'', ev_At = 5\<rparr>]"
    "samples (mon s') = []"
    by (simp_all add: s_def s'_def mon_init_def NewMonitor_def Record_def)
  have "snd (print_poll (mon s) 0) = 5"
    by (simp add: print_poll_def Events_def snapshot_def filterSamples_def filterEvents_def ev)
  then have "missed [mon s, mon s'] 0 0 = [\<lparr>ev_Condition = demo_condition ''d'', ev_At = 5\<rparr>]"
    by (simp add: ev)
  moreover have "poll_conditions [mon s, mon s'] 0 = []" by (simp add: Conditions_def snapshot_def filterSamples_def ev)
  ultimately show ?thesis
    using print_loop_each_once [OF _ _ r] r by (intro exI [of _ s] exI [of _ s']) (simp add: ev)
qed


end
