(* ===== verification/Monitor_Sampler.thy ===== *)
theory Monitor_Sampler
  imports Monitor_Props
begin

text \<open>
  The probes of the API servers and the wrapper of the list-watchers: \<open>src/pkg/monitor/sampler.go\<close> and
  \<open>src/pkg/monitor/api.go\<close>. Both detect edges between success and failure; the contract
  \<open>edge_detector\<close> states what that means and is instantiated with each of them. Responses of the
  API servers are inputs of the model.
\<close>

section \<open>sampler.go\<close>

record sampler =
  available :: bool

abbreviation isAvailable :: "sampler \<Rightarrow> bool" where
  "isAvailable s \<equiv> available s"

definition setAvailable :: "bool \<Rightarrow> sampler \<Rightarrow> sampler" where
  "setAvailable b s = s\<lparr>available := b\<rparr>"

definition new_sampler :: sampler where
  "new_sampler = \<lparr>available = True\<rparr>"

text \<open>\<open>sampleFn\<close> gets the response of the server and the previous availability.\<close>

type_synonym 'r sampleFn = "'r \<Rightarrow> bool \<Rightarrow> Condition option \<times> bool"

definition sampler_round :: "'r sampleFn \<Rightarrow> sampler \<Rightarrow> 'r \<Rightarrow> sampler \<times> Condition list" where
  "sampler_round fn s r =
     (let success = isAvailable s; (condition, ok) = fn r success
      in (setAvailable ok s, case condition of None \<Rightarrow> [] | Some c \<Rightarrow> [c]))"

text \<open>
  The goroutine of \<open>StartSampling\<close>: what each \<open>select\<close> receives, a tick (with the response of the
  server and the time at which a condition is recorded) or the end of the context.
\<close>

datatype 'r sampler_select = STick time 'r | SDone

fun StartSampling :: "'r sampleFn \<Rightarrow> 'r sampler_select list \<Rightarrow> sampler \<Rightarrow> 'w Monitor \<Rightarrow> sampler \<times> 'w Monitor" where
  "StartSampling fn [] s m = (s, m)"
| "StartSampling fn (STick t r # rs) s m =
     (let (s', cs) = sampler_round fn s r in StartSampling fn rs s' (Record t cs m))"
| "StartSampling fn (SDone # rs) s m = (s, m)"

text \<open>The sampler function that reports the condition while the probe fails; \<open>get\<close> reads the probe in the world.\<close>

definition ConditionWhenFailing :: "('w \<Rightarrow> sampler) \<Rightarrow> Condition \<Rightarrow> 'w SamplerFunc" where
  "ConditionWhenFailing get condition w _ = (if isAvailable (get w) then [] else [condition])"

section \<open>api.go: probes\<close>

text \<open>An error of the client: its text and what the error predicates of the API machinery say of it.\<close>

record api_error =
  err_text :: string
  IsUnexpectedServerError :: bool
  IsNotFound :: bool

definition kube_sample :: "api_error option sampleFn" where
  "kube_sample err previous =
     ((if err = None \<and> \<not> previous then
         Some \<lparr>Level = Info, Locator = ''kube-apiserver'', Message = ''Kube API started responding to GET requests''\<rparr>
       else if err \<noteq> None \<and> previous then
         Some \<lparr>Level = Error, Locator = ''kube-apiserver'',
               Message = ''Kube API started failing: '' @ err_text (the err)\<rparr>
       else None), err = None)"

definition kube_failing :: Condition where
  "kube_failing = \<lparr>Level = Error, Locator = ''kube-apiserver'',
     Message = ''Kube API is not responding to GET requests''\<rparr>"

text \<open>The probe asks for an image stream that does not exist: not found means that the server answers.\<close>

definition openshift_err :: "api_error option \<Rightarrow> api_error option" where
  "openshift_err err =
     (case err of None \<Rightarrow> None
      | Some e \<Rightarrow> if \<not> IsUnexpectedServerError e \<and> IsNotFound e then None else Some e)"

definition openshift_sample :: "api_error option sampleFn" where
  "openshift_sample resp previous =
     (let err = openshift_err resp in
      ((if err = None \<and> \<not> previous then
          Some \<lparr>Level = Info, Locator = ''openshift-apiserver'',
                Message = ''OpenShift API started responding to GET requests''\<rparr>
        else if err \<noteq> None \<and> previous then
          Some \<lparr>Level = Info, Locator = ''openshift-apiserver'',
                Message = ''OpenShift API started failing: '' @ err_text (the err)\<rparr>
        else None), err = None))"

definition openshift_failing :: Condition where
  "openshift_failing = \<lparr>Level = Error, Locator = ''openshift-apiserver'',
     Message = ''OpenShift API is not responding to GET requests''\<rparr>"

text \<open>The samplers that \<open>startAPIMonitoring\<close> adds.\<close>

definition startAPIMonitoring :: "('w \<Rightarrow> sampler) \<Rightarrow> ('w \<Rightarrow> sampler) \<Rightarrow> 'w Monitor \<Rightarrow> 'w Monitor" where
  "startAPIMonitoring kube openshift m =
     AddSampler (ConditionWhenFailing openshift openshift_failing)
       (AddSampler (ConditionWhenFailing kube kube_failing) m)"

section \<open>api.go: the list-watcher that records errors\<close>

record errorRecordingListWatcher =
  receivedError :: bool

definition NewErrorRecordingListWatcher :: errorRecordingListWatcher where
  "NewErrorRecordingListWatcher = \<lparr>receivedError = False\<rparr>"

text \<open>\<open>handle\<close>: the new state and what it records.\<close>

definition handle :: "errorRecordingListWatcher \<Rightarrow> api_error option \<Rightarrow> errorRecordingListWatcher \<times> Condition list" where
  "handle w err =
     (case err of
        Some e \<Rightarrow>
          (w\<lparr>receivedError := True\<rparr>,
           if \<not> receivedError w
           then [\<lparr>Level = Error, Locator = ''kube-apiserver'', Message = ''failed contacting the API: '' @ err_text e\<rparr>]
           else [])
      | None \<Rightarrow> (w\<lparr>receivedError := False\<rparr>, []))"

text \<open>\<open>List\<close> and \<open>Watch\<close> hand the call to the wrapped list-watcher, handle its error and return its result.\<close>

definition lw_call ::
  "('o \<Rightarrow> 'r \<times> api_error option) \<Rightarrow> 'o \<Rightarrow> time \<Rightarrow> errorRecordingListWatcher \<Rightarrow> 'w Monitor
    \<Rightarrow> ('r \<times> api_error option) \<times> errorRecordingListWatcher \<times> 'w Monitor" where
  "lw_call inner options t w m =
     (let (obj, err) = inner options; (w', cs) = handle w err in ((obj, err), w', Record t cs m))"

section \<open>api.go: helpers\<close>

text \<open>\<open>findContainerStatus\<close> and \<open>findNodeCondition\<close>: first the given position, then the first match.\<close>

fun find_first :: "('a \<Rightarrow> string) \<Rightarrow> 'a list \<Rightarrow> string \<Rightarrow> 'a option" where
  "find_first key [] name = None"
| "find_first key (x # xs) name = (if key x = name then Some x else find_first key xs name)"

definition find_at :: "('a \<Rightarrow> string) \<Rightarrow> 'a list \<Rightarrow> string \<Rightarrow> nat \<Rightarrow> 'a option" where
  "find_at key status name position =
     (if position < length status \<and> key (status ! position) = name then Some (status ! position)
      else find_first key status name)"

text \<open>\<open>ns\<close> is \<open>None\<close> for an object that has no metadata.\<close>

definition filterToSystemNamespaces :: "string option \<Rightarrow> bool" where
  "filterToSystemNamespaces ns =
     (case ns of
        None \<Rightarrow> True
      | Some n \<Rightarrow> if n = [] then True
                 else has_prefix n ''kube-'' \<or> has_prefix n ''openshift-'' \<or> n = ''default'')"

section \<open>Edge detection\<close>

text \<open>Running a detector on a list of inputs: its state and everything it reported.\<close>

fun det_run :: "('s \<Rightarrow> 'i \<Rightarrow> 's \<times> 'o list) \<Rightarrow> 's \<Rightarrow> 'i list \<Rightarrow> 's \<times> 'o list" where
  "det_run step s [] = (s, [])"
| "det_run step s (i # is) =
     (let (s', out) = step s i; (s'', outs) = det_run step s' is in (s'', out @ outs))"

text \<open>What is reported for the edges of a list of inputs, and how many inputs begin or end a failure.\<close>

fun edges :: "('i \<Rightarrow> bool) \<Rightarrow> ('i \<Rightarrow> 'o list) \<Rightarrow> ('i \<Rightarrow> 'o list) \<Rightarrow> bool \<Rightarrow> 'i list \<Rightarrow> 'o list" where
  "edges bad started ended p [] = []"
| "edges bad started ended p (i # is) =
     (if bad i \<and> \<not> p then started i else if \<not> bad i \<and> p then ended i else []) @ edges bad started ended (bad i) is"

fun failures :: "bool \<Rightarrow> bool list \<Rightarrow> nat" where
  "failures p [] = 0"
| "failures p (b # bs) = (if b \<and> \<not> p then 1 else 0) + failures b bs"

fun recoveries :: "bool \<Rightarrow> bool list \<Rightarrow> nat" where
  "recoveries p [] = 0"
| "recoveries p (b # bs) = (if \<not> b \<and> p then 1 else 0) + recoveries b bs"

lemma failures_recoveries:
  "failures p bs + (if p then 1 else 0) = recoveries p bs + (if last (p # bs) then 1 else 0)"
proof (induction bs arbitrary: p)
  case (Cons b bs)
  from Cons.IH [of b] show ?case by auto
qed simp

text \<open>
  A detector reads inputs, is in the failing state exactly when its last input failed, and
  reports something only when that changes: \<open>started\<close> on a failure, \<open>ended\<close> on a success.
\<close>

locale edge_detector =
  fixes step :: "'s \<Rightarrow> 'i \<Rightarrow> 's \<times> 'o list"
    and bad :: "'i \<Rightarrow> bool"
    and failing :: "'s \<Rightarrow> bool"
    and started :: "'i \<Rightarrow> 'o list"
    and ended :: "'i \<Rightarrow> 'o list"
  assumes failing_step: "failing (fst (step s i)) = bad i"
    and step_out: "snd (step s i) =
      (if bad i \<and> \<not> failing s then started i else if \<not> bad i \<and> failing s then ended i else [])"
begin

lemma run_out: "snd (det_run step s is) = edges bad started ended (failing s) is"
  by (induction "is" arbitrary: s) (auto simp: step_out failing_step case_prod_beta Let_def)

lemma run_failing: "failing (fst (det_run step s is)) = last (failing s # map bad is)"
  by (induction "is" arbitrary: s) (auto simp: failing_step case_prod_beta Let_def)

lemma edges_length:
  assumes "\<And>i. length (started i) = 1" and "\<And>i. length (ended i) = k"
  shows "length (edges bad started ended p is) = failures p (map bad is) + k * recoveries p (map bad is)"
  by (induction "is" arbitrary: p) (auto simp: assms algebra_simps)

end

interpretation kube: edge_detector
  "sampler_round kube_sample" "\<lambda>r. r \<noteq> None" "\<lambda>s. \<not> available s"
  "\<lambda>r. [\<lparr>Level = Error, Locator = ''kube-apiserver'', Message = ''Kube API started failing: '' @ err_text (the r)\<rparr>]"
  "\<lambda>_. [\<lparr>Level = Info, Locator = ''kube-apiserver'', Message = ''Kube API started responding to GET requests''\<rparr>]"
  by unfold_locales (auto simp: sampler_round_def kube_sample_def setAvailable_def Let_def)

interpretation openshift: edge_detector
  "sampler_round openshift_sample" "\<lambda>r. openshift_err r \<noteq> None" "\<lambda>s. \<not> available s"
  "\<lambda>r. [\<lparr>Level = Info, Locator = ''openshift-apiserver'',
         Message = ''OpenShift API started failing: '' @ err_text (the (openshift_err r))\<rparr>]"
  "\<lambda>_. [\<lparr>Level = Info, Locator = ''openshift-apiserver'', Message = ''OpenShift API started responding to GET requests''\<rparr>]"
  by unfold_locales (auto simp: sampler_round_def openshift_sample_def setAvailable_def Let_def)

interpretation lw: edge_detector
  handle "\<lambda>r. r \<noteq> None" receivedError
  "\<lambda>r. [\<lparr>Level = Error, Locator = ''kube-apiserver'', Message = ''failed contacting the API: '' @ err_text (the r)\<rparr>]"
  "\<lambda>_. []"
  by unfold_locales (auto simp: handle_def split: option.splits)

section \<open>Correctness of the probes\<close>

fun responses :: "'r sampler_select list \<Rightarrow> 'r list" where
  "responses [] = []"
| "responses (STick t r # rs) = r # responses rs"
| "responses (SDone # rs) = []"

lemma Record_conditions:
  "map ev_Condition (events (Record t cs m)) = map ev_Condition (events m) @ cs"
  by (simp add: Record_def comp_def)

lemma StartSampling_run:
  "fst (StartSampling fn rs s m) = fst (det_run (sampler_round fn) s (responses rs))
   \<and> map ev_Condition (events (snd (StartSampling fn rs s m)))
       = map ev_Condition (events m) @ snd (det_run (sampler_round fn) s (responses rs))"
  by (induction fn rs s m rule: StartSampling.induct)
    (auto simp: case_prod_beta Let_def Record_conditions)

abbreviation kube_started :: "api_error option \<Rightarrow> Condition list" where
  "kube_started r \<equiv> [\<lparr>Level = Error, Locator = ''kube-apiserver'',
     Message = ''Kube API started failing: '' @ err_text (the r)\<rparr>]"

abbreviation kube_ended :: "api_error option \<Rightarrow> Condition list" where
  "kube_ended r \<equiv> [\<lparr>Level = Info, Locator = ''kube-apiserver'',
     Message = ''Kube API started responding to GET requests''\<rparr>]"

text \<open>
  C19: Whatever the API server answers, the probe of the Kubernetes API records an event exactly when
  an answer fails after a success (with the error) or succeeds after a failure; the failures
  recorded outnumber the recoveries by one while the API is failing and are equal otherwise; and the
  sampler reports the failing condition exactly while the last answer was a failure.
\<close>
theorem kube_probe_edges:
  fixes m :: "'w Monitor" and rs :: "api_error option sampler_select list"
  defines "p \<equiv> StartSampling kube_sample rs new_sampler m"
    and "bad \<equiv> map (\<lambda>r. r \<noteq> None) (responses rs)"
  shows "map ev_Condition (events (snd p))
      = map ev_Condition (events m) @ edges (\<lambda>r. r \<noteq> None) kube_started kube_ended False (responses rs)
    \<and> length (events (snd p)) = length (events m) + failures False bad + recoveries False bad
    \<and> failures False bad = recoveries False bad + (if last (False # bad) then 1 else 0)
    \<and> ConditionWhenFailing (\<lambda>_. fst p) kube_failing w t = (if last (False # bad) then [kube_failing] else [])"
proof -
  have s: "\<not> available new_sampler \<longleftrightarrow> False" by (simp add: new_sampler_def)
  note run = kube.run_out [of new_sampler "responses rs", unfolded s]
    kube.run_failing [of new_sampler "responses rs", unfolded s]
  note st = StartSampling_run [of kube_sample rs new_sampler m, folded p_def]
  have ev: "map ev_Condition (events (snd p))
      = map ev_Condition (events m) @ edges (\<lambda>r. r \<noteq> None) kube_started kube_ended False (responses rs)"
    using st run(1) by simp
  have "length (edges (\<lambda>r. r \<noteq> None) kube_started kube_ended False (responses rs))
    = failures False bad + 1 * recoveries False bad"
    unfolding bad_def by (rule kube.edges_length) simp_all
  with arg_cong [OF ev, of length] have "length (events (snd p)) = length (events m) + failures False bad + recoveries False bad"
    by simp
  moreover have "failures False bad = recoveries False bad + (if last (False # bad) then 1 else 0)"
    using failures_recoveries [of False bad] by simp
  moreover have "(\<not> available (fst p)) = last (False # bad)"
    using st run(2) by (simp add: bad_def)
  ultimately show ?thesis using ev by (auto simp: ConditionWhenFailing_def)
qed

text \<open>
  C20: The probe of the OpenShift API records one event per change between answering and failing,
  where \<^emph>\<open>not found\<close> counts as an answer unless the server error is unexpected, and its sampler reports the
  failing condition exactly while the last answer was a failure; a failure is recorded with the
  level of an information.
\<close>
theorem openshift_probe_edges:
  fixes m :: "'w Monitor" and rs :: "api_error option sampler_select list"
  defines "p \<equiv> StartSampling openshift_sample rs new_sampler m"
    and "bad \<equiv> map (\<lambda>r. case r of None \<Rightarrow> False | Some e \<Rightarrow> \<not> (\<not> IsUnexpectedServerError e \<and> IsNotFound e)) (responses rs)"
  shows "length (events (snd p)) = length (events m) + failures False bad + recoveries False bad
    \<and> list_all (\<lambda>e. Level (ev_Condition e) = Info) (drop (length (events m)) (events (snd p)))
    \<and> ConditionWhenFailing (\<lambda>_. fst p) openshift_failing w t
        = (if last (False # bad) then [openshift_failing] else [])"
proof -
  have s: "\<not> available new_sampler \<longleftrightarrow> False" by (simp add: new_sampler_def)
  have b: "bad = map (\<lambda>r. openshift_err r \<noteq> None) (responses rs)"
    unfolding bad_def by (rule map_cong) (auto simp: openshift_err_def split: option.splits)
  note run = openshift.run_out [of new_sampler "responses rs", unfolded s]
    openshift.run_failing [of new_sampler "responses rs", unfolded s]
  note st = StartSampling_run [of openshift_sample rs new_sampler m, folded p_def]
  let ?es = "snd (det_run (sampler_round openshift_sample) new_sampler (responses rs))"
  have ev: "map ev_Condition (events (snd p)) = map ev_Condition (events m) @ ?es" using st by simp
  have "length ?es = failures False bad + 1 * recoveries False bad"
    unfolding run(1) b by (rule openshift.edges_length) simp_all
  with arg_cong [OF ev, of length] have len: "length (events (snd p)) = length (events m) + failures False bad + recoveries False bad"
    by simp
  have "list_all (\<lambda>c. Level c = Info) (edges f (\<lambda>r. [\<lparr>Level = Info, Locator = l, Message = g r\<rparr>])
      (\<lambda>_. [\<lparr>Level = Info, Locator = l', Message = k\<rparr>]) q is)" for f l g l' k q "is"
    by (induction "is" arbitrary: q) auto
  then have "list_all (\<lambda>c. Level c = Info) ?es" unfolding run(1) .
  moreover have "map ev_Condition (drop (length (events m)) (events (snd p))) = ?es"
    using ev by (metis append_eq_conv_conj drop_map length_map)
  ultimately have "list_all (\<lambda>c. Level c = Info) (map ev_Condition (drop (length (events m)) (events (snd p))))"
    by simp
  then have "list_all (\<lambda>e. Level (ev_Condition e) = Info) (drop (length (events m)) (events (snd p)))"
    by (simp add: list.pred_map comp_def)
  moreover have "(\<not> available (fst p)) = last (False # bad)"
    using st run(2) by (simp add: b)
  ultimately show ?thesis using len by (auto simp: ConditionWhenFailing_def)
qed

text \<open>
  C21: The list-watcher records one event for every run of consecutive failed calls, however long it
  is, and its flag says whether the last call failed.
\<close>
theorem listwatcher_one_record_per_run:
  "length (snd (det_run handle NewErrorRecordingListWatcher errs))
     = failures False (map (\<lambda>r. r \<noteq> None) errs)
   \<and> receivedError (fst (det_run handle NewErrorRecordingListWatcher errs))
     = last (False # map (\<lambda>r. r \<noteq> None) errs)"
proof -
  have s: "receivedError NewErrorRecordingListWatcher \<longleftrightarrow> False"
    by (simp add: NewErrorRecordingListWatcher_def)
  show ?thesis
    unfolding lw.run_out lw.run_failing s by (subst lw.edges_length [where k = 0]) simp_all
qed

end
