(* ===== verification/Monitor_Objects.thy ===== *)
theory Monitor_Objects
  imports Monitor_Sampler
begin

text \<open>
  What the monitor records about pods, nodes, cluster operators, the cluster version and cluster
  events: \<open>src/pkg/monitor/pod.go\<close>, \<open>node.go\<close>, \<open>operator.go\<close> and \<open>event.go\<close>. The records hold the fields of the
  API objects that the program reads. Objects come from informers; \<open>None\<close> stands for an object
  that is not of the expected type, for which the handlers return at once. The handlers of the
  informers take the time of each call of \<open>Record\<close> from \<open>clock\<close>.
\<close>

section \<open>Objects\<close>

record Terminated =
  ExitCode :: int
  t_Reason :: string
  t_Message :: string

record ContainerStatus =
  cs_Name :: string
  cs_Terminated :: "Terminated option"
  RestartCount :: int
  Ready :: bool

record Pod =
  pod_Namespace :: string
  pod_Name :: string
  pod_UID :: string
  NodeName :: string
  Phase :: string
  pod_Reason :: string
  pod_Message :: string
  CreationTimestamp :: time
  DeletionTimestamp :: "time option"
  DeletionGracePeriodSeconds :: "int option"
  Annotations :: "string \<rightharpoonup> string"
  InitContainerStatuses :: "ContainerStatus list"
  ContainerStatuses :: "ContainerStatus list"

abbreviation PodPending :: string where "PodPending \<equiv> ''Pending''"
abbreviation PodUnknown :: string where "PodUnknown \<equiv> ''Unknown''"
abbreviation PodFailed :: string where "PodFailed \<equiv> ''Failed''"

record NodeCondition =
  nc_Type :: string
  nc_Status :: string

record Node =
  node_Name :: string
  node_UID :: string
  node_Conditions :: "NodeCondition list"

record StatusCondition =
  sc_Type :: string
  sc_Status :: string
  sc_Reason :: string
  sc_Message :: string

record OperandVersion =
  ov_Name :: string
  ov_Version :: string

record ClusterOperator =
  co_Name :: string
  co_UID :: string
  co_CreationTimestamp :: time
  co_Conditions :: "StatusCondition list"
  co_Versions :: "OperandVersion list"

record UpdateHistory =
  uh_State :: string
  uh_Version :: string
  uh_Image :: string

record ClusterVersion =
  cv_Name :: string
  cv_UID :: string
  cv_CreationTimestamp :: time
  cv_Conditions :: "StatusCondition list"
  History :: "UpdateHistory list"

section \<open>Locators\<close>

definition locatePod :: "Pod \<Rightarrow> string" where
  "locatePod pod = ''ns/'' @ pod_Namespace pod @ '' pod/'' @ pod_Name pod @ '' node/'' @ NodeName pod"

definition locatePodContainer :: "Pod \<Rightarrow> string \<Rightarrow> string" where
  "locatePodContainer pod containerName =
     ''ns/'' @ pod_Namespace pod @ '' pod/'' @ pod_Name pod @ '' node/'' @ NodeName pod
       @ '' container='' @ containerName"

definition locateNode :: "Node \<Rightarrow> string" where
  "locateNode node = ''node/'' @ node_Name node"

definition locateClusterOperator :: "ClusterOperator \<Rightarrow> string" where
  "locateClusterOperator co = ''clusteroperator/'' @ co_Name co"

definition locateClusterVersion :: "ClusterVersion \<Rightarrow> string" where
  "locateClusterVersion cv = ''clusterversion/'' @ cv_Name cv"

abbreviation cond :: "EventLevel \<Rightarrow> string \<Rightarrow> string \<Rightarrow> Condition" where
  "cond l loc msg \<equiv> \<lparr>Level = l, Locator = loc, Message = msg\<rparr>"

text \<open>The calls of \<open>Record\<close> of an update handler, one per change function.\<close>

fun record_changes :: "(nat \<Rightarrow> time) \<Rightarrow> nat \<Rightarrow> ('o \<Rightarrow> 'o \<Rightarrow> Condition list) list \<Rightarrow> 'o \<Rightarrow> 'o \<Rightarrow> 'w Monitor \<Rightarrow> 'w Monitor" where
  "record_changes clock k [] new old m = m"
| "record_changes clock k (fn # fns) new old m =
     record_changes clock (Suc k) fns new old (Record (clock k) (fn new old) m)"

section \<open>Pods\<close>

text \<open>
  The compaction loop of the pod list: \<open>i\<close> is the position of the item, \<open>last\<close> the number of items
  kept so far; the loop writes into the list it reads.
\<close>

function pod_list_loop :: "nat \<Rightarrow> nat \<Rightarrow> Pod list \<Rightarrow> nat \<times> Pod list" where
  "pod_list_loop i lst items =
     (if i < length items then
        let item = items ! i in
        if \<not> filterToSystemNamespaces (Some (pod_Namespace item)) then pod_list_loop (i + 1) lst items
        else if i \<noteq> lst then pod_list_loop (i + 1) (lst + 1) (items[lst := item])
        else pod_list_loop (i + 1) lst items
      else (lst, items))"
  by pat_completeness auto
termination
  by (relation "measure (\<lambda>(i, lst, items). length items - i)") auto

declare pod_list_loop.simps [simp del]

definition pod_ListFunc :: "Pod list \<times> api_error option \<Rightarrow> Pod list \<times> api_error option" where
  "pod_ListFunc resp =
     (case resp of
        (items, None) \<Rightarrow> (let (lst, items) = pod_list_loop 0 0 items in (take lst items, None))
      | (items, Some e) \<Rightarrow> (items, Some e))"

definition pod_sampler :: "('w \<Rightarrow> Pod option list) \<Rightarrow> 'w SamplerFunc" where
  "pod_sampler store w tnow =
     concat (map (\<lambda>obj. case obj of None \<Rightarrow> []
       | Some pod \<Rightarrow>
           if Phase pod = ''Pending'' \<and> time_Sub tnow (CreationTimestamp pod) > Minute
           then [cond Warning (locatePod pod) ''pod has been pending longer than a minute''] else []) (store w))"

definition terminated_msg :: "string \<Rightarrow> Terminated \<Rightarrow> string" where
  "terminated_msg what t =
     what @ '' exited with code '' @ int_str (ExitCode t) @ '' ('' @ t_Reason t @ ''): '' @ t_Message t"

definition failed_containers :: "string \<Rightarrow> Pod \<Rightarrow> ContainerStatus list \<Rightarrow> Condition list" where
  "failed_containers what pod statuses =
     concat (map (\<lambda>s. case cs_Terminated s of
         Some t \<Rightarrow> if ExitCode t \<noteq> 0
                  then [cond Error (locatePodContainer pod (cs_Name s)) (terminated_msg what t)] else []
       | None \<Rightarrow> []) statuses)"

definition pod_phase_change :: "Pod \<Rightarrow> Pod \<Rightarrow> Condition list" where
  "pod_phase_change pod oldPod =
     (let new = Phase pod; old = Phase oldPod in
      if new = old \<or> old = [] then []
      else if new = PodPending \<and> old \<noteq> PodUnknown then
        (if DeletionTimestamp pod \<noteq> None then
           [cond Warning (locatePod pod) (''invariant violation (bug): pod should not transition '' @ old @ ''->'' @ new
              @ '' even when terminated'')]
         else if (case Annotations pod ''kubernetes.io/config.mirror'' of Some v \<Rightarrow> v \<noteq> [] | None \<Rightarrow> False) then
           [cond Warning (locatePod pod) (''invariant violation (bug): static pod should not transition '' @ old @ ''->''
              @ new @ '' with same UID'')]
         else
           [cond Error (locatePod pod) (''invariant violation: pod may not transition '' @ old @ ''->'' @ new)])
      else if new = PodUnknown then
        [cond Warning (locatePod pod) ''pod moved to the Unknown phase'']
      else if new = PodFailed \<and> old \<noteq> PodFailed then
        (if pod_Reason pod = ''Evicted'' then
           [cond Error (locatePod pod) (''pod evicted: '' @ pod_Message pod)]
         else if pod_Reason pod = ''Preempting'' then
           [cond Error (locatePod pod) (''pod preempted: '' @ pod_Message pod)]
         else
           [cond Error (locatePod pod) (''pod failed ('' @ pod_Reason pod @ ''): '' @ pod_Message pod)])
        @ failed_containers ''container'' pod (InitContainerStatuses pod)
        @ failed_containers ''init container'' pod (ContainerStatuses pod)
      else [])"

definition pod_deletion_change :: "Pod \<Rightarrow> Pod \<Rightarrow> Condition list" where
  "pod_deletion_change pod oldPod =
     (case (DeletionGracePeriodSeconds pod, DeletionGracePeriodSeconds oldPod) of
        (Some n, None) \<Rightarrow> [cond Warning (locatePod pod) (''graceful deletion within '' @ int_str n @ ''s'')]
      | (None, Some _) \<Rightarrow>
          [cond Error (locatePod pod)
             ''invariant violation: pod was marked for deletion and then deletion grace period was cleared'']
      | _ \<Rightarrow> [])"

text \<open>The two loops over the container statuses; readiness is checked for the containers only.\<close>

fun container_changes ::
  "string \<Rightarrow> bool \<Rightarrow> Pod \<Rightarrow> ContainerStatus list \<Rightarrow> nat \<Rightarrow> ContainerStatus list \<Rightarrow> Condition list" where
  "container_changes what check_ready pod old i [] = []"
| "container_changes what check_ready pod old i (s # ss) =
     (case find_at cs_Name old (cs_Name s) i of
        None \<Rightarrow> []
      | Some previous \<Rightarrow>
          (case cs_Terminated s of
             Some t \<Rightarrow> if cs_Terminated previous = None \<and> ExitCode t \<noteq> 0
                      then [cond Error (locatePodContainer pod (cs_Name s)) (terminated_msg what t)] else []
           | None \<Rightarrow> [])
          @ (if RestartCount s \<noteq> RestartCount previous
             then [cond Warning (locatePodContainer pod (cs_Name s)) (what @ '' restarted'')] else [])
          @ (if check_ready \<and> cs_Terminated s = None \<and> Ready previous \<and> \<not> Ready s
             then [cond Warning (locatePodContainer pod (cs_Name s)) (what @ '' stopped being ready'')] else []))
     @ container_changes what check_ready pod old (i + 1) ss"

definition pod_container_change :: "Pod \<Rightarrow> Pod \<Rightarrow> Condition list" where
  "pod_container_change pod oldPod =
     container_changes ''container'' True pod (ContainerStatuses oldPod) 0 (ContainerStatuses pod)
     @ container_changes ''init container'' False pod (InitContainerStatuses oldPod) 0 (InitContainerStatuses pod)"

definition podChangeFns :: "(Pod \<Rightarrow> Pod \<Rightarrow> Condition list) list" where
  "podChangeFns = [pod_phase_change, pod_deletion_change, pod_container_change]"

definition pod_AddFunc :: "time \<Rightarrow> time \<Rightarrow> Pod option \<Rightarrow> 'w Monitor \<Rightarrow> 'w Monitor" where
  "pod_AddFunc startTime t obj m =
     (case obj of None \<Rightarrow> m
      | Some pod \<Rightarrow> if Before (CreationTimestamp pod) startTime then m
                   else Record t [cond Info (locatePod pod) ''created''] m)"

definition pod_DeleteFunc :: "time \<Rightarrow> Pod option \<Rightarrow> 'w Monitor \<Rightarrow> 'w Monitor" where
  "pod_DeleteFunc t obj m =
     (case obj of None \<Rightarrow> m | Some pod \<Rightarrow> Record t [cond Warning (locatePod pod) ''deleted''] m)"

definition pod_UpdateFunc :: "(nat \<Rightarrow> time) \<Rightarrow> Pod option \<Rightarrow> Pod option \<Rightarrow> 'w Monitor \<Rightarrow> 'w Monitor" where
  "pod_UpdateFunc clock old obj m =
     (case (obj, old) of
        (Some pod, Some oldPod) \<Rightarrow>
          if pod_UID pod \<noteq> pod_UID oldPod then m else record_changes clock 0 podChangeFns pod oldPod m
      | _ \<Rightarrow> m)"

section \<open>Nodes\<close>

fun node_condition_changes :: "Node \<Rightarrow> NodeCondition list \<Rightarrow> nat \<Rightarrow> NodeCondition list \<Rightarrow> Condition list" where
  "node_condition_changes node old i [] = []"
| "node_condition_changes node old i (c # cs) =
     (case find_at nc_Type old (nc_Type c) i of
        None \<Rightarrow> []
      | Some previous \<Rightarrow>
          if nc_Status c \<noteq> nc_Status previous
          then [cond Warning (locateNode node) (''condition '' @ nc_Type c @ '' changed'')] else [])
     @ node_condition_changes node old (i + 1) cs"

definition node_change :: "Node \<Rightarrow> Node \<Rightarrow> Condition list" where
  "node_change node oldNode =
     node_condition_changes node (node_Conditions oldNode) 0 (node_Conditions node)
     @ (if node_UID node \<noteq> node_UID oldNode
        then [cond Error (locateNode node) ''node was deleted and recreated''] else [])"

definition node_DeleteFunc :: "time \<Rightarrow> Node option \<Rightarrow> 'w Monitor \<Rightarrow> 'w Monitor" where
  "node_DeleteFunc t obj m =
     (case obj of None \<Rightarrow> m | Some node \<Rightarrow> Record t [cond Warning (locateNode node) ''deleted''] m)"

definition node_UpdateFunc :: "(nat \<Rightarrow> time) \<Rightarrow> Node option \<Rightarrow> Node option \<Rightarrow> 'w Monitor \<Rightarrow> 'w Monitor" where
  "node_UpdateFunc clock old obj m =
     (case (obj, old) of
        (Some node, Some oldNode) \<Rightarrow> record_changes clock 0 [node_change] node oldNode m
      | _ \<Rightarrow> m)"

definition node_sampler :: "('w \<Rightarrow> Node option list) \<Rightarrow> 'w SamplerFunc" where
  "node_sampler store w tnow =
     concat (map (\<lambda>obj. case obj of None \<Rightarrow> []
       | Some node \<Rightarrow>
           (let isReady = (case find_at nc_Type (node_Conditions node) ''Ready'' 0 of
                             Some c \<Rightarrow> nc_Status c = ''True'' | None \<Rightarrow> False)
            in if \<not> isReady then [cond Warning (locateNode node) ''node is not ready''] else [])) (store w))"

section \<open>Cluster operators and the cluster version\<close>

abbreviation findOperatorStatusCondition :: "StatusCondition list \<Rightarrow> string \<Rightarrow> StatusCondition option" where
  "findOperatorStatusCondition \<equiv> find_first sc_Type"

text \<open>The inner loop of \<open>findOperatorVersionChange\<close>: from position \<open>i\<close> on, around the old list.\<close>

fun version_scan :: "OperandVersion list \<Rightarrow> OperandVersion \<Rightarrow> nat \<Rightarrow> nat list \<Rightarrow> string list" where
  "version_scan old n i [] = []"
| "version_scan old n i (j # js) =
     (let p = (j + i) mod length old in
      if ov_Name (old ! p) \<noteq> ov_Name n then version_scan old n i js
      else if ov_Version (old ! p) = ov_Version n then []
      else [ov_Name n @ '' '' @ ov_Version (old ! p) @ '' -> '' @ ov_Version n])"

fun version_changes :: "OperandVersion list \<Rightarrow> nat \<Rightarrow> OperandVersion list \<Rightarrow> string list" where
  "version_changes old i [] = []"
| "version_changes old i (n # ns) = version_scan old n i [0..<length old] @ version_changes old (i + 1) ns"

definition findOperatorVersionChange :: "OperandVersion list \<Rightarrow> OperandVersion list \<Rightarrow> string list" where
  "findOperatorVersionChange old new = version_changes old 0 new"

text \<open>The loop over status conditions, which the source has once for operators and once for the cluster version.\<close>

definition status_condition_changes :: "string \<Rightarrow> StatusCondition list \<Rightarrow> StatusCondition list \<Rightarrow> Condition list" where
  "status_condition_changes loc old new =
     concat (map (\<lambda>s. case findOperatorStatusCondition old (sc_Type s) of
         None \<Rightarrow> []
       | Some previous \<Rightarrow>
           if sc_Status s \<noteq> sc_Status previous then
             let msg = ''changed '' @ sc_Type s @ '' to '' @ sc_Status s
                   @ (if sc_Reason s \<noteq> [] \<and> sc_Message s \<noteq> [] then '': '' @ sc_Reason s @ '': '' @ sc_Message s
                      else if sc_Message s \<noteq> [] then '': '' @ sc_Message s else []);
                 level = (if (sc_Type s = ''Degraded'' \<or> sc_Type s = ''Failing'') \<and> sc_Status s = ''True''
                          then Error else Warning)
             in [cond level loc msg]
           else []) new)"

definition co_change :: "ClusterOperator \<Rightarrow> ClusterOperator \<Rightarrow> Condition list" where
  "co_change co oldCO =
     status_condition_changes (locateClusterOperator co) (co_Conditions oldCO) (co_Conditions co)
     @ (let changes = findOperatorVersionChange (co_Versions oldCO) (co_Versions co) in
        if changes \<noteq> []
        then [cond Info (locateClusterOperator co) (''versions: '' @ str_join changes '', '')] else [])"

definition co_AddFunc :: "time \<Rightarrow> time \<Rightarrow> ClusterOperator option \<Rightarrow> 'w Monitor \<Rightarrow> 'w Monitor" where
  "co_AddFunc startTime t obj m =
     (case obj of None \<Rightarrow> m
      | Some co \<Rightarrow> if Before (co_CreationTimestamp co) startTime then m
                  else Record t [cond Info (locateClusterOperator co) ''created''] m)"

definition co_DeleteFunc :: "time \<Rightarrow> ClusterOperator option \<Rightarrow> 'w Monitor \<Rightarrow> 'w Monitor" where
  "co_DeleteFunc t obj m =
     (case obj of None \<Rightarrow> m | Some co \<Rightarrow> Record t [cond Warning (locateClusterOperator co) ''deleted''] m)"

definition co_UpdateFunc :: "(nat \<Rightarrow> time) \<Rightarrow> ClusterOperator option \<Rightarrow> ClusterOperator option \<Rightarrow> 'w Monitor \<Rightarrow> 'w Monitor" where
  "co_UpdateFunc clock old obj m =
     (case (obj, old) of
        (Some co, Some oldCO) \<Rightarrow>
          if co_UID co \<noteq> co_UID oldCO then m else record_changes clock 0 [co_change] co oldCO m
      | _ \<Rightarrow> m)"

abbreviation CompletedUpdate :: string where "CompletedUpdate \<equiv> ''Completed''"
abbreviation PartialUpdate :: string where "PartialUpdate \<equiv> ''Partial''"

definition cv_history_change :: "ClusterVersion \<Rightarrow> ClusterVersion \<Rightarrow> Condition list" where
  "cv_history_change cv oldCV =
     (case (History cv, History oldCV) of
        ([], _) \<Rightarrow> []
      | (cvNew # _, []) \<Rightarrow> [cond Warning (locateClusterVersion cv) (''cluster converging to '' @ uh_Version cvNew)]
      | (cvNew # _, cvOld # _) \<Rightarrow>
          if uh_State cvNew = CompletedUpdate \<and> uh_State cvOld \<noteq> uh_State cvNew then
            [cond Warning (locateClusterVersion cv) (''cluster reached '' @ uh_Version cvNew)]
          else if uh_State cvNew = PartialUpdate \<and> uh_State cvOld = uh_State cvNew \<and> uh_Image cvOld \<noteq> uh_Image cvNew then
            [cond Warning (locateClusterVersion cv)
               (''cluster upgrading to '' @ uh_Version cvNew @ '' without completing '' @ uh_Version cvOld)]
          else [])"

definition cv_condition_change :: "ClusterVersion \<Rightarrow> ClusterVersion \<Rightarrow> Condition list" where
  "cv_condition_change cv oldCV =
     status_condition_changes (locateClusterVersion cv) (cv_Conditions oldCV) (cv_Conditions cv)"

definition cv_AddFunc :: "time \<Rightarrow> time \<Rightarrow> ClusterVersion option \<Rightarrow> 'w Monitor \<Rightarrow> 'w Monitor" where
  "cv_AddFunc startTime t obj m =
     (case obj of None \<Rightarrow> m
      | Some cv \<Rightarrow> if Before (cv_CreationTimestamp cv) startTime then m
                  else Record t [cond Info (locateClusterVersion cv) ''created''] m)"

definition cv_DeleteFunc :: "time \<Rightarrow> ClusterVersion option \<Rightarrow> 'w Monitor \<Rightarrow> 'w Monitor" where
  "cv_DeleteFunc t obj m =
     (case obj of None \<Rightarrow> m | Some cv \<Rightarrow> Record t [cond Warning (locateClusterVersion cv) ''deleted''] m)"

definition cv_UpdateFunc :: "(nat \<Rightarrow> time) \<Rightarrow> ClusterVersion option \<Rightarrow> ClusterVersion option \<Rightarrow> 'w Monitor \<Rightarrow> 'w Monitor" where
  "cv_UpdateFunc clock old obj m =
     (case (obj, old) of
        (Some cv, Some oldCV) \<Rightarrow>
          if cv_UID cv \<noteq> cv_UID oldCV then m
          else record_changes clock 0 [cv_history_change, cv_condition_change] cv oldCV m
      | _ \<Rightarrow> m)"

definition cv_sampler :: "('w \<Rightarrow> ClusterVersion option list) \<Rightarrow> 'w SamplerFunc" where
  "cv_sampler store w tnow =
     concat (map (\<lambda>obj. case obj of None \<Rightarrow> []
       | Some cv \<Rightarrow>
           (case History cv of [] \<Rightarrow> []
            | h # _ \<Rightarrow> if uh_State h \<noteq> CompletedUpdate
                       then [cond Warning (locateClusterVersion cv) (''cluster is updating to '' @ uh_Version h)]
                       else [])) (store w))"

section \<open>Cluster events\<close>

record ClusterEvent =
  ce_Namespace :: string
  io_Namespace :: string
  io_Kind :: string
  io_Name :: string
  ce_Type :: string
  ce_Message :: string
  Count :: int

definition locateEvent :: "ClusterEvent \<Rightarrow> string" where
  "locateEvent ev =
     (if io_Namespace ev \<noteq> [] then ''ns/'' @ io_Namespace ev @ '' '' @ to_lower (io_Kind ev) @ ''/'' @ io_Name ev
      else to_lower (io_Kind ev) @ ''/'' @ io_Name ev)"

text \<open>
  The objects that a watch delivers: an event, a \<open>Status\<close> (with its message and whether it says that the
  resource version has expired), or something else, of a named type and perhaps in a namespace.
\<close>

datatype watch_object = EventObj ClusterEvent | StatusObj string bool | OtherObj string "string option"

datatype watch_type = Added | Modified | Deleted | Bookmark | WatchError

definition object_namespace :: "watch_object \<Rightarrow> string option" where
  "object_namespace ob =
     (case ob of EventObj e \<Rightarrow> Some (ce_Namespace e) | StatusObj _ _ \<Rightarrow> None | OtherObj _ ns \<Rightarrow> ns)"

definition event_condition :: "ClusterEvent \<Rightarrow> Condition" where
  "event_condition obj =
     cond (if ce_Type obj = ''Warning'' then Warning else Info) (locateEvent obj)
       (ce_Message obj @ (if Count obj > 1 then '' ('' @ int_str (Count obj) @ '' times)'' else []))"

text \<open>
  The goroutine of \<open>startEventMonitoring\<close>: in the outer loop, in the inner loop with the resource
  version of the list, reading from a watch, or returned. An input is what the API machinery answers.
\<close>

datatype ev_phase = Outer | Inner string | Reading string | Returned

datatype ev_input =
    CtxDone
  | ListErr
  | ListOk string
  | WatchErr bool
  | WatchOk
  | WatchEvent watch_type watch_object
  | ChanClosed

text \<open>Inputs that do not occur in a phase leave it unchanged; the watch filter drops objects of other namespaces.\<close>

fun ev_step :: "ev_phase \<Rightarrow> ev_input \<Rightarrow> ev_phase \<times> Condition list" where
  "ev_step Outer CtxDone = (Returned, [])"
| "ev_step Outer ListErr = (Outer, [])"
| "ev_step Outer (ListOk rv) = (Inner rv, [])"
| "ev_step (Inner rv) (WatchErr expired) = (if expired then Outer else Inner rv, [])"
| "ev_step (Inner rv) WatchOk = (Reading rv, [])"
| "ev_step (Reading rv) (WatchEvent ty ob) =
     (if \<not> filterToSystemNamespaces (object_namespace ob) then (Reading rv, [])
      else case ty of
        Added \<Rightarrow> (case ob of EventObj e \<Rightarrow> (Reading rv, [event_condition e]) | _ \<Rightarrow> (Reading rv, []))
      | Modified \<Rightarrow> (case ob of EventObj e \<Rightarrow> (Reading rv, [event_condition e]) | _ \<Rightarrow> (Reading rv, []))
      | WatchError \<Rightarrow>
          (case ob of
             StatusObj msg expired \<Rightarrow>
               if expired then (Outer, [])
               else (Inner rv, [cond Info ''kube-apiserver'' (''received an error while watching events: '' @ msg)])
           | EventObj _ \<Rightarrow>
               (Inner rv, [cond Info ''kube-apiserver''
                  (''received an error while watching events: event object was not a Status: *v1.Event'')])
           | OtherObj ty _ \<Rightarrow>
               (Inner rv, [cond Info ''kube-apiserver''
                  (''received an error while watching events: event object was not a Status: '' @ ty)]))
      | _ \<Rightarrow> (Reading rv, []))"
| "ev_step (Reading rv) ChanClosed = (Inner rv, [])"
| "ev_step p i = (p, [])"

text \<open>The recorded conditions of a run, which \<open>Record\<close> appends to the monitor.\<close>

definition ev_run :: "ev_phase \<Rightarrow> ev_input list \<Rightarrow> ev_phase \<times> Condition list" where
  "ev_run = det_run ev_step"

section \<open>Listing pods\<close>

abbreviation system_pod :: "Pod \<Rightarrow> bool" where
  "system_pod pod \<equiv> filterToSystemNamespaces (Some (pod_Namespace pod))"

lemma pod_list_loop_keeps:
  assumes "lst < i" and "i \<le> length items" and "pod_list_loop i lst items = (lst', items')"
  shows "take lst' items' = take lst items @ filter system_pod (drop i items)"
  using assms
proof (induction i lst items rule: pod_list_loop.induct)
  case (1 i lst items)
  show ?case
  proof (cases "i < length items")
    case False
    with 1(5,6) pod_list_loop.simps [of i lst items] show ?thesis by simp
  next
    case True
    have dr: "drop i items = items ! i # drop (Suc i) items" using True by (rule Cons_nth_drop_Suc [symmetric])
    show ?thesis
    proof (cases "system_pod (items ! i)")
      case False
      then have "pod_list_loop (i + 1) lst items = (lst', items')"
        using 1(6) True by (simp add: pod_list_loop.simps [of i] Let_def)
      from 1(1) [OF True refl False _ _ this] 1(4) True show ?thesis
        using False by (simp add: dr)
    next
      case sys: True
      let ?up = "items[lst := items ! i]"
      have ne: "i \<noteq> lst" using 1(4) by simp
      have "pod_list_loop (i + 1) (lst + 1) ?up = (lst', items')"
        using 1(6) True sys ne by (simp add: pod_list_loop.simps [of i] Let_def)
      from 1(2) [OF True refl _ ne _ _ this] 1(4) True sys
      have "take lst' items' = take (Suc lst) ?up @ filter system_pod (drop (Suc i) ?up)" by simp
      also have "take (Suc lst) ?up = take lst items @ [items ! i]"
        using 1(4) True by (simp add: take_Suc_conv_app_nth)
      also have "drop (Suc i) ?up = drop (Suc i) items" using 1(4) by simp
      finally show ?thesis using sys by (simp add: dr)
    qed
  qed
qed

text \<open>
  C22: A successful pod list is returned without its first pod, whatever its namespace: the compaction
  loop keeps exactly the pods of system namespaces among the others, in order.
\<close>
theorem pod_list_drops_first:
  "pod_ListFunc (items, None) = (filter system_pod (tl items), None)"
proof (cases items)
  case Nil
  then show ?thesis by (simp add: pod_ListFunc_def pod_list_loop.simps)
next
  case (Cons p ps)
  obtain lst' items' where l: "pod_list_loop 1 0 items = (lst', items')" by fastforce
  moreover have "pod_list_loop 0 0 items = pod_list_loop 1 0 items"
    by (subst pod_list_loop.simps) (simp add: Cons Let_def)
  ultimately show ?thesis
    using pod_list_loop_keeps [OF _ _ l] Cons by (simp add: pod_ListFunc_def)
qed

section \<open>Resynchronisation\<close>

lemma find_at_nth: "i < length xs \<Longrightarrow> find_at key xs (key (xs ! i)) i = Some (xs ! i)"
  by (simp add: find_at_def)

lemma container_changes_same:
  "(\<And>k. k < length ss \<Longrightarrow> i + k < length old \<and> old ! (i + k) = ss ! k) \<Longrightarrow>
    container_changes what b pod old i ss = []"
proof (induction ss arbitrary: i)
  case (Cons s ss)
  from Cons.prems [of 0] have s: "i < length old" "old ! i = s" by auto
  have "container_changes what b pod old (i + 1) ss = []"
  proof (rule Cons.IH)
    fix k assume "k < length ss"
    with Cons.prems [of "Suc k"] show "i + 1 + k < length old \<and> old ! (i + 1 + k) = ss ! k" by simp
  qed
  moreover from s have "find_at cs_Name old (cs_Name s) i = Some s" using find_at_nth by metis
  ultimately show ?case by (auto split: option.splits)
qed simp

lemma node_changes_same:
  "(\<And>k. k < length cs \<Longrightarrow> i + k < length old \<and> old ! (i + k) = cs ! k) \<Longrightarrow>
    node_condition_changes node old i cs = []"
proof (induction cs arbitrary: i)
  case (Cons c cs)
  from Cons.prems [of 0] have s: "i < length old" "old ! i = c" by auto
  have "node_condition_changes node old (i + 1) cs = []"
  proof (rule Cons.IH)
    fix k assume "k < length cs"
    with Cons.prems [of "Suc k"] show "i + 1 + k < length old \<and> old ! (i + 1 + k) = cs ! k" by simp
  qed
  moreover from s have "find_at nc_Type old (nc_Type c) i = Some c" using find_at_nth by metis
  ultimately show ?case by auto
qed simp

lemma find_first_distinct: "distinct (map key xs) \<Longrightarrow> x \<in> set xs \<Longrightarrow> find_first key xs (key x) = Some x"
  by (induction xs) (auto simp: image_iff)

lemma status_changes_same: "distinct (map sc_Type cs) \<Longrightarrow> status_condition_changes loc cs cs = []"
  by (auto simp: status_condition_changes_def find_first_distinct)

lemma version_changes_same:
  "(\<And>k. k < length ns \<Longrightarrow> i + k < length old \<and> old ! (i + k) = ns ! k) \<Longrightarrow> version_changes old i ns = []"
proof (induction ns arbitrary: i)
  case (Cons n ns)
  from Cons.prems [of 0] have n: "i < length old" "old ! i = n" by auto
  have "version_changes old (i + 1) ns = []"
  proof (rule Cons.IH)
    fix k assume "k < length ns"
    with Cons.prems [of "Suc k"] show "i + 1 + k < length old \<and> old ! (i + 1 + k) = ns ! k" by simp
  qed
  moreover have "[0..<length old] = 0 # [Suc 0..<length old]" using n(1) by (intro upt_conv_Cons) auto
  ultimately show ?case using n by simp
qed simp

lemma Record_Nil [simp]: "Record t [] m = m"
  by (simp add: Record_def)

text \<open>
  C23: A resynchronisation of an informer, which delivers an unchanged object as an update, records
  nothing, for pods, nodes, cluster operators and the cluster version (whose status conditions have
  distinct types).
\<close>
theorem resync_records_nothing:
  fixes m :: "'w Monitor"
  assumes "distinct (map sc_Type (co_Conditions co))" and "distinct (map sc_Type (cv_Conditions cv))"
  shows "pod_UpdateFunc clock (Some pod) (Some pod) m = m
    \<and> node_UpdateFunc clock (Some node) (Some node) m = m
    \<and> co_UpdateFunc clock (Some co) (Some co) m = m
    \<and> cv_UpdateFunc clock (Some cv) (Some cv) m = m"
proof -
  have "pod_phase_change pod pod = []" "pod_deletion_change pod pod = []"
    by (simp_all add: pod_phase_change_def pod_deletion_change_def split: option.splits)
  moreover have "pod_container_change pod pod = []"
    by (simp add: pod_container_change_def container_changes_same)
  moreover have "node_change node node = []"
    by (simp add: node_change_def node_changes_same)
  moreover have "co_change co co = []"
    using assms(1) by (simp add: co_change_def status_changes_same findOperatorVersionChange_def version_changes_same)
  moreover have "cv_history_change cv cv = []" "cv_condition_change cv cv = []"
    using assms(2) by (simp_all add: cv_history_change_def cv_condition_change_def status_changes_same split: list.splits)
  ultimately show ?thesis
    by (simp add: pod_UpdateFunc_def node_UpdateFunc_def co_UpdateFunc_def cv_UpdateFunc_def podChangeFns_def)
qed

definition demo_pod :: Pod where
  "demo_pod = \<lparr>pod_Namespace = ''openshift-dns'', pod_Name = ''dns'', pod_UID = ''u'', NodeName = ''n'',
     Phase = ''Running'', pod_Reason = [], pod_Message = [], CreationTimestamp = 1, DeletionTimestamp = None,
     DeletionGracePeriodSeconds = None, Annotations = Map.empty, InitContainerStatuses = [], ContainerStatuses = []\<rparr>"

definition demo_co :: ClusterOperator where
  "demo_co = \<lparr>co_Name = ''dns'', co_UID = ''u'', co_CreationTimestamp = 1,
     co_Conditions = [\<lparr>sc_Type = ''Degraded'', sc_Status = ''True'', sc_Reason = [], sc_Message = []\<rparr>],
     co_Versions = [\<lparr>ov_Name = ''operator'', ov_Version = ''4.2''\<rparr>]\<rparr>"

definition demo_cv :: ClusterVersion where
  "demo_cv = \<lparr>cv_Name = ''version'', cv_UID = ''u'', cv_CreationTimestamp = 1, cv_Conditions = [],
     History = [\<lparr>uh_State = PartialUpdate, uh_Version = ''4.2'', uh_Image = ''i''\<rparr>]\<rparr>"

definition demo_node :: Node where
  "demo_node = \<lparr>node_Name = ''n'', node_UID = ''u'', node_Conditions = [\<lparr>nc_Type = ''Ready'', nc_Status = ''True''\<rparr>]\<rparr>"

theorem resync_records_nothing_witness:
  "pod_UpdateFunc (\<lambda>_. 1) (Some demo_pod) (Some demo_pod) (NewMonitor :: unit Monitor) = NewMonitor
   \<and> co_UpdateFunc (\<lambda>_. 1) (Some demo_co) (Some demo_co) (NewMonitor :: unit Monitor) = NewMonitor"
  using resync_records_nothing [of demo_co demo_cv "\<lambda>_. 1" demo_pod "NewMonitor :: unit Monitor" demo_node]
  by (simp add: demo_co_def demo_cv_def)

section \<open>Phases of a pod\<close>

text \<open>The states of a pod, delivered to the update handler one after the other.\<close>

fun deliver_pods :: "(nat \<Rightarrow> nat \<Rightarrow> time) \<Rightarrow> nat \<Rightarrow> Pod list \<Rightarrow> 'w Monitor \<Rightarrow> 'w Monitor" where
  "deliver_pods clock k (p # q # ps) m = deliver_pods clock (k + 1) (q # ps) (pod_UpdateFunc (clock k) (Some p) (Some q) m)"
| "deliver_pods clock k _ m = m"

abbreviation is_violation :: "Condition \<Rightarrow> bool" where
  "is_violation c \<equiv> has_prefix (Message c) ''invariant violation''"

abbreviation level_at :: "Condition \<Rightarrow> EventLevel \<times> string" where
  "level_at c \<equiv> (Level c, Locator c)"

text \<open>The violations that one change of a pod shows.\<close>

definition pod_violations :: "Pod \<Rightarrow> Pod \<Rightarrow> (EventLevel \<times> string) list" where
  "pod_violations old new =
     (if pod_UID new \<noteq> pod_UID old then [] else
      (if Phase new = PodPending \<and> Phase old \<notin> {[], PodPending, PodUnknown}
       then [(if DeletionTimestamp new \<noteq> None \<or> Annotations new ''kubernetes.io/config.mirror'' \<notin> {None, Some []} then Warning else Error,
              locatePod new)] else [])
      @ (if DeletionGracePeriodSeconds old \<noteq> None \<and> DeletionGracePeriodSeconds new = None then [(Error, locatePod new)] else []))"

lemma failed_containers_violation: "w \<in> {''container'', ''init container''} \<Longrightarrow> filter is_violation (failed_containers w pod ss) = []"
  by (induction ss) (auto simp: failed_containers_def terminated_msg_def split: option.splits)

lemma container_changes_violation: "w \<in> {''container'', ''init container''} \<Longrightarrow> filter is_violation (container_changes w r pod old i ss) = []"
  by (induction ss arbitrary: i) (auto simp: terminated_msg_def split: option.splits)

lemma pod_change_violations:
  assumes "pod_UID new = pod_UID old"
  shows "map level_at (filter is_violation (concat (map (\<lambda>fn. fn new old) podChangeFns))) = pod_violations old new"
proof -
  have "map level_at (filter is_violation (pod_phase_change new old))
      = (if Phase new = PodPending \<and> Phase old \<notin> {[], PodPending, PodUnknown}
         then [(if DeletionTimestamp new \<noteq> None \<or> Annotations new ''kubernetes.io/config.mirror'' \<notin> {None, Some []} then Warning else Error,
                locatePod new)] else [])"
    by (auto simp: pod_phase_change_def Let_def failed_containers_violation split: option.split)
  moreover have "map level_at (filter is_violation (pod_deletion_change new old))
      = (if DeletionGracePeriodSeconds old \<noteq> None \<and> DeletionGracePeriodSeconds new = None then [(Error, locatePod new)] else [])"
    by (auto simp: pod_deletion_change_def split: option.split)
  moreover have "filter is_violation (pod_container_change new old) = []"
    by (simp add: pod_container_change_def container_changes_violation)
  ultimately show ?thesis
    using assms by (simp only: podChangeFns_def list.map concat.simps filter_append map_append append_Nil2 pod_violations_def
        if_True if_False simp_thms)
qed

lemma record_changes_conditions:
  "map ev_Condition (events (record_changes clock k fns new old m))
    = map ev_Condition (events m) @ concat (map (\<lambda>fn. fn new old) fns)"
  by (induction fns arbitrary: k m) (auto simp: Record_def comp_def)

text \<open>
  C25: Over any history of the states of a pod, the events that speak of an invariant violation are exactly these, in order:
  one whenever a pod with the same UID moves to Pending from a phase that is neither empty, Pending nor Unknown,
  an error unless the pod is being deleted or is a static pod, for which it is a warning; and an error whenever the
  grace period of a deletion disappears. Each names the pod; nothing else that the pod handlers record says so.
\<close>
theorem pod_invariant_violation:
  fixes m :: "'w Monitor"
  shows "map level_at (filter is_violation (map ev_Condition (events (deliver_pods clock k pods m))))
    = map level_at (filter is_violation (map ev_Condition (events m))) @ concat (map2 pod_violations pods (tl pods))"
proof (induction clock k pods m rule: deliver_pods.induct)
  case (1 clock k p q ps m)
  have "map level_at (filter is_violation (map ev_Condition (events (pod_UpdateFunc (clock k) (Some p) (Some q) m))))
      = map level_at (filter is_violation (map ev_Condition (events m))) @ pod_violations p q"
  proof (cases "pod_UID q = pod_UID p")
    case True
    then show ?thesis
      by (simp only: pod_UpdateFunc_def option.case prod.case simp_thms if_False record_changes_conditions filter_append map_append
          pod_change_violations [OF True])
  next
    case False
    then show ?thesis by (simp add: pod_UpdateFunc_def pod_violations_def)
  qed
  with 1 show ?case by simp
qed simp_all

lemma pod_history_violations:
  "map level_at (filter is_violation (map ev_Condition (events (deliver_pods clock 0
     [demo_pod, demo_pod\<lparr>Phase := ''Pending''\<rparr>, demo_pod\<lparr>Phase := ''Running'', DeletionGracePeriodSeconds := Some 30\<rparr>, demo_pod] NewMonitor))))
   = [(Error, locatePod demo_pod), (Error, locatePod demo_pod)]"
  by (simp add: deliver_pods.simps pod_UpdateFunc_def demo_pod_def podChangeFns_def pod_phase_change_def pod_deletion_change_def
      pod_container_change_def Record_def NewMonitor_def locatePod_def)

text \<open>
  For a pod that fails, an init container that exited with an error is reported as a container and
  a container as an init container; when the same exit is seen as a change of the container status,
  the report has the right name.
\<close>
theorem failed_pod_container_names:
  fixes pod :: Pod and s :: ContainerStatus and t :: Terminated
  defines "failed \<equiv> pod\<lparr>Phase := PodFailed, InitContainerStatuses := [s\<lparr>cs_Terminated := Some t\<rparr>], ContainerStatuses := []\<rparr>"
    and "before \<equiv> pod\<lparr>Phase := ''Running'', InitContainerStatuses := [s\<lparr>cs_Terminated := None\<rparr>], ContainerStatuses := []\<rparr>"
  assumes "ExitCode t \<noteq> 0"
  shows "Message (last (pod_phase_change failed before)) = terminated_msg ''container'' t
    \<and> Message (hd (pod_container_change failed before)) = terminated_msg ''init container'' t"
  using assms(3)
  by (simp add: failed_def before_def pod_phase_change_def failed_containers_def pod_container_change_def find_at_def Let_def)

theorem failed_pod_container_names_witness:
  "Message (last (pod_phase_change
      (demo_pod\<lparr>Phase := PodFailed,
         InitContainerStatuses := [\<lparr>cs_Name = ''c'', cs_Terminated = Some \<lparr>ExitCode = 1, t_Reason = ''Error'',
           t_Message = []\<rparr>, RestartCount = 0, Ready = False\<rparr>], ContainerStatuses := []\<rparr>)
      (demo_pod\<lparr>Phase := ''Running'',
         InitContainerStatuses := [\<lparr>cs_Name = ''c'', cs_Terminated = None, RestartCount = 0, Ready = False\<rparr>],
         ContainerStatuses := []\<rparr>)))
   = ''container exited with code 1 (Error): ''"
proof -
  have "terminated_msg ''container'' \<lparr>ExitCode = 1, t_Reason = ''Error'', t_Message = []\<rparr>
    = ''container exited with code 1 (Error): ''" by code_simp
  with failed_pod_container_names [of "\<lparr>ExitCode = 1, t_Reason = ''Error'', t_Message = []\<rparr>"
      "\<lparr>cs_Name = ''c'', cs_Terminated = None, RestartCount = 0, Ready = False\<rparr>" demo_pod]
  show ?thesis by simp
qed

section \<open>Versions of an operator\<close>

text \<open>The specification: every new version whose name had another version before.\<close>

definition version_change :: "OperandVersion list \<Rightarrow> OperandVersion \<Rightarrow> string list" where
  "version_change old n =
     (case find_first ov_Name old (ov_Name n) of
        None \<Rightarrow> []
      | Some q \<Rightarrow> if ov_Version q = ov_Version n then []
                 else [ov_Name n @ '' '' @ ov_Version q @ '' -> '' @ ov_Version n])"

lemma find_first_None: "find_first key xs k = None \<longleftrightarrow> k \<notin> key ` set xs"
  by (induction xs) auto

lemma version_scan_match:
  assumes "distinct (map ov_Name old)" and "old \<noteq> []"
    and "\<exists>j \<in> set js. ov_Name (old ! ((j + i) mod length old)) = ov_Name n"
  shows "version_scan old n i js = version_change old n"
  using assms(3)
proof (induction js)
  case (Cons j js)
  let ?q = "old ! ((j + i) mod length old)"
  show ?case
  proof (cases "ov_Name ?q = ov_Name n")
    case True
    have "?q \<in> set old" using assms(2) by simp
    from find_first_distinct [OF assms(1) this] True
    show ?thesis by (simp add: version_change_def Let_def)
  next
    case False
    with Cons show ?thesis by (simp add: Let_def)
  qed
qed simp

lemma version_scan_no_match:
  "\<forall>j \<in> set js. ov_Name (old ! ((j + i) mod length old)) \<noteq> ov_Name n \<Longrightarrow> version_scan old n i js = []"
  by (induction js) (auto simp: Let_def)

lemma rotation: "k < l \<Longrightarrow> \<exists>j < l. (j + i) mod l = (k :: nat)"
proof -
  assume k: "k < l"
  define r where "r = i mod l"
  have r: "r < l" using k by (simp add: r_def)
  have "((k + (l - r)) mod l + i) mod l = (k + (l - r) + r) mod l"
    by (simp only: r_def mod_add_left_eq mod_add_right_eq)
  also have "k + (l - r) + r = k + l" using r by simp
  finally have "((k + (l - r)) mod l + i) mod l = k" using k by simp
  then show ?thesis using k by (intro exI [of _ "(k + (l - r)) mod l"]) auto
qed

lemma version_scan_spec:
  assumes "distinct (map ov_Name old)"
  shows "version_scan old n i [0..<length old] = version_change old n"
proof (cases "ov_Name n \<in> ov_Name ` set old")
  case True
  then obtain k where k: "k < length old" "ov_Name (old ! k) = ov_Name n" by (auto simp: in_set_conv_nth)
  then obtain j where "j < length old" "(j + i) mod length old = k" using rotation by blast
  with k have "\<exists>j \<in> set [0..<length old]. ov_Name (old ! ((j + i) mod length old)) = ov_Name n" by auto
  moreover have "old \<noteq> []" using k by auto
  ultimately show ?thesis by (intro version_scan_match [OF assms])
next
  case False
  then have "version_change old n = []" by (simp add: version_change_def find_first_None [THEN iffD2])
  moreover have "\<forall>j \<in> set [0..<length old]. ov_Name (old ! ((j + i) mod length old)) \<noteq> ov_Name n"
    using False by (auto simp: image_iff) (metis mod_less_divisor nth_mem length_pos_if_in_set nth_mem)
  ultimately show ?thesis by (simp add: version_scan_no_match)
qed

text \<open>
  C24: The search for changed operator versions, which starts at the position of the new version and
  goes around the old list, finds exactly the versions whose name had another version before, each
  once and in the order of the new list (operands have distinct names).
\<close>
theorem version_changes_exact:
  assumes "distinct (map ov_Name old)"
  shows "findOperatorVersionChange old new = concat (map (version_change old) new)"
proof -
  have "version_changes old i new = concat (map (version_change old) new)" for i
    by (induction new arbitrary: i) (auto simp: version_scan_spec [OF assms])
  then show ?thesis by (simp add: findOperatorVersionChange_def)
qed

theorem version_changes_exact_witness:
  "findOperatorVersionChange
     [\<lparr>ov_Name = ''a'', ov_Version = ''1''\<rparr>, \<lparr>ov_Name = ''b'', ov_Version = ''1''\<rparr>]
     [\<lparr>ov_Name = ''b'', ov_Version = ''2''\<rparr>, \<lparr>ov_Name = ''c'', ov_Version = ''1''\<rparr>, \<lparr>ov_Name = ''a'', ov_Version = ''1''\<rparr>]
   = [''b 1 -> 2'']"
  using version_changes_exact
    [of "[\<lparr>ov_Name = ''a'', ov_Version = ''1''\<rparr>, \<lparr>ov_Name = ''b'', ov_Version = ''1''\<rparr>]"
      "[\<lparr>ov_Name = ''b'', ov_Version = ''2''\<rparr>, \<lparr>ov_Name = ''c'', ov_Version = ''1''\<rparr>, \<lparr>ov_Name = ''a'', ov_Version = ''1''\<rparr>]"]
  by (simp add: version_change_def)

section \<open>Watching events\<close>

abbreviation in_watch :: "string \<Rightarrow> ev_phase \<Rightarrow> bool" where
  "in_watch rv p \<equiv> p = Inner rv \<or> p = Reading rv"

lemma ev_step_version: "in_watch rv p \<Longrightarrow> in_watch rv' (fst (ev_step p i)) \<Longrightarrow> rv' = rv"
  by (cases "(p, i)" rule: ev_step.cases)
    (auto split: if_splits watch_type.splits watch_object.splits)

lemma ev_step_leaves: "in_watch rv p \<Longrightarrow> \<not> in_watch rv (fst (ev_step p i)) \<Longrightarrow> fst (ev_step p i) = Outer"
  by (cases "(p, i)" rule: ev_step.cases)
    (auto split: if_splits watch_type.splits watch_object.splits)

lemma ev_run_append:
  "ev_run p (xs @ ys) = (let (q, a) = ev_run p xs; (r, b) = ev_run q ys in (r, a @ b))"
  unfolding ev_run_def by (induction xs arbitrary: p) (auto simp: case_prod_beta Let_def)

lemma ev_run_Cons: "ev_run p (i # is) = (let (q, a) = ev_step p i; (r, b) = ev_run q is in (r, a @ b))"
  by (simp add: ev_run_def)

lemma ev_run_Nil: "ev_run p [] = (p, [])"
  by (simp add: ev_run_def)

definition deliver :: "ClusterEvent list \<Rightarrow> ev_input list" where
  "deliver es = map (\<lambda>e. WatchEvent Added (EventObj e)) es"

lemma ev_run_deliver:
  "list_all (\<lambda>e. filterToSystemNamespaces (Some (ce_Namespace e))) es \<Longrightarrow>
    ev_run (Reading rv) (deliver es) = (Reading rv, map event_condition es)"
  by (induction es) (auto simp: deliver_def ev_run_Cons ev_run_Nil object_namespace_def)

text \<open>
  C27: As long as no new list is made, every watch of the cluster events starts from the resource version
  of the list (a phase that is still watching has the same version), so when a watch ends and the
  server delivers the events since that version again, all of them are recorded once more.
\<close>
theorem events_recorded_again:
  assumes "list_all (\<lambda>e. filterToSystemNamespaces (Some (ce_Namespace e))) es"
  shows "(\<forall>i rv'. in_watch rv' (fst (ev_step (Inner rv) i)) \<or> in_watch rv' (fst (ev_step (Reading rv) i)) \<longrightarrow> rv' = rv)
    \<and> ev_run (Inner rv) ([WatchOk] @ deliver es @ [ChanClosed, WatchOk] @ deliver es)
      = (Reading rv, map event_condition es @ map event_condition es)"
  using ev_step_version [of "Inner rv" rv] ev_step_version [of "Reading rv" rv]
  by (auto simp: ev_run_Cons ev_run_append ev_run_deliver [OF assms] ev_run_Nil)

theorem events_recorded_again_witness:
  "length (snd (ev_run (Inner ''7'') ([WatchOk]
     @ deliver [\<lparr>ce_Namespace = ''default'', io_Namespace = [], io_Kind = ''Node'', io_Name = ''n'',
         ce_Type = ''Normal'', ce_Message = ''ready'', Count = 1\<rparr>] @ [ChanClosed, WatchOk]
     @ deliver [\<lparr>ce_Namespace = ''default'', io_Namespace = [], io_Kind = ''Node'', io_Name = ''n'',
         ce_Type = ''Normal'', ce_Message = ''ready'', Count = 1\<rparr>]))) = 2"
  using events_recorded_again [of "[\<lparr>ce_Namespace = ''default'', io_Namespace = [], io_Kind = ''Node'', io_Name = ''n'',
         ce_Type = ''Normal'', ce_Message = ''ready'', Count = 1\<rparr>]" "''7''"]
  by (simp add: filterToSystemNamespaces_def)

section \<open>The whole monitor\<close>

record world =
  w_kube :: sampler
  w_openshift :: sampler
  w_pods :: "Pod option list"
  w_nodes :: "Node option list"
  w_versions :: "ClusterVersion option list"

text \<open>
  \<open>Start\<close>: the arguments are the errors of loading the configuration, of creating the two clients and
  of creating the polling clients. The event handlers that it registers are the functions above.
\<close>

definition Start :: "go_error option \<Rightarrow> go_error option \<Rightarrow> go_error option \<Rightarrow> go_error option \<Rightarrow> world Monitor go_result" where
  "Start cfgErr clientErr configErr apiErr =
     (let m = NewMonitor in
      case cfgErr of
        Some e \<Rightarrow> Inl (''could not load client configuration: '' @ e)
      | None \<Rightarrow>
          (case clientErr of Some e \<Rightarrow> Inl e | None \<Rightarrow>
            (case configErr of Some e \<Rightarrow> Inl e | None \<Rightarrow>
              (case apiErr of Some e \<Rightarrow> Inl e | None \<Rightarrow>
                 let m = startAPIMonitoring w_kube w_openshift m;
                     m = AddSampler (pod_sampler w_pods) m;
                     m = AddSampler (node_sampler w_nodes) m;
                     m = AddSampler (cv_sampler w_versions) m
                 in Inr m))))"

text \<open>A cluster in which the monitor has nothing to report.\<close>

definition healthy :: "world \<Rightarrow> time \<Rightarrow> bool" where
  "healthy w t =
     (available (w_kube w) \<and> available (w_openshift w)
      \<and> (\<forall>pod. Some pod \<in> set (w_pods w) \<longrightarrow> \<not> (Phase pod = PodPending \<and> t - CreationTimestamp pod > Minute))
      \<and> (\<forall>node. Some node \<in> set (w_nodes w) \<longrightarrow>
           (\<exists>c. find_at nc_Type (node_Conditions node) ''Ready'' 0 = Some c \<and> nc_Status c = ''True''))
      \<and> (\<forall>cv. Some cv \<in> set (w_versions w) \<longrightarrow> History cv = [] \<or> uh_State (hd (History cv)) = CompletedUpdate))"

lemma Minute_range: "minDuration \<le> Minute" "Minute < maxDuration"
  by (simp_all add: Minute_def Second_def minDuration_def maxDuration_def)

lemma time_Sub_Minute: "time_Sub t u > Minute \<longleftrightarrow> t - u > Minute"
  using Minute_range by (auto simp: time_Sub_def min_def max_def)

text \<open>
  C18: The monitor that \<open>Start\<close> returns stores a sample exactly when the cluster is not healthy: an API
  server does not answer, a pod has been pending for more than a minute, a node is not ready, or an
  update has not completed.
\<close>
theorem sample_stored_iff_unhealthy:
  assumes "Start None None None None = Inr m"
  shows "samples (Monitor_sample w t u m) = samples m \<longleftrightarrow> healthy w t"
proof -
  have pods: "pod_sampler w_pods w t = [] \<longleftrightarrow>
      (\<forall>pod. Some pod \<in> set (w_pods w) \<longrightarrow> \<not> (Phase pod = PodPending \<and> t - CreationTimestamp pod > Minute))"
    by (fastforce simp: pod_sampler_def time_Sub_Minute split: option.splits if_splits)
  have nodes: "node_sampler w_nodes w t = [] \<longleftrightarrow> (\<forall>node. Some node \<in> set (w_nodes w) \<longrightarrow>
      (\<exists>c. find_at nc_Type (node_Conditions node) ''Ready'' 0 = Some c \<and> nc_Status c = ''True''))"
    by (fastforce simp: node_sampler_def Let_def split: option.splits if_splits)
  have cvs: "cv_sampler w_versions w t = [] \<longleftrightarrow>
      (\<forall>cv. Some cv \<in> set (w_versions w) \<longrightarrow> History cv = [] \<or> uh_State (hd (History cv)) = CompletedUpdate)"
    by (auto simp: cv_sampler_def neq_Nil_conv split: option.split list.split) (metis list.collapse)
  from assms have "samplers m = [ConditionWhenFailing w_kube kube_failing,
      ConditionWhenFailing w_openshift openshift_failing, pod_sampler w_pods, node_sampler w_nodes, cv_sampler w_versions]"
    by (auto simp: Start_def Let_def startAPIMonitoring_def AddSampler_def NewMonitor_def)
  then have "sample_collect w t (samplers m) = [] \<longleftrightarrow> healthy w t"
    by (simp add: sample_collect_def ConditionWhenFailing_def pods nodes cvs healthy_def)
  then show ?thesis by (auto simp: Monitor_sample_def sample_store_def)
qed

theorem sample_stored_iff_unhealthy_witness:
  "samples (Monitor_sample \<lparr>w_kube = new_sampler, w_openshift = new_sampler, w_pods = [Some demo_pod],
      w_nodes = [Some demo_node], w_versions = [Some demo_cv]\<rparr> 100 101
      (projr (Start None None None None))) \<noteq> samples (projr (Start None None None None))"
proof -
  have "Start None None None None = Inr (projr (Start None None None None))"
    by (simp add: Start_def Let_def)
  from sample_stored_iff_unhealthy [OF this] show ?thesis
    by (simp add: healthy_def demo_cv_def)
qed

end
