(* ===== verification/Run_Test.thy ===== *)
theory Run_Test
  imports Test_Case
begin

text \<open>
  The child process that runs one test: \<open>src/pkg/test/ginkgo/cmd_runtest.go\<close>, the reporter of
  \<open>src/pkg/test/ginkgo/ginkgo.go\<close> and the exit code that \<open>main\<close> in
  \<open>src/cmd/extended-platform-tests/openshift-tests.go\<close> makes of the error. The test framework is a
  parameter: given the focus expression it yields the calls that it makes to the reporter.
\<close>

section \<open>Summaries\<close>

datatype SpecState =
  SpecStateInvalid | SpecStatePending | SpecStateSkipped | SpecStatePassed | SpecStateFailed
| SpecStatePanicked | SpecStateTimedOut

record SpecFailure =
  sf_Message :: string
  sf_Location :: CodeLocation
  ForwardedPanic :: string

record SpecSummary =
  ComponentTexts :: "string list"
  sp_ComponentCodeLocations :: "CodeLocation list"
  sp_State :: SpecState
  sp_Failure :: SpecFailure

record SetupSummary =
  su_State :: SpecState
  su_Failure :: SpecFailure

section \<open>The reporter\<close>

record MinimalReporter =
  mr_name :: string
  mr_location :: CodeLocation
  mr_spec :: "SpecSummary option"
  mr_setup :: "SetupSummary option"

definition NewMinimalReporter :: "string \<Rightarrow> CodeLocation \<Rightarrow> MinimalReporter" where
  "NewMinimalReporter name location =
     \<lparr>mr_name = name, mr_location = location, mr_spec = None, mr_setup = None\<rparr>"

text \<open>\<open>ComponentTexts[1:]\<close> panics when there is no component.\<close>

definition specName :: "SpecSummary \<Rightarrow> string outcome" where
  "specName spec =
     (case ComponentTexts spec of [] \<Rightarrow> Panic ''slice bounds out of range'' | _ # ts \<Rightarrow> Ok (str_join ts '' ''))"

definition SpecDidComplete :: "SpecSummary \<Rightarrow> MinimalReporter \<Rightarrow> MinimalReporter outcome" where
  "SpecDidComplete spec r =
     (case sp_ComponentCodeLocations spec of
        [] \<Rightarrow> Panic ''index out of range''
      | locs \<Rightarrow>
          if last locs \<noteq> mr_location r then Ok r
          else case specName spec of
            Ok n \<Rightarrow>
              if n \<noteq> mr_name r then Ok r
              else (case mr_spec r of
                      Some old \<Rightarrow> Panic (''spec was set twice: '' @ strconv_Quote (case specName old of Ok m \<Rightarrow> m | _ \<Rightarrow> [])
                                     @ '' and '' @ strconv_Quote n)
                    | None \<Rightarrow> Ok (r\<lparr>mr_spec := Some spec\<rparr>))
          | Err e \<Rightarrow> Err e
          | Panic p \<Rightarrow> Panic p)"

definition BeforeSuiteDidRun :: "SetupSummary \<Rightarrow> MinimalReporter \<Rightarrow> MinimalReporter" where
  "BeforeSuiteDidRun setup r = r\<lparr>mr_setup := Some setup\<rparr>"

text \<open>The calls of the framework that the reporter reacts to; the others have empty bodies.\<close>

datatype report_call = BeforeSuite SetupSummary | DidComplete SpecSummary

fun run_reporter :: "report_call list \<Rightarrow> MinimalReporter \<Rightarrow> MinimalReporter outcome" where
  "run_reporter [] r = Ok r"
| "run_reporter (BeforeSuite s # cs) r = run_reporter cs (BeforeSuiteDidRun s r)"
| "run_reporter (DidComplete s # cs) r =
     (case SpecDidComplete s r of Ok r' \<Rightarrow> run_reporter cs r' | Err e \<Rightarrow> Err e | Panic p \<Rightarrow> Panic p)"

section \<open>TestOptions.Run\<close>

datatype run_error = ExitError int | PlainError go_error

datatype run_result = Nil | Failed_with run_error | Panicked_with go_error

text \<open>\<open>regexp.QuoteMeta\<close>\<close>

definition QuoteMeta :: "string \<Rightarrow> string" where
  "QuoteMeta s = concat (map (\<lambda>c. if c \<in> set ([backslash] @ ''.+*?()|[]{}^$'') then [backslash, c] else [c]) s)"

definition lastFilenameSegment :: "string \<Rightarrow> string" where
  "lastFilenameSegment filename =
     (let parts = str_split filename ''/vendor/'' in
      if length parts > 1 then last parts
      else let parts = str_split filename ''/src/'' in
        if length parts > 1 then last parts else filename)"

definition location_str :: "SpecFailure \<Rightarrow> string" where
  "location_str f = ''['' @ lastFilenameSegment (FileName (sf_Location f)) @ '':''
     @ int_str (LineNumber (sf_Location f)) @ '']: ''"

text \<open>
  The outcome of a summary: what is written to \<open>ErrOut\<close>, and the error returned. The message for an
  outcome that is not recognised is kept without the dump of the summary that the source appends.
\<close>

definition summary_result :: "SpecSummary option \<Rightarrow> string \<times> run_result" where
  "summary_result summary =
     (case summary of
        None \<Rightarrow> ([], Failed_with (PlainError ''test suite set up failed, see logs''))
      | Some s \<Rightarrow>
          (let f = sp_Failure s in
           case sp_State s of
             SpecStatePassed \<Rightarrow> ([], Nil)
           | SpecStateSkipped \<Rightarrow>
               ((if sf_Message f \<noteq> [] then ''skip '' @ location_str f @ sf_Message f @ [newline] else [])
                @ (if ForwardedPanic f \<noteq> [] then ''skip '' @ location_str f @ ForwardedPanic f @ [newline] else []),
                Failed_with (ExitError 3))
           | SpecStateInvalid \<Rightarrow> ([], Failed_with (PlainError ''unrecognized test case outcome''))
           | SpecStatePending \<Rightarrow> ([], Failed_with (PlainError ''unrecognized test case outcome''))
           | SpecStateTimedOut \<Rightarrow> ([], Failed_with (PlainError ''unrecognized test case outcome''))
           | _ \<Rightarrow>
               (if ForwardedPanic f \<noteq> [] then
                  (if FullStackTrace (sf_Location f) \<noteq> [] then [newline] @ FullStackTrace (sf_Location f) @ [newline] else [])
                  @ ''fail '' @ location_str f @ ''Test Panicked: '' @ ForwardedPanic f @ [newline]
                else ''fail '' @ location_str f @ sf_Message f @ [newline],
                Failed_with (ExitError 1))))"

definition summary_of :: "MinimalReporter \<Rightarrow> SpecSummary option" where
  "summary_of r =
     (case (mr_spec r, mr_setup r) of
        (Some s, _) \<Rightarrow> Some s
      | (None, Some u) \<Rightarrow> Some \<lparr>ComponentTexts = [], sp_ComponentCodeLocations = [], sp_State = su_State u,
                             sp_Failure = su_Failure u\<rparr>
      | (None, None) \<Rightarrow> None)"

fun find_test :: "testCase list \<Rightarrow> string \<Rightarrow> testCase option" where
  "find_test [] name = None"
| "find_test (t # ts) name = (if tc_name t = name then Some t else find_test ts name)"

definition focus_string :: "string \<Rightarrow> string" where
  "focus_string name = ''^'' @ QuoteMeta ('' [Top Level] '' @ name) @ ''$''"

text \<open>The result is what is written to \<open>Out\<close> and \<open>ErrOut\<close> (in order) and the error.\<close>

definition TestOptions_Run ::
  "(string \<Rightarrow> report_call list) \<Rightarrow> ginkgoSpec list \<Rightarrow> go_error \<Rightarrow> bool \<Rightarrow> string list \<Rightarrow> string \<times> run_result" where
  "TestOptions_Run framework specs iterErr dryRun args =
     (case args of
        [name] \<Rightarrow>
          (case testsForSuite specs iterErr [] of
             Err e \<Rightarrow> ([], Failed_with (PlainError e))
           | Panic p \<Rightarrow> ([], Panicked_with p)
           | Ok tests \<Rightarrow>
               (case find_test tests name of
                  None \<Rightarrow> ([], Failed_with (PlainError ''no test exists with that name''))
                | Some test \<Rightarrow>
                    if dryRun then (''Running test (dry-run)'' @ [newline], Nil)
                    else (case run_reporter (framework (focus_string (tc_name test)))
                                 (NewMinimalReporter (tc_name test) (tc_location test)) of
                            Ok r \<Rightarrow> summary_result (summary_of r)
                          | Err e \<Rightarrow> ([], Failed_with (PlainError e))
                          | Panic p \<Rightarrow> ([], Panicked_with p))))
      | _ \<Rightarrow> ([], Failed_with (PlainError ''only a single test name may be passed'')))"

section \<open>The exit code\<close>

text \<open>\<open>main\<close> exits with the code of an \<open>ExitError\<close> and with 1 for another error; a panic ends the process with 2.\<close>

definition main_exit :: "run_result \<Rightarrow> int" where
  "main_exit r =
     (case r of Nil \<Rightarrow> 0 | Failed_with (ExitError c) \<Rightarrow> c | Failed_with (PlainError e) \<Rightarrow> 1 | Panicked_with p \<Rightarrow> 2)"

end
