(* ===== verification/Monitor_Command.thy ===== *)
theory Monitor_Command
  imports Monitor_Props Run_Test
begin

text \<open>
  The command \<open>run-monitor\<close>: \<open>Options.Run\<close> of \<open>src/pkg/monitor/cmd.go\<close> as the interleaving of its three goroutines (the
  handler of signals, the printer of events and the main one) until the process exits. The channel of
  the handler has no buffer, so a signal that arrives while the handler does not receive is lost.
\<close>

section \<open>State\<close>

datatype signal = SIGINT | SIGTERM

datatype handler_stage = Await_first | Cancelling | Await_second | Exiting signal | Handler_over

datatype main_stage = Starting | Waiting | Sleeping | Returned run_result

datatype printer_stage = Not_started | Printing time | Printer_over

text \<open>\<open>mc_mon\<close> is the monitor, \<open>mc_got\<close> are the signals that the handler has received.\<close>

record 'w mc_state =
  mc_mon :: "'w Monitor"
  mc_handler :: handler_stage
  mc_got :: "signal list"
  mc_done :: bool
  mc_main :: main_stage
  mc_printer :: printer_stage
  mc_out :: "string list"
  mc_errout :: string
  mc_reported :: bool
  mc_exit :: "int option"

definition mc_init :: "'w mc_state" where
  "mc_init = \<lparr>mc_mon = NewMonitor, mc_handler = Await_first, mc_got = [], mc_done = False, mc_main = Starting, mc_printer = Not_started, mc_out = [],
     mc_errout = [], mc_reported = False, mc_exit = None\<rparr>"

fun signal_String :: "signal \<Rightarrow> string" where
  "signal_String SIGINT = ''interrupt''"
| "signal_String SIGTERM = ''terminated''"

text \<open>The report of the conditions, as lines.\<close>

definition conditions_report :: "'w Monitor \<Rightarrow> string list" where
  "conditions_report m =
     (let cs = Conditions m 0 0 in
      if cs = [] then [] else [[newline] @ ''Conditions:'' @ [newline]] @ map EventInterval_String cs)"

definition printed :: "time \<Rightarrow> 'w mc_state \<Rightarrow> 'w mc_state" where
  "printed lst s = s\<lparr>mc_out := mc_out s @ map EventInterval_String (fst (print_poll (mc_mon s) lst))\<rparr>"

section \<open>Steps\<close>

text \<open>The monitor that the command has started records and samples at any time.\<close>

inductive mc_step :: "'w mc_state \<Rightarrow> 'w mc_state \<Rightarrow> bool" where
  monitor_runs: "mc_exit s = None \<Longrightarrow> mc_step s (s\<lparr>mc_mon := m\<rparr>)"
| first_signal: "mc_exit s = None \<Longrightarrow> mc_handler s = Await_first \<Longrightarrow>
    mc_step s (s\<lparr>mc_handler := Cancelling, mc_got := mc_got s @ [sig]\<rparr>)"
| cancel: "mc_exit s = None \<Longrightarrow> mc_handler s = Cancelling \<Longrightarrow>
    mc_step s (s\<lparr>mc_handler := Await_second, mc_done := True,
      mc_errout := mc_errout s @ ''Interrupted, terminating'' @ [newline]\<rparr>)"
| second_signal: "mc_exit s = None \<Longrightarrow> mc_handler s = Await_second \<Longrightarrow>
    mc_step s (s\<lparr>mc_handler := Exiting sig, mc_got := mc_got s @ [sig]\<rparr>)"
| exit_twice: "mc_exit s = None \<Longrightarrow> mc_handler s = Exiting sig \<Longrightarrow>
    mc_step s (s\<lparr>mc_handler := Handler_over, mc_exit := Some (if sig = SIGINT then 130 else 0),
      mc_errout := mc_errout s @ ''Interrupted twice, exiting ('' @ signal_String sig @ '')'' @ [newline]\<rparr>)"
| started: "mc_exit s = None \<Longrightarrow> mc_main s = Starting \<Longrightarrow>
    mc_step s (s\<lparr>mc_main := Waiting, mc_printer := Printing 0\<rparr>)"
| start_failed: "mc_exit s = None \<Longrightarrow> mc_main s = Starting \<Longrightarrow>
    mc_step s (s\<lparr>mc_main := Returned (Failed_with (PlainError e)), mc_done := True\<rparr>)"
| tick: "mc_exit s = None \<Longrightarrow> mc_printer s = Printing lst \<Longrightarrow>
    mc_step s (printed lst (s\<lparr>mc_printer := Printing (snd (print_poll (mc_mon s) lst))\<rparr>))"
| final_tick: "mc_exit s = None \<Longrightarrow> mc_printer s = Printing lst \<Longrightarrow> mc_done s \<Longrightarrow>
    mc_step s (printed lst (s\<lparr>mc_printer := Printer_over\<rparr>))"
| wake: "mc_exit s = None \<Longrightarrow> mc_main s = Waiting \<Longrightarrow> mc_done s \<Longrightarrow>
    mc_step s (s\<lparr>mc_main := Sleeping\<rparr>)"
| report: "mc_exit s = None \<Longrightarrow> mc_main s = Sleeping \<Longrightarrow>
    mc_step s (s\<lparr>mc_main := Returned Nil, mc_out := mc_out s @ conditions_report (mc_mon s), mc_reported := True\<rparr>)"
| finish: "mc_exit s = None \<Longrightarrow> mc_main s = Returned r \<Longrightarrow>
    mc_step s (s\<lparr>mc_exit := Some (main_exit r)\<rparr>)"

inductive mc_reach :: "'w mc_state \<Rightarrow> bool" where
  mc_start: "mc_reach mc_init"
| mc_next: "mc_reach s \<Longrightarrow> mc_step s t \<Longrightarrow> mc_reach t"

section \<open>How the command ends\<close>

text \<open>The invariant: how far each goroutine is decides which signals were received and what may have happened.\<close>

definition handler_inv :: "'w mc_state \<Rightarrow> bool" where
  "handler_inv s =
     (case mc_handler s of
        Await_first \<Rightarrow> mc_got s = []
      | Cancelling \<Rightarrow> (\<exists>a. mc_got s = [a])
      | Await_second \<Rightarrow> (\<exists>a. mc_got s = [a]) \<and> mc_done s
      | Exiting sig \<Rightarrow> (\<exists>a. mc_got s = [a, sig]) \<and> mc_done s
      | Handler_over \<Rightarrow> (\<exists>a sig. mc_got s = [a, sig] \<and> mc_exit s = Some (if sig = SIGINT then 130 else 0)) \<and> mc_done s)"

definition start_failure :: "'w mc_state \<Rightarrow> bool" where
  "start_failure s = (\<exists>e. mc_main s = Returned (Failed_with (PlainError e)))"

definition main_inv :: "'w mc_state \<Rightarrow> bool" where
  "main_inv s =
     ((case mc_main s of
         Starting \<Rightarrow> \<not> mc_reported s
       | Waiting \<Rightarrow> \<not> mc_reported s
       | Sleeping \<Rightarrow> \<not> mc_reported s \<and> mc_done s
       | Returned r \<Rightarrow> mc_done s \<and> (if r = Nil then mc_reported s else start_failure s \<and> \<not> mc_reported s))
      \<and> (if mc_done s \<and> \<not> start_failure s then mc_got s \<noteq> [] else True)
      \<and> (case mc_exit s of
           None \<Rightarrow> True
         | Some c \<Rightarrow> mc_handler s = Handler_over \<or> (\<exists>r. mc_main s = Returned r \<and> c = main_exit r)))"

lemma mc_inv_step: "mc_step s t \<Longrightarrow> handler_inv s \<and> main_inv s \<Longrightarrow> handler_inv t \<and> main_inv t"
  by (induction rule: mc_step.induct)
     (auto simp: handler_inv_def main_inv_def start_failure_def printed_def
        split: handler_stage.splits main_stage.splits if_splits option.splits)

lemma mc_inv_reach: "mc_reach s \<Longrightarrow> handler_inv s \<and> main_inv s"
proof (induction rule: mc_reach.induct)
  case mc_start
  show ?case by (simp add: handler_inv_def main_inv_def mc_init_def)
next
  case mc_next
  then show ?case using mc_inv_step by blast
qed

text \<open>
  C39: The monitor command exits in one of three ways. A second signal ends it at once, with exit code 130 when it
  is an interrupt and 0 otherwise. Else it has returned: with 0 after a first signal and after the report of
  the conditions, or with 1 when the monitor could not be started. No more than two signals are received.
\<close>
theorem monitor_command_exit:
  assumes "mc_reach s" and "mc_exit s = Some c"
  shows "length (mc_got s) \<le> 2
    \<and> (if mc_handler s = Handler_over then \<exists>a sig. mc_got s = [a, sig] \<and> c = (if sig = SIGINT then 130 else 0)
       else if start_failure s then c = 1 \<and> \<not> mc_reported s
       else c = 0 \<and> mc_got s \<noteq> [] \<and> mc_reported s)"
proof -
  have h: "handler_inv s" and m: "main_inv s" using mc_inv_reach [OF assms(1)] by auto
  have "length (mc_got s) \<le> 2" using h by (auto simp: handler_inv_def split: handler_stage.splits)
  moreover have "\<exists>a sig. mc_got s = [a, sig] \<and> c = (if sig = SIGINT then 130 else 0)" if "mc_handler s = Handler_over"
    using h that assms(2) by (auto simp: handler_inv_def)
  moreover have "if start_failure s then c = 1 \<and> \<not> mc_reported s else c = 0 \<and> mc_got s \<noteq> [] \<and> mc_reported s"
    if "mc_handler s \<noteq> Handler_over"
    using m that assms(2)
    by (auto simp: main_inv_def start_failure_def main_exit_def split: if_splits)
  ultimately show ?thesis by simp
qed

text \<open>Once the first signal has been received and the monitor has been started, the command can always end without another one.\<close>

lemma monitor_command_stops:
  assumes "mc_reach s" and "mc_got s \<noteq> []" and "mc_main s \<noteq> Starting" and "mc_exit s = None"
  shows "\<exists>t. mc_step\<^sup>*\<^sup>* s t \<and> mc_exit t \<noteq> None \<and> mc_got t = mc_got s"
proof -
  have ret: "\<exists>t. mc_step\<^sup>*\<^sup>* u t \<and> mc_exit t \<noteq> None \<and> mc_got t = mc_got u" if "mc_exit u = None" "mc_main u = Returned r" for u r
    using mc_step.finish [OF that] by (intro exI [of _ "u\<lparr>mc_exit := Some (main_exit r)\<rparr>"]) auto
  have sleep: "\<exists>t. mc_step\<^sup>*\<^sup>* u t \<and> mc_exit t \<noteq> None \<and> mc_got t = mc_got u" if "mc_exit u = None" "mc_main u = Sleeping" for u
    using ret [of "u\<lparr>mc_main := Returned Nil, mc_out := mc_out u @ conditions_report (mc_mon u), mc_reported := True\<rparr>"]
      mc_step.report [OF that] that by (auto intro: converse_rtranclp_into_rtranclp)
  have wait: "\<exists>t. mc_step\<^sup>*\<^sup>* u t \<and> mc_exit t \<noteq> None \<and> mc_got t = mc_got u" if "mc_exit u = None" "mc_main u = Waiting" "mc_done u" for u
    using sleep [of "u\<lparr>mc_main := Sleeping\<rparr>"] mc_step.wake [OF that] that by (auto intro: converse_rtranclp_into_rtranclp)
  have over: "\<exists>t. mc_step\<^sup>*\<^sup>* u t \<and> mc_exit t \<noteq> None \<and> mc_got t = mc_got u"
    if "mc_exit u = None" "mc_main u \<noteq> Starting" "mc_done u" for u
    using that ret sleep wait by (cases "mc_main u") auto
  have h: "handler_inv s" using mc_inv_reach [OF assms(1)] by auto
  show ?thesis
  proof (cases "mc_done s")
    case True
    then show ?thesis using over assms by blast
  next
    case False
    then have "mc_handler s = Cancelling" using h assms(2) by (auto simp: handler_inv_def split: handler_stage.splits)
    from mc_step.cancel [OF assms(4) this] show ?thesis
      using over [of "s\<lparr>mc_handler := Await_second, mc_done := True, mc_errout := mc_errout s @ ''Interrupted, terminating'' @ [newline]\<rparr>"]
        assms by (auto intro: converse_rtranclp_into_rtranclp)
  qed
qed

theorem monitor_command_exit_witness:
  "\<exists>s :: unit mc_state. mc_reach s \<and> mc_exit s = Some 130 \<and> mc_got s = [SIGTERM, SIGINT]"
proof -
  define s0 :: "unit mc_state" where "s0 = mc_init"
  define s1 where "s1 = s0\<lparr>mc_handler := Cancelling, mc_got := mc_got s0 @ [SIGTERM]\<rparr>"
  define s2 where "s2 = s1\<lparr>mc_handler := Await_second, mc_done := True, mc_errout := mc_errout s1 @ ''Interrupted, terminating'' @ [newline]\<rparr>"
  define s3 where "s3 = s2\<lparr>mc_handler := Exiting SIGINT, mc_got := mc_got s2 @ [SIGINT]\<rparr>"
  define s4 where "s4 = s3\<lparr>mc_handler := Handler_over, mc_exit := Some (if SIGINT = SIGINT then 130 else 0),
      mc_errout := mc_errout s3 @ ''Interrupted twice, exiting ('' @ signal_String SIGINT @ '')'' @ [newline]\<rparr>"
  have "mc_step s0 s1" unfolding s1_def by (rule mc_step.first_signal) (simp_all add: s0_def mc_init_def)
  moreover have "mc_step s1 s2" unfolding s2_def by (rule mc_step.cancel) (simp_all add: s1_def s0_def mc_init_def)
  moreover have "mc_step s2 s3" unfolding s3_def by (rule mc_step.second_signal) (simp_all add: s2_def s1_def s0_def mc_init_def)
  moreover have "mc_step s3 s4" unfolding s4_def by (rule mc_step.exit_twice) (simp_all add: s3_def s2_def s1_def s0_def mc_init_def)
  ultimately have r: "mc_reach s4" using mc_start s0_def by (metis mc_next)
  have "mc_exit s4 = Some 130" "mc_handler s4 = Handler_over" by (simp_all add: s4_def)
  moreover have "mc_got s4 = [SIGTERM, SIGINT]" by (simp add: s4_def s3_def s2_def s1_def s0_def mc_init_def)
  ultimately show ?thesis using r monitor_command_exit [OF r] by blast
qed

end
