(* ===== verification/Test_Status.thy ===== *)
theory Test_Status
  imports Run_Test Monitor_Core
begin

text \<open>
  The parent process around one test: \<open>src/pkg/test/ginkgo/status.go\<close> (running a test, its report, the
  counters, the summary) and \<open>src/pkg/test/ginkgo/junit.go\<close> (the JUnit report). The child process is
  an input: its times, its output and how it ended. A test that is run is the record at its
  address in the store; runs of different tests change different addresses.
\<close>

section \<open>Status\<close>

record testStatus =
  st_out :: string
  st_timeout :: duration
  st_monitor :: "(time \<Rightarrow> time \<Rightarrow> EventIntervals) option"
  st_env :: "string list"
  includeSuccessfulOutput :: bool
  st_failures :: nat
  st_index :: nat
  st_total :: nat

definition newTestStatus ::
  "string \<Rightarrow> bool \<Rightarrow> nat \<Rightarrow> duration \<Rightarrow> (time \<Rightarrow> time \<Rightarrow> EventIntervals) option \<Rightarrow> string list \<Rightarrow> testStatus" where
  "newTestStatus out incl tot timeout m testEnv =
     \<lparr>st_out = out, st_timeout = timeout, st_monitor = m, st_env = testEnv, includeSuccessfulOutput = incl,
      st_failures = 0, st_index = 0, st_total = tot\<rparr>"

abbreviation emit :: "string \<Rightarrow> testStatus \<Rightarrow> testStatus" where
  "emit txt s \<equiv> s\<lparr>st_out := st_out s @ txt\<rparr>"

abbreviation emitln :: "string \<Rightarrow> testStatus \<Rightarrow> testStatus" where
  "emitln txt s \<equiv> emit (txt @ [newline]) s"

definition Failure :: "testStatus \<Rightarrow> testStatus" where
  "Failure s = s\<lparr>st_failures := st_failures s + 1\<rparr>"

text \<open>
  What \<open>fmt\<close> makes of a format when there are no operands left: the quoted name of the test is part of
  the format. Flags, width and precision are skipped up to the verb (explicit argument indexes and
  starred widths are not interpreted).
\<close>

fun fmt_rest :: "string \<Rightarrow> string" and fmt_verb :: "string \<Rightarrow> string" where
  "fmt_rest [] = []"
| "fmt_rest (c # s) = (if c = CHR ''%'' then fmt_verb s else c # fmt_rest s)"
| "fmt_verb [] = ''%!(NOVERB)''"
| "fmt_verb (c # s) =
     (if c \<in> set ''+-# 0123456789.'' then fmt_verb s
      else if c = CHR ''%'' then c # fmt_rest s
      else ''%!'' @ [c] @ ''(MISSING)'' @ fmt_rest s)"

text \<open>\<open>Fprintf\<close> with the format \<open>started: (%d/%d/%d) "name"\<close>.\<close>

definition status_Fprintf :: "string \<Rightarrow> testStatus \<Rightarrow> testStatus" where
  "status_Fprintf name s =
     (let s = (if st_index s < st_total s then s\<lparr>st_index := st_index s + 1\<rparr> else s) in
      emit (''started: ('' @ nat_str (st_failures s) @ ''/'' @ nat_str (st_index s) @ ''/'' @ nat_str (st_total s) @ '') ''
        @ fmt_rest (strconv_Quote name) @ [newline, newline]) s)"

text \<open>\<open>parts[1]\<close> panics when a variable has no \<open>=\<close>.\<close>

fun env_prefix :: "string list \<Rightarrow> string outcome" where
  "env_prefix [] = Ok []"
| "env_prefix (e # es) =
     (case str_splitN2 e ''='' of
        k # v # _ \<Rightarrow>
          (case env_prefix es of Ok r \<Rightarrow> Ok (k @ ''='' @ strconv_Quote v @ '' '' @ r) | Err x \<Rightarrow> Err x | Panic p \<Rightarrow> Panic p)
      | _ \<Rightarrow> Panic ''index out of range'')"

definition OutputCommand :: "string \<Rightarrow> testCase \<Rightarrow> testStatus \<Rightarrow> testStatus outcome" where
  "OutputCommand arg0 test s =
     (case env_prefix (st_env s) of
        Ok r \<Rightarrow> Ok (emitln (r @ arg0 @ '' run-test '' @ strconv_Quote (tc_name test)) s)
      | Err e \<Rightarrow> Err e
      | Panic p \<Rightarrow> Panic p)"

section \<open>The tail of an output\<close>

definition stringStartsWithAny :: "string \<Rightarrow> string list \<Rightarrow> bool" where
  "stringStartsWithAny s contains = list_ex (has_prefix s) contains"

lemma last_index_less: "last_index c s < int (length s)"
  by (induction s) (auto simp: Let_def)

text \<open>The loop of \<open>lastLinesUntil\<close>: \<open>index\<close> moves to the line break before, so it terminates for every \<open>max\<close>.\<close>

function last_lines_loop :: "string \<Rightarrow> string list \<Rightarrow> nat \<Rightarrow> nat \<Rightarrow> string" where
  "last_lines_loop output until ix mx =
     (if mx > 0 then
        let nxt = last_index newline (take ix output) in
        if nxt \<le> 0 then trim_space output
        else let line = trim_space (drop (nat nxt + 1) (take ix output));
                 mx = (if length line > 0 then mx - 1 else mx)
             in if stringStartsWithAny line until then trim_space (drop (nat nxt) output)
                else last_lines_loop output until (nat nxt) mx
      else trim_space (drop ix output))"
  by pat_completeness auto
termination
proof (relation "measure (\<lambda>(output, until, ix, mx). ix)", goal_cases)
  case (2 t u i k n l k')
  then have "n < int (length (take i t))" "0 < n" using last_index_less [of newline "take i t"] by auto
  then show ?case by auto
qed simp

declare last_lines_loop.simps [simp del]

definition lastLinesUntil :: "string \<Rightarrow> nat \<Rightarrow> string list \<Rightarrow> string" where
  "lastLinesUntil output mx until =
     (let output = trim_space output in
      if output = [] \<or> mx = 0 then output else last_lines_loop output until (length output - 1) mx)"

section \<open>Running a test\<close>

text \<open>How the child process ended: well, with an exit code, or with an error that is not an exit status.\<close>

datatype exec_result = Exec_ok | Exec_exit int | Exec_error

record execution =
  ex_start :: time
  ex_end :: time
  ex_out :: string
  ex_result :: exec_result

text \<open>\<open>runWithTimeout\<close> and the reading of its error in \<open>Run\<close>. The flags of the test are only ever set.\<close>

definition test_duration :: "time \<Rightarrow> time \<Rightarrow> duration" where
  "test_duration start_t end_t =
     (let d = duration_Round (time_Sub end_t start_t) (Second div 10) in
      if d > Minute then duration_Round d Second else d)"

definition record_execution :: "execution \<Rightarrow> testCase \<Rightarrow> testCase" where
  "record_execution x test =
     (let test = test\<lparr>tc_start := ex_start x, tc_end := ex_end x, tc_duration := test_duration (ex_start x) (ex_end x),
                      tc_out := ex_out x\<rparr>
      in case ex_result x of
           Exec_ok \<Rightarrow> test\<lparr>tc_success := True\<rparr>
         | Exec_exit c \<Rightarrow>
             if c = 1 then test\<lparr>tc_failed := True\<rparr>
             else if c = 2 then test\<lparr>tc_failed := True\<rparr>
             else if c = 3 then test\<lparr>tc_skipped := True\<rparr>
             else test\<lparr>tc_failed := True\<rparr>
         | Exec_error \<Rightarrow> test\<lparr>tc_failed := True\<rparr>)"

definition result_line :: "string \<Rightarrow> testCase \<Rightarrow> string" where
  "result_line what test =
     what @ '': ('' @ duration_String (tc_duration test) @ '') '' @ format_iso (tc_end test) @ '' ''
       @ strconv_Quote (tc_name test) @ [newline, newline]"

text \<open>The deferred report.\<close>

definition report_test :: "testCase \<Rightarrow> testStatus \<Rightarrow> testStatus" where
  "report_test test s =
     (if tc_success test then
        emit (result_line ''passed'' test)
          (if includeSuccessfulOutput s then emitln [] (emit (tc_out test) s) else s)
      else if tc_skipped test then
        emit (result_line ''skipped'' test)
          (if includeSuccessfulOutput s then emitln [] (emit (tc_out test) s)
           else let message = lastLinesUntil (tc_out test) 100 [''skip [''] in
             if length message > 0 then emitln [] (emitln message s) else s)
      else if tc_failed test then
        (let s = emitln [] (emit (tc_out test) s);
             s = (case st_monitor s of
                    Some mon_events \<Rightarrow>
                      if st_total s > 2 then
                        let evs = mon_events (tc_start test) (tc_end test) in
                        if length evs > 0
                        then emitln [] (fold (\<lambda>e s. emitln (EventInterval_String e) s) evs s) else s
                      else s
                  | None \<Rightarrow> s)
         in Failure (emit (result_line ''failed'' test) s))
      else s)"

definition status_Run :: "execution \<Rightarrow> testCase \<Rightarrow> testStatus \<Rightarrow> testCase \<times> testStatus" where
  "status_Run x test s =
     (let s = status_Fprintf (tc_name test) s; test = record_execution x test in (test, report_test test s))"

section \<open>Summaries\<close>

fun summarizeTests :: "testCase list \<Rightarrow> nat \<times> nat \<times> nat \<times> testCase list" where
  "summarizeTests [] = (0, 0, 0, [])"
| "summarizeTests (t # ts) =
     (let (pass, fail, skip, failing) = summarizeTests ts in
      if tc_success t then (pass + 1, fail, skip, failing)
      else if tc_failed t then (pass, fail + 1, skip, t # failing)
      else if tc_skipped t then (pass, fail, skip + 1, failing)
      else (pass, fail, skip, failing))"

definition sortedTests :: "testCase list \<Rightarrow> testCase list" where
  "sortedTests tests = sort_by (\<lambda>a b. str_less (tc_name a) (tc_name b)) tests"

section \<open>The JUnit report\<close>

record JUnitTestCase =
  jc_Name :: string
  jc_Duration :: duration
  SkipMessage :: "string option"
  FailureOutput :: "string option"
  SystemOut :: string

record JUnitTestSuite =
  js_Name :: string
  NumTests :: nat
  NumSkipped :: nat
  NumFailed :: nat
  js_Duration :: duration
  TestCases :: "JUnitTestCase list"

definition junit_test :: "testCase \<Rightarrow> JUnitTestSuite \<Rightarrow> JUnitTestSuite" where
  "junit_test test s =
     (if tc_skipped test then
        s\<lparr>NumTests := NumTests s + 1, NumSkipped := NumSkipped s + 1,
          TestCases := TestCases s @ [\<lparr>jc_Name = tc_name test, jc_Duration = tc_duration test,
            SkipMessage = Some (lastLinesUntil (tc_out test) 100 [''skip ['']), FailureOutput = None,
            SystemOut = tc_out test\<rparr>]\<rparr>
      else if tc_failed test then
        s\<lparr>NumTests := NumTests s + 1, NumFailed := NumFailed s + 1,
          TestCases := TestCases s @ [\<lparr>jc_Name = tc_name test, jc_Duration = tc_duration test,
            SkipMessage = None, FailureOutput = Some (lastLinesUntil (tc_out test) 100 [''fail ['']),
            SystemOut = tc_out test\<rparr>]\<rparr>
      else if tc_success test then
        s\<lparr>NumFailed := NumFailed s + 1,
          TestCases := TestCases s @ [\<lparr>jc_Name = tc_name test, jc_Duration = tc_duration test,
            SkipMessage = None, FailureOutput = None, SystemOut = []\<rparr>]\<rparr>
      else s)"

definition junit_additional :: "JUnitTestCase \<Rightarrow> JUnitTestSuite \<Rightarrow> JUnitTestSuite" where
  "junit_additional result s =
     (let s = (if SkipMessage result \<noteq> None then s\<lparr>NumSkipped := NumSkipped s + 1\<rparr>
               else if FailureOutput result \<noteq> None then s\<lparr>NumFailed := NumFailed s + 1\<rparr> else s)
      in s\<lparr>NumTests := NumTests s + 1, TestCases := TestCases s @ [result]\<rparr>)"

text \<open>The report that \<open>writeJUnitReport\<close> marshals and writes.\<close>

definition writeJUnitReport :: "string \<Rightarrow> testCase list \<Rightarrow> duration \<Rightarrow> JUnitTestCase list \<Rightarrow> JUnitTestSuite" where
  "writeJUnitReport name tests duration additionalResults =
     fold junit_additional additionalResults
       (fold junit_test tests
         \<lparr>js_Name = name, NumTests = 0, NumSkipped = 0, NumFailed = 0, js_Duration = duration, TestCases = []\<rparr>)"

section \<open>From the child to the parent\<close>

text \<open>The end of the child process as \<open>exec.Cmd\<close> reports it.\<close>

definition exec_of_exit :: "int \<Rightarrow> exec_result" where
  "exec_of_exit c = (if c = 0 then Exec_ok else Exec_exit c)"

definition fresh :: "testCase \<Rightarrow> bool" where
  "fresh t = (\<not> tc_success t \<and> \<not> tc_failed t \<and> \<not> tc_skipped t)"

text \<open>
  What the framework reports of a test: the completed specs at the place of the test with the name of the
  test, and the results of the set up of the suite, in the order of the reports.
\<close>

fun completions :: "testCase \<Rightarrow> report_call list \<Rightarrow> SpecSummary list" where
  "completions t [] = []"
| "completions t (BeforeSuite u # cs) = completions t cs"
| "completions t (DidComplete s # cs) =
     (if last (sp_ComponentCodeLocations s) = tc_location t \<and> str_join (tl (ComponentTexts s)) '' '' = tc_name t
      then s # completions t cs else completions t cs)"

fun setups :: "report_call list \<Rightarrow> SetupSummary list" where
  "setups [] = []"
| "setups (BeforeSuite u # cs) = u # setups cs"
| "setups (DidComplete s # cs) = setups cs"

text \<open>The framework reports a spec with the container of the suite and with the places of its nodes.\<close>

fun well_reported :: "report_call \<Rightarrow> bool" where
  "well_reported (BeforeSuite u) = True"
| "well_reported (DidComplete s) = (sp_ComponentCodeLocations s \<noteq> [] \<and> ComponentTexts s \<noteq> [])"

lemma run_reporter_result:
  assumes "list_all well_reported calls" and "mr_name r = tc_name t" and "mr_location r = tc_location t"
  shows "case (case mr_spec r of None \<Rightarrow> [] | Some s \<Rightarrow> [s]) @ completions t calls of
      [] \<Rightarrow> run_reporter calls r = Ok (r\<lparr>mr_setup := if setups calls = [] then mr_setup r else Some (last (setups calls))\<rparr>)
    | [s] \<Rightarrow> (\<exists>r'. run_reporter calls r = Ok r' \<and> mr_spec r' = Some s)
    | _ \<Rightarrow> (\<exists>p. run_reporter calls r = Panic p)"
  using assms
proof (induction calls arbitrary: r)
  case Nil
  then show ?case by (simp split: option.split)
next
  case (Cons c cs)
  show ?case
  proof (cases c)
    case (BeforeSuite u)
    with Cons show ?thesis
      using Cons.IH [of "BeforeSuiteDidRun u r"]
      by (simp add: BeforeSuiteDidRun_def split: list.splits option.splits)
  next
    case (DidComplete s)
    obtain l ls n ns where ls: "sp_ComponentCodeLocations s = l # ls" "ComponentTexts s = n # ns"
      using Cons.prems(1) DidComplete by (auto simp: neq_Nil_conv)
    show ?thesis
    proof (cases "last (sp_ComponentCodeLocations s) = tc_location t \<and> str_join ns '' '' = tc_name t")
      case True
      then show ?thesis
        using Cons.prems ls DidComplete Cons.IH [of "r\<lparr>mr_spec := Some s\<rparr>"]
        by (cases "mr_spec r") (auto simp: SpecDidComplete_def specName_def split: list.splits)
    next
      case False
      then have "SpecDidComplete s r = Ok r" using Cons.prems ls by (auto simp: SpecDidComplete_def specName_def)
      with False ls DidComplete have "run_reporter (c # cs) r = run_reporter cs r" "completions t (c # cs) = completions t cs"
        "setups (c # cs) = setups cs" by auto
      then show ?thesis using Cons.prems Cons.IH [of r] by (simp only: list.pred_inject)
    qed
  qed
qed

text \<open>
  The state of a test by the reports: the one of its only completed spec; without a completed spec, the one of
  the last set up of the suite; none when there is nothing to go by or when two specs claim to be the test.
\<close>

definition reported_state :: "testCase \<Rightarrow> report_call list \<Rightarrow> SpecState option" where
  "reported_state t calls =
     (case completions t calls of
        [] \<Rightarrow> (case rev (setups calls) of [] \<Rightarrow> None | u # _ \<Rightarrow> Some (su_State u))
      | [s] \<Rightarrow> Some (sp_State s)
      | _ \<Rightarrow> None)"

lemma child_exit:
  assumes "testsForSuite specs ''no more specs to run'' [] = Ok tests" and "find_test tests name = Some test"
    and "list_all well_reported (framework (focus_string (tc_name test)))"
  shows "main_exit (snd (TestOptions_Run framework specs ''no more specs to run'' False [name]))
    = (case reported_state test (framework (focus_string (tc_name test))) of
         Some SpecStatePassed \<Rightarrow> 0 | Some SpecStateSkipped \<Rightarrow> 3 | Some _ \<Rightarrow> 1
       | None \<Rightarrow> if completions test (framework (focus_string (tc_name test))) = [] then 1 else 2)"
proof -
  let ?calls = "framework (focus_string (tc_name test))"
  let ?r = "NewMinimalReporter (tc_name test) (tc_location test)"
  have sum: "main_exit (snd (summary_result (Some s))) =
      (case sp_State s of SpecStatePassed \<Rightarrow> 0 | SpecStateSkipped \<Rightarrow> 3 | _ \<Rightarrow> 1)" for s
    by (cases "sp_State s") (simp_all add: summary_result_def main_exit_def Let_def)
  have none: "main_exit (snd (summary_result None)) = 1" by (simp add: summary_result_def main_exit_def)
  have new: "mr_name ?r = tc_name test" "mr_location ?r = tc_location test" "mr_spec ?r = None" "mr_setup ?r = None"
    by (simp_all add: NewMinimalReporter_def)
  have r: "case completions test ?calls of
      [] \<Rightarrow> run_reporter ?calls ?r = Ok (?r\<lparr>mr_setup := if setups ?calls = [] then None else Some (last (setups ?calls))\<rparr>)
    | [s] \<Rightarrow> (\<exists>r'. run_reporter ?calls ?r = Ok r' \<and> mr_spec r' = Some s)
    | _ \<Rightarrow> (\<exists>p. run_reporter ?calls ?r = Panic p)"
    using run_reporter_result [OF assms(3), of ?r test] new by (simp only: option.case append_Nil)
  have run: "TestOptions_Run framework specs ''no more specs to run'' False [name]
    = (case run_reporter ?calls ?r of Ok r \<Rightarrow> summary_result (summary_of r)
       | Err e \<Rightarrow> ([], Failed_with (PlainError e)) | Panic p \<Rightarrow> ([], Panicked_with p))"
    using assms(1,2) by (simp add: TestOptions_Run_def)
  consider "completions test ?calls = []" | s where "completions test ?calls = [s]"
    | s1 s2 ss where "completions test ?calls = s1 # s2 # ss" by (metis list.exhaust)
  then show ?thesis
  proof cases
    case 1
    then show ?thesis
      using r by (cases "setups ?calls" rule: rev_cases)
        (simp_all add: run reported_state_def summary_of_def NewMinimalReporter_def sum none split: SpecState.split)
  next
    case 2
    then show ?thesis using r by (auto simp: run reported_state_def summary_of_def sum split: SpecState.split)
  next
    case 3
    then show ?thesis using r by (auto simp: run reported_state_def main_exit_def)
  qed
qed

text \<open>
  C6: The parent classifies a test by what the framework reported to the child: the test counts as passed
  exactly when the only completed spec at its place with its name passed, as skipped exactly when that spec
  was skipped, and as failed in every other case (failed, panicked, timed out, pending, or two specs that
  claim to be the test). When no such spec was reported, the state of the last set up of the suite counts,
  so that after a passed set up the test counts as passed without having been run; without a set up it counts
  as failed.
\<close>
theorem child_result_classified:
  assumes "testsForSuite specs ''no more specs to run'' [] = Ok tests" and "find_test tests name = Some test"
    and "list_all well_reported (framework (focus_string (tc_name test)))"
    and "ex_result x = exec_of_exit (main_exit (snd (TestOptions_Run framework specs ''no more specs to run'' False [name])))"
    and "fresh t"
  defines "calls \<equiv> framework (focus_string (tc_name test))"
  defines "state \<equiv> (case completions test calls of
      [] \<Rightarrow> (case rev (setups calls) of [] \<Rightarrow> None | u # _ \<Rightarrow> Some (su_State u))
    | [s] \<Rightarrow> Some (sp_State s)
    | _ \<Rightarrow> None)"
  shows "(tc_success (record_execution x t) \<longleftrightarrow> state = Some SpecStatePassed)
    \<and> (tc_skipped (record_execution x t) \<longleftrightarrow> state = Some SpecStateSkipped)
    \<and> (tc_failed (record_execution x t) \<longleftrightarrow> state \<notin> {Some SpecStatePassed, Some SpecStateSkipped})"
proof -
  have st: "state = reported_state test calls" by (simp add: state_def reported_state_def)
  show ?thesis
    using assms(4,5) unfolding child_exit [where framework = framework, OF assms(1-3)] st calls_def [symmetric]
    by (auto simp: exec_of_exit_def record_execution_def fresh_def Let_def split: option.splits SpecState.splits if_splits)
qed

definition demo_location :: CodeLocation where
  "demo_location = \<lparr>FileName = ''a.go'', LineNumber = 7, FullStackTrace = []\<rparr>"

definition demo_spec :: "string \<Rightarrow> ginkgoSpec" where
  "demo_spec n = \<lparr>ConcatenatedString = ''[Top Level] '' @ n, ComponentCodeLocations = [demo_location]\<rparr>"

definition demo_test :: "string \<Rightarrow> testCase" where
  "demo_test n = \<lparr>tc_name = n, tc_spec = demo_spec n, tc_location = demo_location, tc_testExclusion = '''',
     tc_start = 0, tc_end = 0, tc_duration = 0, tc_out = '''', tc_success = False, tc_failed = False,
     tc_skipped = False, tc_previous = None\<rparr>"

definition demo_summary :: "SpecState \<Rightarrow> SpecSummary" where
  "demo_summary st = \<lparr>ComponentTexts = [''[Top Level]'', ''t''], sp_ComponentCodeLocations = [demo_location],
     sp_State = st, sp_Failure = \<lparr>sf_Message = ''no'', sf_Location = demo_location, ForwardedPanic = []\<rparr>\<rparr>"

definition demo_setup :: SetupSummary where
  "demo_setup = \<lparr>su_State = SpecStatePassed, su_Failure = \<lparr>sf_Message = [], sf_Location = demo_location, ForwardedPanic = []\<rparr>\<rparr>"

definition demo_execution :: "exec_result \<Rightarrow> execution" where
  "demo_execution r = \<lparr>ex_start = 1, ex_end = 2, ex_out = [], ex_result = r\<rparr>"

theorem child_result_classified_witness:
  "let child = (\<lambda>calls. record_execution (demo_execution (exec_of_exit (main_exit (snd
       (TestOptions_Run (\<lambda>_. calls) [demo_spec ''t''] ''no more specs to run'' False [''t'']))))) (demo_test ''t'')) in
   tc_skipped (child [BeforeSuite demo_setup, DidComplete (demo_summary SpecStateSkipped)])
   \<and> tc_success (child [BeforeSuite demo_setup, DidComplete ((demo_summary SpecStateFailed)\<lparr>ComponentTexts := [''[Top Level]'', ''u'']\<rparr>)])"
proof -
  have ts: "testsForSuite [demo_spec ''t''] ''no more specs to run'' [] = Ok [demo_test ''t'']"
    by (simp add: newTestCase_def demo_spec_def demo_test_def trim_prefix_def Let_def)
  have f: "find_test [demo_test ''t''] ''t'' = Some (demo_test ''t'')" by (simp add: demo_test_def)
  have fr: "fresh (demo_test ''t'')" by (simp add: fresh_def demo_test_def)
  let ?x = "\<lambda>calls. demo_execution (exec_of_exit (main_exit (snd
       (TestOptions_Run (\<lambda>_. calls) [demo_spec ''t''] ''no more specs to run'' False [''t'']))))"
  have ex: "ex_result (?x calls) = exec_of_exit (main_exit (snd
       (TestOptions_Run (\<lambda>_. calls) [demo_spec ''t''] ''no more specs to run'' False [''t''])))" for calls
    by (simp add: demo_execution_def)
  note classified = child_result_classified [OF ts f _ ex fr]
  show ?thesis
    using classified [of "[BeforeSuite demo_setup, DidComplete (demo_summary SpecStateSkipped)]"]
      classified [of "[BeforeSuite demo_setup, DidComplete ((demo_summary SpecStateFailed)\<lparr>ComponentTexts := [''[Top Level]'', ''u'']\<rparr>)]"]
    by (simp add: demo_summary_def demo_setup_def demo_test_def)
qed

section \<open>Counters and summaries\<close>

text \<open>A list of tests, each with its execution, run one after the other.\<close>

fun status_run_all :: "(execution \<times> testCase) list \<Rightarrow> testStatus \<Rightarrow> testCase list \<times> testStatus" where
  "status_run_all [] s = ([], s)"
| "status_run_all ((x, t) # xs) s =
     (let (t', s') = status_Run x t s; (ts, s'') = status_run_all xs s' in (t' # ts, s''))"

lemma emit_all_counters [simp]:
  "st_failures (fold (\<lambda>e s. emitln (f e) s) evs s) = st_failures s"
  "st_index (fold (\<lambda>e s. emitln (f e) s) evs s) = st_index s"
  "st_total (fold (\<lambda>e s. emitln (f e) s) evs s) = st_total s"
  by (induction evs arbitrary: s) auto

lemma report_counters:
  "st_failures (report_test t s) =
     st_failures s + (if tc_failed t \<and> \<not> tc_success t \<and> \<not> tc_skipped t then 1 else 0)"
  "st_index (report_test t s) = st_index s"
  "st_total (report_test t s) = st_total s"
  by (auto simp: report_test_def Let_def Failure_def split: option.splits)

lemma Fprintf_counters:
  "st_failures (status_Fprintf n s) = st_failures s"
  "st_index (status_Fprintf n s) = (if st_index s < st_total s then st_index s + 1 else st_index s)"
  "st_total (status_Fprintf n s) = st_total s"
  by (simp_all add: status_Fprintf_def Let_def)

definition is_failure :: "exec_result \<Rightarrow> bool" where
  "is_failure r = (r \<noteq> Exec_ok \<and> r \<noteq> Exec_exit 3)"

lemma record_execution_flags:
  "tc_success (record_execution x t) = (tc_success t \<or> ex_result x = Exec_ok)"
  "tc_skipped (record_execution x t) = (tc_skipped t \<or> ex_result x = Exec_exit 3)"
  "tc_failed (record_execution x t) = (tc_failed t \<or> is_failure (ex_result x))"
  by (auto simp: record_execution_def Let_def is_failure_def split: exec_result.splits)

lemma record_execution_name [simp]: "tc_name (record_execution x t) = tc_name t"
  by (auto simp: record_execution_def Let_def split: exec_result.splits)

text \<open>
  C28: When every test of a suite is run once, the counter of failures that the started lines show ends
  as the number of failed tests of the summary, every test is counted once as passed, failed or
  skipped according to its execution, the failing tests are listed in order, and the position
  shown never exceeds the total.
\<close>
theorem summary_counts:
  fixes runs :: "(execution \<times> testCase) list" and out :: string and incl :: bool and n :: nat
    and timeout :: duration and m :: "(time \<Rightarrow> time \<Rightarrow> EventIntervals) option" and env :: "string list"
  defines "p \<equiv> status_run_all runs (newTestStatus out incl n timeout m env)"
  assumes "list_all (\<lambda>(x, t). fresh t) runs"
  shows "summarizeTests (fst p) =
      (length (filter (\<lambda>(x, t). ex_result x = Exec_ok) runs),
       length (filter (\<lambda>(x, t). is_failure (ex_result x)) runs),
       length (filter (\<lambda>(x, t). ex_result x = Exec_exit 3) runs),
       map (\<lambda>(x, t). record_execution x t) (filter (\<lambda>(x, t). is_failure (ex_result x)) runs))
    \<and> st_failures (snd p) = length (filter (\<lambda>(x, t). is_failure (ex_result x)) runs)
    \<and> st_index (snd p) = min n (length runs)
    \<and> (case summarizeTests (fst p) of (pass, fail, skip, failing) \<Rightarrow> pass + fail + skip) = length runs"
proof -
  have tests: "fst (status_run_all runs s) = map (\<lambda>(x, t). record_execution x t) runs" for s
    by (induction runs arbitrary: s) (auto simp: status_Run_def case_prod_beta Let_def)
  have sum: "summarizeTests (map (\<lambda>(x, t). record_execution x t) runs) =
      (length (filter (\<lambda>(x, t). ex_result x = Exec_ok) runs),
       length (filter (\<lambda>(x, t). is_failure (ex_result x)) runs),
       length (filter (\<lambda>(x, t). ex_result x = Exec_exit 3) runs),
       map (\<lambda>(x, t). record_execution x t) (filter (\<lambda>(x, t). is_failure (ex_result x)) runs))"
    using assms(2)
    by (induction runs) (auto simp: fresh_def record_execution_flags is_failure_def)
  have fails: "st_failures (snd (status_run_all runs s)) = st_failures s + length (filter (\<lambda>(x, t). is_failure (ex_result x)) runs)" for s
    using assms(2)
    by (induction runs arbitrary: s)
      (auto simp: status_Run_def case_prod_beta Let_def report_counters Fprintf_counters fresh_def record_execution_flags is_failure_def)
  have ix: "st_index s \<le> st_total s \<Longrightarrow>
      st_index (snd (status_run_all runs s)) = min (st_total s) (st_index s + length runs)" for s
    by (induction runs arbitrary: s)
      (auto simp: status_Run_def case_prod_beta Let_def report_counters Fprintf_counters)
  have part: "length (filter (\<lambda>(x, t). ex_result x = Exec_ok) runs)
      + length (filter (\<lambda>(x, t). is_failure (ex_result x)) runs)
      + length (filter (\<lambda>(x, t). ex_result x = Exec_exit 3) runs) = length runs"
    by (induction runs) (auto simp: is_failure_def)
  show ?thesis
    unfolding p_def using sum part fails ix
    by (simp add: tests newTestStatus_def)
qed

theorem summary_counts_witness:
  "st_failures (snd (status_run_all
     [(demo_execution Exec_ok, demo_test ''a''), (demo_execution (Exec_exit 2), demo_test ''b'')]
     (newTestStatus [] False 2 0 None []))) = 1"
  using summary_counts [of "[(demo_execution Exec_ok, demo_test ''a''), (demo_execution (Exec_exit 2), demo_test ''b'')]"
      "[]" False 2 0 None "[]"]
  by (simp add: fresh_def demo_test_def is_failure_def demo_execution_def)

section \<open>Counts of the JUnit report\<close>

text \<open>A test that was run once has exactly one of the three flags.\<close>

definition one_result :: "testCase \<Rightarrow> bool" where
  "one_result t = (length (filter id [tc_success t, tc_failed t, tc_skipped t]) = 1)"

lemma junit_test_counts:
  assumes "list_all one_result tests"
  shows "NumTests (fold junit_test tests s) + length (filter tc_success tests) = NumTests s + length tests"
    "NumFailed (fold junit_test tests s)
       = NumFailed s + length (filter tc_failed tests) + length (filter tc_success tests)"
    "NumSkipped (fold junit_test tests s) = NumSkipped s + length (filter tc_skipped tests)"
    "length (TestCases (fold junit_test tests s)) = length (TestCases s) + length tests"
  using assms
  by (induction tests arbitrary: s) (auto simp: junit_test_def one_result_def split: if_splits)

lemma junit_additional_counts:
  "NumTests (fold junit_additional rs s) = NumTests s + length rs"
  "NumFailed (fold junit_additional rs s)
     = NumFailed s + length (filter (\<lambda>r. SkipMessage r = None \<and> FailureOutput r \<noteq> None) rs)"
  "NumSkipped (fold junit_additional rs s) = NumSkipped s + length (filter (\<lambda>r. SkipMessage r \<noteq> None) rs)"
  "TestCases (fold junit_additional rs s) = TestCases s @ rs"
  by (induction rs arbitrary: s) (auto simp: junit_additional_def Let_def)

text \<open>
  C29: The JUnit report lists one test case for every test that was run and every additional result, but
  its counters are off by the passed tests: they are added to the failures and left out of the
  number of tests.
\<close>
theorem junit_counters:
  assumes "list_all one_result tests"
  shows "NumTests (writeJUnitReport name tests d rs) + length (filter tc_success tests)
      = length (TestCases (writeJUnitReport name tests d rs))
    \<and> length (TestCases (writeJUnitReport name tests d rs)) = length tests + length rs
    \<and> NumFailed (writeJUnitReport name tests d rs)
      = length (filter tc_failed tests) + length (filter tc_success tests)
        + length (filter (\<lambda>r. SkipMessage r = None \<and> FailureOutput r \<noteq> None) rs)
    \<and> NumSkipped (writeJUnitReport name tests d rs)
      = length (filter tc_skipped tests) + length (filter (\<lambda>r. SkipMessage r \<noteq> None) rs)"
  unfolding writeJUnitReport_def junit_additional_counts
  using junit_test_counts [OF assms] by (simp add: junit_additional_counts)

theorem junit_counters_witness:
  "NumFailed (writeJUnitReport ''s'' [(demo_test ''a'')\<lparr>tc_success := True\<rparr>, (demo_test ''b'')\<lparr>tc_skipped := True\<rparr>] 0 []) = 1"
  using junit_counters [of "[(demo_test ''a'')\<lparr>tc_success := True\<rparr>, (demo_test ''b'')\<lparr>tc_skipped := True\<rparr>]" "''s''" 0 "[]"]
  by (simp add: one_result_def demo_test_def)

section \<open>The tail of an output is a tail\<close>

lemma trim_space_suffix: "s = trim_space t \<Longrightarrow> \<exists>pre. s = pre @ trim_space (drop k s)"
proof -
  assume s: "s = trim_space t"
  have nt: "rev s = [] \<or> \<not> is_space (hd (rev s))"
    unfolding s trim_space_def by (metis hd_dropWhile dropWhile_eq_Nil_conv rev_rev_ident)
  let ?d = "drop k s"
  obtain a where a: "?d = a @ dropWhile is_space ?d" using dropWhile_split by blast
  have "dropWhile is_space (rev (dropWhile is_space ?d)) = rev (dropWhile is_space ?d)"
  proof (rule dropWhile_hd)
    have "last (dropWhile is_space ?d) = last s" "s \<noteq> []" if "dropWhile is_space ?d \<noteq> []"
      using a that by (metis append_is_Nil_conv append_take_drop_id last_appendR)+
    then show "rev (dropWhile is_space ?d) = [] \<or> \<not> is_space (hd (rev (dropWhile is_space ?d)))"
      using nt by (metis hd_rev rev_is_Nil_conv)
  qed
  then have "trim_space ?d = dropWhile is_space ?d" by (simp add: trim_space_def)
  then have "s = (take k s @ a) @ trim_space ?d" using a by (metis append.assoc append_take_drop_id)
  then show ?thesis by blast
qed

lemma last_lines_loop_suffix:
  "str = trim_space t \<Longrightarrow> \<exists>pre. str = pre @ last_lines_loop str pats ix mx"
proof (induction str pats ix mx rule: last_lines_loop.induct)
  case (1 str pats ix mx)
  note suffix = trim_space_suffix [OF 1(2)]
  have whole: "\<exists>pre. str = pre @ trim_space str" using suffix [of 0] by simp
  let ?n = "last_index newline (take ix str)"
  show ?case
  proof (cases "mx > 0 \<and> \<not> ?n \<le> 0 \<and> \<not> stringStartsWithAny (trim_space (drop (nat ?n + 1) (take ix str))) pats")
    case True
    have "last_lines_loop str pats ix mx = last_lines_loop str pats (nat ?n)
      (if length (trim_space (drop (nat ?n + 1) (take ix str))) > 0 then mx - 1 else mx)"
      using True by (subst last_lines_loop.simps) (simp add: Let_def)
    with 1(1) [OF _ refl _ refl refl] 1(2) True show ?thesis by simp
  next
    case False
    then have "last_lines_loop str pats ix mx \<in> {trim_space str, trim_space (drop ix str), trim_space (drop (nat ?n) str)}"
      by (subst last_lines_loop.simps) (auto simp: Let_def)
    with whole suffix show ?thesis by auto
  qed
qed

text \<open>
  The excerpt of a test's output that is printed for skipped tests and put into the JUnit report is
  always a tail of the output without the white space around it, for every number of lines and all
  patterns (and the search for it ends).
\<close>
theorem lastLinesUntil_tail:
  "has_suffix (trim_space str) (lastLinesUntil str mx pats)"
  using last_lines_loop_suffix [of "trim_space str" str pats]
  by (auto simp: lastLinesUntil_def Let_def has_suffix_iff intro: exI [of _ "[]"])

text \<open>The last line is compared without its last byte, so a last line of one byte is not counted.\<close>

lemma lastLinesUntil_one_more:
  "lastLinesUntil (''a'' @ [newline] @ ''b'' @ [newline] @ ''c'') 1 [] = ''b'' @ [newline] @ ''c''"
  by code_simp

end
