(* ===== verification/Run_Suite.thy ===== *)
theory Run_Suite
  imports Test_Status
begin

text \<open>
  Running a suite: \<open>Options.Run\<close> of \<open>src/pkg/test/ginkgo/cmd_runsuite.go\<close>. What lies outside the program
  is gathered in \<open>run_env\<close>: the file system, the regular expression engine, the specs of the test
  framework, the monitor and the executions of the child processes. A call of \<open>Execute\<close> on a queue
  with a number of workers gives a schedule, the tests in the order in which they are run with their
  executions; that it contains every test of the queue exactly once when there is a worker is what
  \<open>Execute_Props\<close> proves of the queue (\<open>execute_schedules\<close> in the root theory connects the two), and the
  results here hold for every such schedule.
\<close>

section \<open>Options and environment\<close>

record Options =
  opt_Parallelism :: int
  opt_Count :: int
  opt_Timeout :: duration
  opt_JUnitDir :: string
  opt_TestFile :: string
  opt_OutFile :: string
  opt_Regex :: string
  opt_IncludeSuccessOutput :: bool
  opt_Provider :: string
  opt_SuiteOptions :: string
  opt_Suites :: "TestSuite list"
  opt_DryRun :: bool
  opt_PrintCommands :: bool

definition AsEnv :: "Options \<Rightarrow> string list" where
  "AsEnv opt = [''TEST_PROVIDER='' @ opt_Provider opt, ''TEST_SUITE_OPTIONS='' @ opt_SuiteOptions opt]"

text \<open>The state of the JUnit directory: it exists, it is missing (with the error of creating it), or an error.\<close>

datatype dir_state = Dir_exists | Dir_missing "go_error option" | Dir_error go_error

record run_env =
  read_input :: "string \<Rightarrow> string go_result"
  compile :: "string \<Rightarrow> (string \<Rightarrow> bool) go_result"
  specs :: "ginkgoSpec list"
  iter_err :: go_error
  arg0 :: string
  arg0_base :: string
  junit_dir :: dir_state
  start_err :: "go_error option"
  mon_events :: "time \<Rightarrow> time \<Rightarrow> EventIntervals"
  schedule :: "nat \<Rightarrow> int \<Rightarrow> taddr list \<Rightarrow> (taddr \<times> execution) list"
  run_start :: time
  run_end :: time
  ctx_err :: "go_error option"

section \<open>Selecting a suite\<close>

definition suite_list :: "TestSuite list \<Rightarrow> string" where
  "suite_list suites =
     fmt_rest (SuitesString suites (''Select a test suite to run against the server:'' @ [newline, newline]))"

fun find_suite :: "TestSuite list \<Rightarrow> string \<Rightarrow> TestSuite option" where
  "find_suite [] name = None"
| "find_suite (s # ss) name = (if ts_Name s = name then Some s else find_suite ss name)"

text \<open>What is written to \<open>ErrOut\<close>, and the suite.\<close>

definition select_suite :: "run_env \<Rightarrow> Options \<Rightarrow> string list \<Rightarrow> string \<times> TestSuite outcome" where
  "select_suite env opt args =
     (if length (opt_TestFile opt) > 0 then
        ([], case read_input env (opt_TestFile opt) of
               Inl e \<Rightarrow> Err e
             | Inr contents \<Rightarrow>
                 (case newSuiteFromFile ''files'' contents of
                    Inl e \<Rightarrow> Err (''could not read test suite from input: '' @ e)
                  | Inr s \<Rightarrow> Ok s))
      else case args of
        [] \<Rightarrow> (suite_list (opt_Suites opt),
              case opt_Suites opt of
                [] \<Rightarrow> Panic ''index out of range''
              | s # _ \<Rightarrow> Err (''specify a test suite to run, for example: '' @ arg0_base env @ '' run '' @ ts_Name s))
      | name # _ \<Rightarrow>
          (case find_suite (opt_Suites opt) name of
             Some s \<Rightarrow> ([], Ok s)
           | None \<Rightarrow> (suite_list (opt_Suites opt), Err (''suite '' @ strconv_Quote name @ '' does not exist''))))"

definition apply_regex :: "run_env \<Rightarrow> Options \<Rightarrow> TestSuite \<Rightarrow> TestSuite outcome" where
  "apply_regex env opt suite =
     (if length (opt_Regex opt) > 0 then
        case filterWithRegex (compile env) suite (opt_Regex opt) of
          Inl e \<Rightarrow> Err (''regular expression for filtering tests is invalid: '' @ e)
        | Inr s \<Rightarrow> Ok s
      else Ok suite)"

definition prepare_tests :: "run_env \<Rightarrow> TestSuite \<Rightarrow> testCase list outcome" where
  "prepare_tests env suite =
     (case testsForSuite (specs env) (iter_err env) [] of
        Err e \<Rightarrow> Err e
      | Panic p \<Rightarrow> Panic p
      | Ok tests \<Rightarrow>
          let tests = Filter suite (setTestExclusion exclusive_path tests) in
          if length tests = 0 then Err (''suite '' @ strconv_Quote (ts_Name suite) @ '' does not contain any tests'')
          else Ok tests)"

definition effective_count :: "Options \<Rightarrow> TestSuite \<Rightarrow> int" where
  "effective_count opt suite = (if opt_Count opt = 0 then ts_Count suite else opt_Count opt)"

text \<open>The tests to run, as addresses; with a count they are repeated.\<close>

definition repeat_tests :: "int \<Rightarrow> taddr list \<Rightarrow> taddr list" where
  "repeat_tests cnt addrs = (if cnt > 1 then concat (replicate (nat cnt) addrs) else addrs)"

definition effective_parallelism :: "Options \<Rightarrow> TestSuite \<Rightarrow> int" where
  "effective_parallelism opt suite =
     (let p = (if opt_Parallelism opt = 0 then ts_Parallelism suite else opt_Parallelism opt) in if p = 0 then 3 else p)"

definition effective_timeout :: "Options \<Rightarrow> TestSuite \<Rightarrow> duration" where
  "effective_timeout opt suite =
     (let t = (if opt_Timeout opt = 0 then ts_TestTimeout suite else opt_Timeout opt) in if t = 0 then 15 * Minute else t)"

section \<open>Running\<close>

text \<open>The calls of \<open>status.Run\<close> of one \<open>Execute\<close>.\<close>

fun run_schedule :: "(taddr \<times> execution) list \<Rightarrow> tstore \<Rightarrow> testStatus \<Rightarrow> tstore \<times> testStatus" where
  "run_schedule [] st s = (st, s)"
| "run_schedule ((a, x) # r) st s =
     (let (t, s') = status_Run x (st a) s in run_schedule r (st(a := t)) s')"

fun output_commands :: "string \<Rightarrow> testCase list \<Rightarrow> testStatus \<Rightarrow> testStatus outcome" where
  "output_commands a0 [] s = Ok s"
| "output_commands a0 (t # ts) s =
     (case OutputCommand a0 t s of Ok s' \<Rightarrow> output_commands a0 ts s' | Err e \<Rightarrow> Err e | Panic p \<Rightarrow> Panic p)"

definition is_smoke :: "testCase \<Rightarrow> bool" where
  "is_smoke t = str_contains (tc_name t) ''[Smoke]''"

definition failing_test :: "testCase \<Rightarrow> bool" where
  "failing_test t = (\<not> tc_success t \<and> tc_failed t)"

text \<open>The events of the run with two intervals for every failed test, in order.\<close>

definition timeline_events :: "EventIntervals \<Rightarrow> testCase list \<Rightarrow> EventIntervals" where
  "timeline_events evs tests =
     sort_intervals (evs @ concat (map (\<lambda>t. if \<not> tc_failed t then [] else
        [\<lparr>iv_Condition = \<lparr>Level = Info, Locator = ''test='' @ strconv_Quote (tc_name t), Message = ''running''\<rparr>,
          iv_From = tc_start t, iv_To = tc_end t\<rparr>,
         \<lparr>iv_Condition = \<lparr>Level = Info, Locator = ''test='' @ strconv_Quote (tc_name t), Message = ''failed''\<rparr>,
          iv_From = tc_end t, iv_To = tc_end t\<rparr>]) tests))"

text \<open>The timeline that is printed, and the synthetic result for the JUnit report.\<close>

definition timeline :: "EventIntervals \<Rightarrow> testCase list \<Rightarrow> duration \<Rightarrow> string \<times> JUnitTestCase list" where
  "timeline evs tests dur =
     (if length evs > 0 then
        let evs = timeline_events evs tests;
            errors = filter (\<lambda>e. Level (iv_Condition e) = Error) evs;
            lines = (\<lambda>es. concat (map (\<lambda>e. EventInterval_String e @ [newline]) es));
            buf = [newline] @ ''Timeline:'' @ [newline, newline] @ lines evs @ [newline]
        in (buf, if length errors > 0 then
             [\<lparr>jc_Name = ''Monitor cluster while tests execute'', jc_Duration = dur, SkipMessage = None,
               FailureOutput = Some (nat_str (length errors) @ '' error level events were detected during this test run:''
                 @ [newline, newline] @ lines errors),
               SystemOut = buf\<rparr>] else [])
      else ([], []))"

text \<open>New addresses for the retries, holding copies of the failing tests.\<close>

fun make_retries :: "taddr \<Rightarrow> taddr list \<Rightarrow> tstore \<Rightarrow> taddr list \<times> tstore" where
  "make_retries new [] st = ([], st)"
| "make_retries new (a # as) st =
     (let (rs, st') = make_retries (new + 1) as (st(new := Retry a (st a))) in (new # rs, st'))"

text \<open>The loop that collects the retries stops after one more than the suite allows.\<close>

definition retry_flakes ::
  "run_env \<Rightarrow> Options \<Rightarrow> TestSuite \<Rightarrow> taddr \<Rightarrow> taddr list \<Rightarrow> tstore \<Rightarrow> taddr list \<times> string \<times> tstore" where
  "retry_flakes env opt suite new failing st =
     (let (retries, st) = make_retries new (take (nat (ts_MaximumAllowedFlakes suite) + 1) failing) st;
          s = newTestStatus [] (opt_IncludeSuccessOutput opt) (length retries) (effective_timeout opt suite)
                (Some (mon_events env)) (AsEnv opt);
          (st, _) = run_schedule (schedule env 3 (effective_parallelism opt suite) retries) st s;
          flaky = map (tc_name \<circ> st) (filter (tc_success \<circ> st) retries);
          repeatFailures = filter (Not \<circ> tc_success \<circ> st) retries
      in if length flaky > 0
         then (repeatFailures, ''Flaky tests:'' @ [newline, newline] @ str_join (sort_by str_less flaky) [newline]
                 @ [newline, newline], st)
         else (failing, [], st))"

record run_out =
  ro_out :: string
  ro_err :: string
  ro_junit :: "JUnitTestSuite option"
  ro_result :: "unit outcome"
  ro_runs :: "taddr list"

abbreviation stop :: "string \<Rightarrow> string \<Rightarrow> unit outcome \<Rightarrow> run_out" where
  "stop out err res \<equiv> \<lparr>ro_out = out, ro_err = err, ro_junit = None, ro_result = res, ro_runs = []\<rparr>"

definition check_junit_dir :: "run_env \<Rightarrow> Options \<Rightarrow> go_error option" where
  "check_junit_dir env opt =
     (if length (opt_JUnitDir opt) > 0 then
        case junit_dir env of
          Dir_exists \<Rightarrow> None
        | Dir_error e \<Rightarrow> Some (''could not access --junit-dir: '' @ e)
        | Dir_missing (Some e) \<Rightarrow> Some (''could not create --junit-dir: '' @ e)
        | Dir_missing None \<Rightarrow> None
      else None)"

definition failing_report :: "string list \<Rightarrow> string" where
  "failing_report names =
     (if length names > 0 then
        ''Failing tests:'' @ [newline, newline] @ str_join (sort_by str_less names) [newline] @ [newline, newline]
      else [])"

text \<open>
  From the start of the tests to the end of \<open>Options.Run\<close>. A report that cannot be written is only
  mentioned on \<open>Out\<close> and does not change the result; the model takes the writing to succeed. A negative
  number of workers, which the flag \<open>--max-parallel-tests\<close> lets through, makes \<open>wg.Add\<close> panic in the first
  call of \<open>Execute\<close>.
\<close>

definition first_pass :: "run_env \<Rightarrow> Options \<Rightarrow> TestSuite \<Rightarrow> testCase list \<Rightarrow> taddr list \<Rightarrow> tstore \<times> testStatus \<times> taddr list" where
  "first_pass env opt suite tests addrs =
     (let incl = (if length addrs = 1 then True else opt_IncludeSuccessOutput opt);
          st = (\<lambda>a. if a < length tests then tests ! a else hd tests);
          s = newTestStatus [] incl (length addrs) (effective_timeout opt suite) (Some (mon_events env)) (AsEnv opt);
          (smoke, normal) = splitTests addrs (is_smoke \<circ> st);
          par = effective_parallelism opt suite;
          r1 = schedule env 1 par smoke; r2 = schedule env 2 par normal;
          (st, s) = run_schedule r1 st s;
          (st, s) = run_schedule r2 st s
      in (st, s, map fst (r1 @ r2)))"

definition retry_phase ::
  "run_env \<Rightarrow> Options \<Rightarrow> TestSuite \<Rightarrow> taddr \<Rightarrow> nat \<Rightarrow> taddr list \<Rightarrow> tstore \<Rightarrow> taddr list \<times> string \<times> tstore" where
  "retry_phase env opt suite new fail failing st =
     (if 0 < fail \<and> int fail \<le> ts_MaximumAllowedFlakes suite then retry_flakes env opt suite new failing st
      else (failing, [], st))"

definition run_tests :: "run_env \<Rightarrow> Options \<Rightarrow> TestSuite \<Rightarrow> testCase list \<Rightarrow> taddr list \<Rightarrow> run_out" where
  "run_tests env opt suite tests addrs =
     (if effective_parallelism opt suite < 0 then stop [] [] (Panic ''sync: negative WaitGroup counter'') else
      let (st, s, runs) = first_pass env opt suite tests addrs;
          dur = test_duration (run_start env) (run_end env);
          (pass, fail, skip, _) = summarizeTests (map st addrs);
          failing = filter (failing_test \<circ> st) addrs;
          (tl_out, synthetic) = timeline (mon_events env 0 0) (map st addrs) dur;
          (failing, flaky_out, st) = retry_phase env opt suite (length tests) fail failing st;
          junit = (if length (opt_JUnitDir opt) > 0
                   then Some (writeJUnitReport ''openshift-tests'' (map st addrs) dur synthetic) else None);
          out = st_out s @ tl_out @ flaky_out @ failing_report (map (tc_name \<circ> st) failing)
      in if 0 < fail \<and> (length failing > 0 \<or> ts_MaximumAllowedFlakes suite = 0) then
           \<lparr>ro_out = out, ro_err = [], ro_junit = junit,
            ro_result = Err (nat_str fail @ '' fail, '' @ nat_str pass @ '' pass, '' @ nat_str skip @ '' skip (''
              @ duration_String dur @ '')''),
            ro_runs = runs\<rparr>
         else
           \<lparr>ro_out = out @ (if 0 < fail then nat_str fail @ '' flakes detected, suite allows passing with only flakes''
                 @ [newline, newline] else [])
              @ nat_str pass @ '' pass, '' @ nat_str skip @ '' skip ('' @ duration_String dur @ '')'' @ [newline],
            ro_err = [], ro_junit = junit,
            ro_result = (case ctx_err env of None \<Rightarrow> Ok () | Some e \<Rightarrow> Err e),
            ro_runs = runs\<rparr>)"

definition dry_run_output :: "testCase list \<Rightarrow> string" where
  "dry_run_output tests = concat (map (\<lambda>t. strconv_Quote (tc_name t) @ [newline]) (sortedTests tests))"

definition Options_Run :: "run_env \<Rightarrow> Options \<Rightarrow> string list \<Rightarrow> run_out" where
  "Options_Run env opt args =
     (let (err, selected) = select_suite env opt args in
      case selected of Err e \<Rightarrow> stop [] err (Err e) | Panic p \<Rightarrow> stop [] err (Panic p) | Ok suite \<Rightarrow>
     (case apply_regex env opt suite of Err e \<Rightarrow> stop [] err (Err e) | Panic p \<Rightarrow> stop [] err (Panic p) | Ok suite \<Rightarrow>
     (case prepare_tests env suite of Err e \<Rightarrow> stop [] err (Err e) | Panic p \<Rightarrow> stop [] err (Panic p) | Ok tests \<Rightarrow>
      let addrs = repeat_tests (effective_count opt suite) [0..<length tests] in
      if opt_PrintCommands opt then
        (case output_commands (arg0 env) (map (\<lambda>(a, x). tests ! a) (schedule env 0 1 addrs))
                (newTestStatus [] True (length addrs) Minute (Some (\<lambda>_ _. [])) (AsEnv opt)) of
           Ok s \<Rightarrow> stop (st_out s) err (Ok ()) | Err e \<Rightarrow> stop [] err (Err e) | Panic p \<Rightarrow> stop [] err (Panic p))
      else if opt_DryRun opt then stop (dry_run_output (map (\<lambda>a. tests ! a) addrs)) err (Ok ())
      else (case check_junit_dir env opt of
              Some e \<Rightarrow> stop [] err (Err e)
            | None \<Rightarrow>
                (case start_err env of Some e \<Rightarrow> stop [] err (Err e) | None \<Rightarrow> run_tests env opt suite tests addrs)))))"

end
