(* ===== verification/Run_Suite_Props.thy ===== *)
theory Run_Suite_Props
  imports Run_Suite
begin

text \<open>
  The verdict of \<open>Options.Run\<close>: which tests are run, when the run succeeds, how flakes are retried, and
  that the list printed by a dry run selects the same tests again.
\<close>

section \<open>Fresh tests\<close>

lemma testsForSuite_fresh:
  "testsForSuite ss err acc = Ok tests \<Longrightarrow> list_all fresh acc \<Longrightarrow> list_all fresh tests"
  by (induction ss arbitrary: acc)
    (auto simp: newTestCase_def Let_def fresh_def split: outcome.splits if_splits)

lemma prepare_tests_fresh:
  assumes "prepare_tests env suite = Ok tests"
  shows "list_all fresh tests" and "tests \<noteq> []"
proof -
  from assms obtain ts where ts: "testsForSuite (specs env) (iter_err env) [] = Ok ts"
    and eq: "tests = Filter suite (setTestExclusion exclusive_path ts)" and ne: "tests \<noteq> []"
    by (auto simp: prepare_tests_def Let_def split: outcome.splits if_splits)
  have "list_all fresh (setTestExclusion exclusive_path ts)"
    using testsForSuite_fresh [OF ts] by (auto simp: setTestExclusion_def Let_def list_all_iff fresh_def)
  then show "list_all fresh tests" unfolding eq by (auto simp: Filter_eq list_all_iff)
  show "tests \<noteq> []" by (rule ne)
qed

section \<open>Schedules\<close>

lemma run_schedule_Cons:
  "run_schedule (p # r) st s =
     run_schedule r (st(fst p := record_execution (snd p) (st (fst p)))) (snd (status_Run (snd p) (st (fst p)) s))"
  by (cases p) (simp add: status_Run_def Let_def)

declare run_schedule.simps(2) [simp del]

lemma run_schedule_append:
  "run_schedule (r @ r') st s = run_schedule r' (fst (run_schedule r st s)) (snd (run_schedule r st s))"
  by (induction r arbitrary: st s) (auto simp: run_schedule_Cons)

lemma run_schedule_other: "a \<notin> fst ` set r \<Longrightarrow> fst (run_schedule r st s) a = st a"
  by (induction r arbitrary: st s) (auto simp: run_schedule_Cons)

lemma run_schedule_store:
  "distinct (map fst r) \<Longrightarrow> (a, x) \<in> set r \<Longrightarrow> fst (run_schedule r st s) a = record_execution x (st a)"
proof (induction r arbitrary: st s)
  case (Cons p r)
  show ?case
  proof (cases "p = (a, x)")
    case True
    with Cons.prems(1) have "a \<notin> fst ` set r" by simp
    with True show ?thesis by (simp add: run_schedule_Cons run_schedule_other)
  next
    case False
    with Cons.prems have r: "distinct (map fst r)" "(a, x) \<in> set r" "fst p \<notin> fst ` set r" by auto
    then have "fst p \<noteq> a" by (metis fst_conv image_eqI)
    with r Cons.IH show ?thesis by (simp add: run_schedule_Cons)
  qed
qed simp

text \<open>Counting over the schedule or over the tests is the same.\<close>

lemma filter_perm:
  assumes "mset (map fst r) = mset as" and "\<And>a x. (a, x) \<in> set r \<Longrightarrow> P a = Q x"
  shows "length (filter P as) = length (filter (Q \<circ> snd) r)"
proof -
  have "length (filter P as) = size (filter_mset P (mset (map fst r)))"
    by (metis assms(1) mset_filter size_mset)
  also have "\<dots> = length (filter P (map fst r))" by (metis mset_filter size_mset)
  also have "\<dots> = length (filter (P \<circ> fst) r)" by (simp add: filter_map)
  also have "filter (P \<circ> fst) r = filter (Q \<circ> snd) r"
    by (rule filter_cong) (auto simp: assms(2))
  finally show ?thesis .
qed

abbreviation permutes :: "run_env \<Rightarrow> bool" where
  "permutes env \<equiv> (\<forall>k p as. 0 < p \<longrightarrow> mset (map fst (schedule env k p as)) = mset as)"

lemma permutes_set: "permutes env \<Longrightarrow> 0 < p \<Longrightarrow> fst ` set (schedule env k p as) = set as"
  by (metis list.set_map mset_eq_setD)

lemma permutes_distinct: "permutes env \<Longrightarrow> 0 < p \<Longrightarrow> distinct as \<Longrightarrow> distinct (map fst (schedule env k p as))"
  by (metis mset_eq_imp_distinct_iff)

section \<open>The first pass\<close>

definition initial_store :: "testCase list \<Rightarrow> tstore" where
  "initial_store tests = (\<lambda>a. if a < length tests then tests ! a else hd tests)"

text \<open>The executions of the first pass: the smoke tests, then the others.\<close>

definition first_runs :: "run_env \<Rightarrow> int \<Rightarrow> testCase list \<Rightarrow> taddr list \<Rightarrow> (taddr \<times> execution) list" where
  "first_runs env par tests addrs =
     schedule env 1 par (filter (is_smoke \<circ> initial_store tests) addrs)
     @ schedule env 2 par (filter (Not \<circ> (is_smoke \<circ> initial_store tests)) addrs)"

lemma first_pass_store:
  "fst (first_pass env opt suite tests addrs) = fst (run_schedule (first_runs env (effective_parallelism opt suite) tests addrs) (initial_store tests)
     (newTestStatus [] (if length addrs = 1 then True else opt_IncludeSuccessOutput opt) (length addrs)
        (effective_timeout opt suite) (Some (mon_events env)) (AsEnv opt)))"
  by (simp add: first_pass_def Let_def splitTests_eq case_prod_beta first_runs_def run_schedule_append
      initial_store_def [symmetric])

lemma first_pass_runs: "snd (snd (first_pass env opt suite tests addrs)) = map fst (first_runs env (effective_parallelism opt suite) tests addrs)"
  by (simp add: first_pass_def Let_def splitTests_eq case_prod_beta first_runs_def initial_store_def [symmetric])

lemma first_runs_mset: "permutes env \<Longrightarrow> 0 < par \<Longrightarrow> mset (map fst (first_runs env par tests addrs)) = mset addrs"
  by (simp add: first_runs_def comp_def del: mset_map flip: mset_filter) (metis mset_filter multiset_partition)

lemma parallelism_not_zero: "effective_parallelism opt suite \<noteq> 0"
  by (simp add: effective_parallelism_def Let_def)

lemma run_tests_runs:
  "0 < effective_parallelism opt suite \<Longrightarrow>
    ro_runs (run_tests env opt suite tests addrs) = map fst (first_runs env (effective_parallelism opt suite) tests addrs)"
  by (simp add: run_tests_def Let_def case_prod_beta first_pass_runs)

lemma run_tests_negative:
  "\<not> 0 < effective_parallelism opt suite \<Longrightarrow>
    run_tests env opt suite tests addrs = stop [] [] (Panic ''sync: negative WaitGroup counter'')"
  using parallelism_not_zero [of opt suite] by (simp add: run_tests_def)

section \<open>The verdict\<close>

lemma summarizeTests_failing:
  "summarizeTests ts = (p, f, k, fl) \<Longrightarrow> f = length (filter failing_test ts)"
  by (induction ts arbitrary: p f k fl) (auto simp: failing_test_def Let_def split: prod.splits if_splits)

lemma run_tests_result:
  fixes env :: run_env and opt :: Options and suite :: TestSuite and tests :: "testCase list" and addrs :: "taddr list"
  assumes "ctx_err env = None" and "0 < effective_parallelism opt suite"
  defines "st \<equiv> fst (first_pass env opt suite tests addrs)"
  defines "failing \<equiv> filter (failing_test \<circ> st) addrs"
  shows "ro_result (run_tests env opt suite tests addrs) = Ok () \<longleftrightarrow>
    \<not> (failing \<noteq> [] \<and> (fst (retry_phase env opt suite (length tests) (length failing) failing st) \<noteq> []
        \<or> ts_MaximumAllowedFlakes suite = 0))"
proof -
  obtain p f k fl where sum: "summarizeTests (map st addrs) = (p, f, k, fl)" by (metis prod_cases4)
  have f: "f = length failing"
    using summarizeTests_failing [OF sum] by (simp add: failing_def filter_map comp_def)
  show ?thesis
    using assms(1,2) sum f
    by (simp add: run_tests_def Let_def case_prod_beta st_def [symmetric] failing_def [symmetric])
qed

lemma run_schedule_flags:
  "tc_success (fst (run_schedule r st s) a) = (tc_success (st a) \<or> (\<exists>x. (a, x) \<in> set r \<and> ex_result x = Exec_ok))"
  "tc_skipped (fst (run_schedule r st s) a) = (tc_skipped (st a) \<or> (\<exists>x. (a, x) \<in> set r \<and> ex_result x = Exec_exit 3))"
  "tc_failed (fst (run_schedule r st s) a) = (tc_failed (st a) \<or> (\<exists>x. (a, x) \<in> set r \<and> is_failure (ex_result x)))"
  "tc_name (fst (run_schedule r st s) a) = tc_name (st a)"
  by (induction r arbitrary: st s) (auto simp: run_schedule_Cons record_execution_flags)

text \<open>A test counts as failed when one of its executions failed and none passed.\<close>

definition fails_in :: "(taddr \<times> execution) list \<Rightarrow> taddr \<Rightarrow> bool" where
  "fails_in runs a = (list_ex (\<lambda>(b, x). b = a \<and> is_failure (ex_result x)) runs
     \<and> \<not> list_ex (\<lambda>(b, x). b = a \<and> ex_result x = Exec_ok) runs)"

lemma first_pass_flags:
  fixes env :: run_env and opt :: Options and suite :: TestSuite and tests :: "testCase list" and addrs :: "taddr list"
  assumes "list_all fresh tests" and "tests \<noteq> []"
  defines "runs \<equiv> first_runs env (effective_parallelism opt suite) tests addrs"
    and "st \<equiv> fst (first_pass env opt suite tests addrs)"
  shows "failing_test (st a) = fails_in runs a"
    and "tc_skipped (st a) \<longleftrightarrow> (\<exists>x. (a, x) \<in> set runs \<and> ex_result x = Exec_exit 3)"
    and "tc_failed (st a) \<longleftrightarrow> (\<exists>x. (a, x) \<in> set runs \<and> is_failure (ex_result x))"
    and "tc_name (st a) = tc_name (initial_store tests a)"
proof -
  have "fresh (initial_store tests a)"
    using assms(1,2) by (simp add: initial_store_def list_all_iff)
  then show "failing_test (st a) = fails_in runs a"
    "tc_skipped (st a) \<longleftrightarrow> (\<exists>x. (a, x) \<in> set runs \<and> ex_result x = Exec_exit 3)"
    "tc_failed (st a) \<longleftrightarrow> (\<exists>x. (a, x) \<in> set runs \<and> is_failure (ex_result x))"
    "tc_name (st a) = tc_name (initial_store tests a)"
    unfolding st_def first_pass_store runs_def [symmetric]
    by (auto simp: failing_test_def run_schedule_flags fresh_def fails_in_def list_ex_iff)
qed

lemma make_retries_fresh:
  assumes "make_retries new as st = (rs, st')" and "\<And>a. a \<in> set as \<Longrightarrow> a < new"
  shows "rs = [new..<new + length as] \<and> (\<forall>r \<in> set rs. fresh (st' r)) \<and> (\<forall>b < new. st' b = st b)"
  using assms
proof (induction new as st arbitrary: rs st' rule: make_retries.induct)
  case (2 new a as st)
  let ?st = "st(new := Retry a (st a))"
  obtain rs1 st1 where m: "make_retries (new + 1) as ?st = (rs1, st1)" by fastforce
  with "2.prems" have rs: "rs = new # rs1" "st' = st1" by auto
  have "rs1 = [new + 1..<new + 1 + length as] \<and> (\<forall>r \<in> set rs1. fresh (st1 r)) \<and> (\<forall>b < new + 1. st1 b = ?st b)"
    using "2.IH" [OF m] "2.prems"(2) by (metis less_Suc_eq list.set_intros(2) Suc_eq_plus1)
  moreover have "[new..<new + Suc (length as)] = new # [new + 1..<new + 1 + length as]"
    by (simp add: upt_conv_Cons del: upt_Suc)
  ultimately show ?case using rs by (auto simp: fresh_def Retry_def simp del: upt_Suc)
qed simp

lemma retry_phase_failing:
  assumes perm: "permutes env" "0 < effective_parallelism opt suite" and small: "\<And>a. a \<in> set failing \<Longrightarrow> a < n" and ne: "failing \<noteq> []"
  shows "fst (retry_phase env opt suite n (length failing) failing st) = [] \<longleftrightarrow>
    int (length failing) \<le> ts_MaximumAllowedFlakes suite
    \<and> list_all (\<lambda>(a, x). ex_result x = Exec_ok) (schedule env 3 (effective_parallelism opt suite) [n..<n + length failing])"
proof (cases "int (length failing) \<le> ts_MaximumAllowedFlakes suite")
  case True
  then have tk: "take (nat (ts_MaximumAllowedFlakes suite) + 1) failing = failing" by simp
  obtain rs st1 where m: "make_retries n failing st = (rs, st1)" by fastforce
  have rs: "rs = [n..<n + length failing]" "\<forall>r \<in> set rs. fresh (st1 r)"
    using make_retries_fresh [OF m small] by auto
  define r where "r = schedule env 3 (effective_parallelism opt suite) rs"
  define st2 where "st2 = fst (run_schedule r st1 (newTestStatus [] (opt_IncludeSuccessOutput opt) (length rs)
      (effective_timeout opt suite) (Some (mon_events env)) (AsEnv opt)))"
  have d: "distinct (map fst r)" unfolding r_def by (rule permutes_distinct [OF perm]) (simp add: rs(1))
  have dom: "fst ` set r = set rs" unfolding r_def by (rule permutes_set [OF perm])
  have succ: "tc_success (st2 a) = (ex_result x = Exec_ok)" if "(a, x) \<in> set r" for a x
  proof -
    have "a \<in> set rs" using that dom by (metis fst_conv image_eqI)
    with rs(2) have "\<not> tc_success (st1 a)" by (auto simp: fresh_def)
    then show ?thesis unfolding st2_def run_schedule_store [OF d that] by (simp add: record_execution_flags)
  qed
  have all: "(\<forall>a \<in> set rs. tc_success (st2 a)) \<longleftrightarrow> list_all (\<lambda>(a, x). ex_result x = Exec_ok) r"
  proof -
    have "(\<forall>a \<in> set rs. tc_success (st2 a)) \<longleftrightarrow> (\<forall>p \<in> set r. tc_success (st2 (fst p)))"
      unfolding dom [symmetric] by simp
    also have "\<dots> \<longleftrightarrow> (\<forall>p \<in> set r. ex_result (snd p) = Exec_ok)"
      using succ by (metis prod.collapse)
    finally show ?thesis by (simp add: list_all_iff case_prod_beta)
  qed
  have "fst (retry_phase env opt suite n (length failing) failing st)
    = (if filter (tc_success \<circ> st2) rs \<noteq> [] then filter (Not \<circ> tc_success \<circ> st2) rs else failing)"
    using True ne by (simp add: retry_phase_def retry_flakes_def tk m case_prod_beta Let_def st2_def r_def)
  also have "\<dots> = [] \<longleftrightarrow> (\<forall>a \<in> set rs. tc_success (st2 a))"
    using ne rs(1) by (auto simp: filter_empty_conv)
  finally show ?thesis using True all rs(1) r_def by simp
next
  case False
  then show ?thesis using ne by (simp add: retry_phase_def)
qed

text \<open>The steps of \<open>Options.Run\<close> before the tests all succeed: a suite is selected and it has tests.\<close>

definition ready :: "run_env \<Rightarrow> Options \<Rightarrow> string list \<Rightarrow> TestSuite \<Rightarrow> testCase list \<Rightarrow> bool" where
  "ready env opt args suite tests =
     ((\<exists>err s0. select_suite env opt args = (err, Ok s0) \<and> apply_regex env opt s0 = Ok suite)
      \<and> prepare_tests env suite = Ok tests \<and> \<not> opt_PrintCommands opt \<and> \<not> opt_DryRun opt
      \<and> check_junit_dir env opt = None \<and> start_err env = None)"

lemma ready_run:
  "ready env opt args suite tests \<Longrightarrow>
    Options_Run env opt args = run_tests env opt suite tests (repeat_tests (effective_count opt suite) [0..<length tests])"
  by (auto simp: ready_def Options_Run_def Let_def)

lemma run_tests_verdict:
  fixes env :: run_env and opt :: Options and suite :: TestSuite and tests :: "testCase list" and addrs :: "taddr list"
  assumes "list_all fresh tests" and "tests \<noteq> []" and "permutes env" and "0 < effective_parallelism opt suite"
    and "ctx_err env = None" and "\<And>a. a \<in> set addrs \<Longrightarrow> a < length tests"
  defines "par \<equiv> effective_parallelism opt suite"
  defines "nfail \<equiv> length (filter (fails_in (first_runs env par tests addrs)) addrs)"
  shows "ro_result (run_tests env opt suite tests addrs) = Ok () \<longleftrightarrow>
    nfail = 0 \<or> int nfail \<le> ts_MaximumAllowedFlakes suite
      \<and> list_all (\<lambda>(a, x). ex_result x = Exec_ok) (schedule env 3 par [length tests..<length tests + nfail])"
proof -
  let ?st = "fst (first_pass env opt suite tests addrs)"
  define failing where "failing = filter (failing_test \<circ> ?st) addrs"
  have n: "length failing = nfail"
    by (simp add: failing_def nfail_def comp_def first_pass_flags(1) [OF assms(1,2)] par_def)
  have small: "a \<in> set failing \<Longrightarrow> a < length tests" for a using assms(6) by (auto simp: failing_def)
  have "ro_result (run_tests env opt suite tests addrs) = Ok () \<longleftrightarrow> \<not> (failing \<noteq> []
      \<and> (fst (retry_phase env opt suite (length tests) (length failing) failing ?st) \<noteq> []
        \<or> ts_MaximumAllowedFlakes suite = 0))"
    unfolding run_tests_result [OF assms(5,4)] failing_def ..
  also have "\<dots> \<longleftrightarrow> nfail = 0 \<or> int nfail \<le> ts_MaximumAllowedFlakes suite
      \<and> list_all (\<lambda>(a, x). ex_result x = Exec_ok) (schedule env 3 par [length tests..<length tests + nfail])"
  proof (cases "failing = []")
    case False
    with retry_phase_failing [OF assms(3,4) small False, of ?st] n show ?thesis by (auto simp: par_def)
  qed (use n in simp)
  finally show ?thesis .
qed

lemma fails_in_distinct:
  "distinct (map fst runs) \<Longrightarrow> (a, x) \<in> set runs \<Longrightarrow> fails_in runs a = is_failure (ex_result x)"
  by (auto simp: fails_in_def list_ex_iff is_failure_def dest: eq_key_imp_eq_value)

text \<open>
  C4: When every selected test is run once, \<open>Options.Run\<close> succeeds exactly when the number of workers is not negative and
  no test failed, or no more tests failed than the suite allows flakes and the retry of every failed test
  passed; this holds for every order in which the queues run the tests.
\<close>
theorem suite_verdict:
  assumes "ready env opt args suite tests" and "effective_count opt suite \<le> 1" and "permutes env"
    and "ctx_err env = None"
  defines "par \<equiv> effective_parallelism opt suite"
  defines "nfail \<equiv> length (filter (is_failure \<circ> ex_result \<circ> snd) (first_runs env par tests [0..<length tests]))"
  shows "ro_result (Options_Run env opt args) = Ok () \<longleftrightarrow>
    0 < par \<and> (nfail = 0 \<or> int nfail \<le> ts_MaximumAllowedFlakes suite
      \<and> list_all (\<lambda>(a, x). ex_result x = Exec_ok) (schedule env 3 par [length tests..<length tests + nfail]))"
proof (cases "0 < par")
  case True
  let ?addrs = "[0..<length tests]" and ?runs = "first_runs env par tests [0..<length tests]"
  have fr: "list_all fresh tests" "tests \<noteq> []"
    using assms(1) prepare_tests_fresh [of env suite tests] unfolding ready_def by blast+
  have m: "mset (map fst ?runs) = mset ?addrs" by (rule first_runs_mset [OF assms(3) True])
  then have d: "distinct (map fst ?runs)" by (metis distinct_upt mset_eq_imp_distinct_iff)
  have "length (filter (fails_in ?runs) ?addrs) = length (filter ((is_failure \<circ> ex_result) \<circ> snd) ?runs)"
    by (rule filter_perm [OF m]) (simp add: fails_in_distinct [OF d])
  then have n: "length (filter (fails_in ?runs) ?addrs) = nfail" by (simp add: nfail_def comp_def)
  have run: "Options_Run env opt args = run_tests env opt suite tests ?addrs"
    using ready_run [OF assms(1)] assms(2) by (simp add: repeat_tests_def)
  show ?thesis
    using run_tests_verdict [OF fr assms(3) _ assms(4), of opt suite ?addrs] True
    by (simp add: run par_def [symmetric] n)
next
  case False
  then show ?thesis using ready_run [OF assms(1)] run_tests_negative [of opt suite] by (simp add: par_def)
qed

text \<open>
  C12: The run executes every selected test as many times as asked for (the count of the options or of the
  suite, at least once), and all the smoke tests before the first of the others; with a negative number of
  workers it panics before any test.
\<close>
theorem suite_runs:
  assumes "ready env opt args suite tests" and "permutes env"
  defines "addrs \<equiv> repeat_tests (effective_count opt suite) [0..<length tests]"
  shows "if 0 < effective_parallelism opt suite then
      mset (ro_runs (Options_Run env opt args)) = mset addrs
      \<and> (\<forall>a. count (mset (ro_runs (Options_Run env opt args))) a
          = (if a < length tests then max 1 (nat (effective_count opt suite)) else 0))
      \<and> (\<exists>smoke normal. ro_runs (Options_Run env opt args) = smoke @ normal
          \<and> list_all (\<lambda>a. is_smoke (initial_store tests a)) smoke \<and> list_all (\<lambda>a. \<not> is_smoke (initial_store tests a)) normal)
    else ro_runs (Options_Run env opt args) = []
      \<and> ro_result (Options_Run env opt args) = Panic ''sync: negative WaitGroup counter''"
proof (cases "0 < effective_parallelism opt suite")
  case par: True
  let ?p = "effective_parallelism opt suite"
  have eq: "ro_runs (Options_Run env opt args) = map fst (first_runs env ?p tests addrs)"
    using ready_run [OF assms(1)] run_tests_runs [OF par] by (simp add: addrs_def)
  have m: "mset (ro_runs (Options_Run env opt args)) = mset addrs"
    unfolding eq by (rule first_runs_mset [OF assms(2) par])
  have one: "count (mset [0..<n]) a = (if a < n then 1 else 0)" for n a :: nat
    by (induction n) auto
  have "count (mset (concat (replicate k [0..<n]))) a = (if a < n then k else 0)" for k n a :: nat
    by (induction k) (auto simp: one)
  then have c: "count (mset (ro_runs (Options_Run env opt args))) a
      = (if a < length tests then max 1 (nat (effective_count opt suite)) else 0)" for a
    unfolding m by (auto simp: addrs_def repeat_tests_def one simp del: mset_upt)
  have parts: "list_all (\<lambda>a. is_smoke (initial_store tests a)) (map fst (schedule env 1 ?p (filter (is_smoke \<circ> initial_store tests) addrs)))"
    "list_all (\<lambda>a. \<not> is_smoke (initial_store tests a)) (map fst (schedule env 2 ?p (filter (Not \<circ> (is_smoke \<circ> initial_store tests)) addrs)))"
    using permutes_set [OF assms(2) par] by (force simp: list_all_iff)+
  have "ro_runs (Options_Run env opt args) = map fst (schedule env 1 ?p (filter (is_smoke \<circ> initial_store tests) addrs))
      @ map fst (schedule env 2 ?p (filter (Not \<circ> (is_smoke \<circ> initial_store tests)) addrs))"
    unfolding eq first_runs_def map_append ..
  with parts m c par show ?thesis by auto
next
  case False
  then show ?thesis using ready_run [OF assms(1)] run_tests_negative [OF False] by simp
qed

section \<open>Tests that are run several times\<close>

lemma retry_phase_store:
  assumes "permutes env" and "0 < effective_parallelism opt suite" and "\<And>a. a \<in> set failing \<Longrightarrow> a < n" and "b < n"
  shows "snd (snd (retry_phase env opt suite n k failing st)) b = st b"
proof -
  let ?as = "take (Suc (nat (ts_MaximumAllowedFlakes suite))) failing"
  obtain rs st1 where m: "make_retries n ?as st = (rs, st1)" by fastforce
  have rs: "rs = [n..<n + length ?as]" "st1 b = st b"
    using make_retries_fresh [OF m assms(3)] assms(4) by (auto dest: in_set_takeD)
  then have "b \<notin> fst ` set (schedule env 3 (effective_parallelism opt suite) rs)"
    unfolding permutes_set [OF assms(1,2)] using assms(4) by simp
  then show ?thesis
    using rs(2) by (simp add: retry_phase_def retry_flakes_def m case_prod_beta Let_def run_schedule_other)
qed

lemma junit_test_mono: "set (TestCases s) \<subseteq> set (TestCases (fold junit_test ts s))"
proof (induction ts arbitrary: s)
  case (Cons t ts)
  have "set (TestCases s) \<subseteq> set (TestCases (junit_test t s))" by (auto simp: junit_test_def)
  with Cons.IH [of "junit_test t s"] show ?case by auto
qed simp

lemma junit_failure_listed:
  assumes "t \<in> set ts" and "tc_failed t" and "\<not> tc_skipped t"
  shows "list_ex (\<lambda>c. jc_Name c = tc_name t \<and> FailureOutput c \<noteq> None) (TestCases (writeJUnitReport name ts d rs))"
proof -
  obtain us vs where ts: "ts = us @ t # vs" using assms(1) by (meson split_list)
  have "list_ex (\<lambda>c. jc_Name c = tc_name t \<and> FailureOutput c \<noteq> None) (TestCases (junit_test t s))" for s
    using assms(2,3) by (simp add: junit_test_def)
  then show ?thesis
    unfolding writeJUnitReport_def junit_additional_counts ts using junit_test_mono by (fastforce simp: list_ex_iff)
qed

text \<open>
  C30: A test that is run several times (\<open>--count\<close>) counts as failed only when one of its executions failed and none
  passed, in whatever order: the run succeeds exactly when the number of such tests (counted once for each of
  their runs) is zero, or within the allowed flakes with every retry passing. A test that failed once and was never
  skipped has a failure in the JUnit report all the same, also when the run succeeds.
\<close>
theorem repeated_test_masks_failure:
  assumes "ready env opt args suite tests" and "permutes env" and "0 < effective_parallelism opt suite"
    and "ctx_err env = None"
  defines "par \<equiv> effective_parallelism opt suite"
    and "addrs \<equiv> repeat_tests (effective_count opt suite) [0..<length tests]"
  defines "runs \<equiv> first_runs env par tests addrs"
  defines "nfail \<equiv> length (filter (\<lambda>a. list_ex (\<lambda>(b, x). b = a \<and> is_failure (ex_result x)) runs
      \<and> \<not> list_ex (\<lambda>(b, x). b = a \<and> ex_result x = Exec_ok) runs) addrs)"
  shows "(ro_result (Options_Run env opt args) = Ok () \<longleftrightarrow>
      nfail = 0 \<or> int nfail \<le> ts_MaximumAllowedFlakes suite
        \<and> list_all (\<lambda>(a, x). ex_result x = Exec_ok) (schedule env 3 par [length tests..<length tests + nfail]))
    \<and> (opt_JUnitDir opt \<noteq> [] \<longrightarrow> a < length tests \<longrightarrow> list_ex (\<lambda>(b, x). b = a \<and> is_failure (ex_result x)) runs
      \<longrightarrow> \<not> list_ex (\<lambda>(b, x). b = a \<and> ex_result x = Exec_exit 3) runs
      \<longrightarrow> (\<exists>j. ro_junit (Options_Run env opt args) = Some j
          \<and> list_ex (\<lambda>c. jc_Name c = tc_name (tests ! a) \<and> FailureOutput c \<noteq> None) (TestCases j)))"
proof -
  have fr: "list_all fresh tests" "tests \<noteq> []"
    using assms(1) prepare_tests_fresh [of env suite tests] unfolding ready_def by blast+
  have run: "Options_Run env opt args = run_tests env opt suite tests addrs"
    using ready_run [OF assms(1)] by (simp add: addrs_def)
  have dom: "set addrs = {0..<length tests}" by (auto simp: addrs_def repeat_tests_def)
  have n: "nfail = length (filter (fails_in runs) addrs)" by (simp add: nfail_def fails_in_def [abs_def])
  let ?st = "fst (first_pass env opt suite tests addrs)"
  let ?failing = "filter (failing_test \<circ> ?st) addrs"
  obtain p f k fl where sum: "summarizeTests (map ?st addrs) = (p, f, k, fl)" by (metis prod_cases4)
  let ?st' = "snd (snd (retry_phase env opt suite (length tests) f ?failing ?st))"
  have keep: "b < length tests \<Longrightarrow> ?st' b = ?st b" for b
    using dom by (intro retry_phase_store [OF assms(2,3)]) auto
  have junit: "\<exists>d rs. ro_junit (run_tests env opt suite tests addrs) = Some (writeJUnitReport ''openshift-tests'' (map ?st' addrs) d rs)"
    if "opt_JUnitDir opt \<noteq> []"
    using that assms(3) by (auto simp: run_tests_def Let_def case_prod_beta sum)
  have "\<exists>j. ro_junit (Options_Run env opt args) = Some j
      \<and> list_ex (\<lambda>c. jc_Name c = tc_name (tests ! a) \<and> FailureOutput c \<noteq> None) (TestCases j)"
    if dir: "opt_JUnitDir opt \<noteq> []" and that: "a < length tests" "list_ex (\<lambda>(b, x). b = a \<and> is_failure (ex_result x)) runs"
      "\<not> list_ex (\<lambda>(b, x). b = a \<and> ex_result x = Exec_exit 3) runs"
  proof -
    have "?st a \<in> set (map ?st' addrs)" using that(1) keep dom by force
    moreover have "tc_failed (?st a)" "\<not> tc_skipped (?st a)" "tc_name (?st a) = tc_name (tests ! a)"
      using that first_pass_flags(2-4) [OF fr, of env opt suite addrs a]
      by (auto simp: runs_def par_def list_ex_iff initial_store_def)
    moreover obtain d rs where "ro_junit (Options_Run env opt args) = Some (writeJUnitReport ''openshift-tests'' (map ?st' addrs) d rs)"
      using junit [OF dir] unfolding run by blast
    ultimately show ?thesis using junit_failure_listed [of "?st a" "map ?st' addrs"] by simp
  qed
  moreover have "ro_result (Options_Run env opt args) = Ok () \<longleftrightarrow> nfail = 0 \<or> int nfail \<le> ts_MaximumAllowedFlakes suite
      \<and> list_all (\<lambda>(a, x). ex_result x = Exec_ok) (schedule env 3 par [length tests..<length tests + nfail])"
    unfolding run n runs_def par_def by (rule run_tests_verdict [OF fr assms(2-4)]) (simp add: dom)
  ultimately show ?thesis by blast
qed

section \<open>Dry run\<close>

lemma set_repeat: "set (repeat_tests k as) = set as"
  by (auto simp: repeat_tests_def)

text \<open>
  C14: The list that a dry run prints is a suite file: reading it back gives a suite that selects exactly
  the same tests, in the same order, whatever bytes the names contain.
\<close>
theorem dry_run_round_trip:
  assumes "select_suite env opt args = (err, Ok s0)" and "apply_regex env opt s0 = Ok suite"
    and "prepare_tests env suite = Ok tests" and "opt_DryRun opt" and "\<not> opt_PrintCommands opt"
  shows "ro_result (Options_Run env opt args) = Ok ()
    \<and> (\<exists>suite'. newSuiteFromFile ''files'' (ro_out (Options_Run env opt args)) = Inr suite'
        \<and> prepare_tests env suite' = Ok tests)"
proof -
  define listed where "listed = sortedTests (map (\<lambda>a. tests ! a) (repeat_tests (effective_count opt suite) [0..<length tests]))"
  define suite' where "suite' = \<lparr>ts_Name = ''files'', ts_Description = '''', ts_Matches = (\<lambda>n. n \<in> set (map tc_name listed)),
     ts_Count = 0, ts_Parallelism = 0, ts_MaximumAllowedFlakes = 0, ts_TestTimeout = 0\<rparr>"
  have run: "Options_Run env opt args = stop (concat (map (\<lambda>t. strconv_Quote (tc_name t) @ [newline]) listed)) err (Ok ())"
    using assms by (simp add: Options_Run_def Let_def dry_run_output_def listed_def)
  have "newSuiteFromFile ''files'' (ro_out (Options_Run env opt args)) = Inr suite'"
    using newSuiteFromFile_quoted [of "''files''" "map tc_name listed"] by (simp add: run suite'_def comp_def)
  moreover have "prepare_tests env suite' = Ok tests"
  proof -
    from assms(3) obtain ts where ts: "testsForSuite (specs env) (iter_err env) [] = Ok ts"
      and eq: "tests = Filter suite (setTestExclusion exclusive_path ts)" and ne: "tests \<noteq> []"
      by (auto simp: prepare_tests_def Let_def split: outcome.splits if_splits)
    have "set listed = (\<lambda>a. tests ! a) ` {0..<length tests}"
      by (simp add: listed_def sortedTests_def set_repeat del: upt_conv_Nil)
    also have "\<dots> = set tests" by (metis list.set_map map_nth set_upt)
    finally have names: "ts_Matches suite' n \<longleftrightarrow> n \<in> tc_name ` set tests" for n by (simp add: suite'_def)
    have "Filter suite' (setTestExclusion exclusive_path ts) = tests"
      unfolding Filter_eq names unfolding eq Filter_eq by (rule filter_cong) auto
    with ts ne show ?thesis by (simp add: prepare_tests_def)
  qed
  ultimately show ?thesis by (auto simp: run)
qed

section \<open>Witnesses\<close>

text \<open>A suite of two tests that allows one flake; the first test fails and its retry passes.\<close>

definition demo_env :: run_env where
  "demo_env = \<lparr>read_input = (\<lambda>_. Inl ''no file''), compile = (\<lambda>_. Inl ''no regexp''), specs = [demo_spec ''a'', demo_spec ''b''],
     iter_err = ''no more specs to run'', arg0 = ''tests'', arg0_base = ''tests'', junit_dir = Dir_exists, start_err = None,
     mon_events = (\<lambda>_ _. []),
     schedule = (\<lambda>k p as. map (\<lambda>a. (a, demo_execution (if a = 0 then Exec_exit 1 else Exec_ok))) as),
     run_start = 1, run_end = 2, ctx_err = None\<rparr>"

definition demo_suite :: TestSuite where
  "demo_suite = \<lparr>ts_Name = ''s'', ts_Description = [], ts_Matches = (\<lambda>_. True), ts_Count = 0, ts_Parallelism = 0,
     ts_MaximumAllowedFlakes = 1, ts_TestTimeout = 0\<rparr>"

definition demo_opt :: Options where
  "demo_opt = \<lparr>opt_Parallelism = 0, opt_Count = 0, opt_Timeout = 0, opt_JUnitDir = [], opt_TestFile = [], opt_OutFile = [], opt_Regex = [],
     opt_IncludeSuccessOutput = False, opt_Provider = [], opt_SuiteOptions = [], opt_Suites = [demo_suite],
     opt_DryRun = False, opt_PrintCommands = False\<rparr>"

lemma demo_selected:
  "select_suite demo_env (demo_opt\<lparr>opt_DryRun := b\<rparr>) [''s''] = ([], Ok demo_suite)"
  "apply_regex demo_env (demo_opt\<lparr>opt_DryRun := b\<rparr>) demo_suite = Ok demo_suite"
  by (simp_all add: select_suite_def demo_opt_def demo_suite_def apply_regex_def)

lemma demo_tests: "prepare_tests demo_env demo_suite = Ok [demo_test ''a'', demo_test ''b'']"
  by (simp add: prepare_tests_def demo_env_def demo_suite_def newTestCase_def demo_spec_def demo_location_def
      demo_test_def trim_prefix_def setTestExclusion_def exclusive_path_def framework_file_def has_suffix_def Let_def)

lemma demo_ready: "ready demo_env demo_opt [''s''] demo_suite [demo_test ''a'', demo_test ''b'']"
  using demo_selected [of False] demo_tests
  by (simp add: ready_def demo_opt_def check_junit_dir_def) (simp add: demo_env_def)

lemma demo_permutes: "permutes demo_env"
  by (simp add: demo_env_def comp_def)

theorem suite_verdict_witness:
  "ro_result (Options_Run demo_env demo_opt [''s'']) = Ok ()"
proof -
  have "length (filter (is_failure \<circ> ex_result \<circ> snd)
      (first_runs demo_env 3 [demo_test ''a'', demo_test ''b''] [0..<length [demo_test ''a'', demo_test ''b'']])) = 1"
    by (simp add: first_runs_def demo_env_def initial_store_def is_smoke_def demo_test_def is_failure_def demo_execution_def)
  with suite_verdict [OF demo_ready _ demo_permutes] show ?thesis
    by (simp add: demo_env_def demo_opt_def demo_suite_def effective_count_def effective_parallelism_def demo_execution_def)
qed

theorem suite_runs_witness:
  "mset (ro_runs (Options_Run demo_env demo_opt [''s''])) = {#0, 1#}"
  using suite_runs [OF demo_ready demo_permutes]
  by (simp add: repeat_tests_def demo_opt_def demo_suite_def effective_count_def effective_parallelism_def)

theorem dry_run_round_trip_witness:
  "\<exists>suite'. newSuiteFromFile ''files'' (ro_out (Options_Run demo_env (demo_opt\<lparr>opt_DryRun := True\<rparr>) [''s''])) = Inr suite'
     \<and> prepare_tests demo_env suite' = Ok [demo_test ''a'', demo_test ''b'']"
  using dry_run_round_trip [OF demo_selected demo_tests, of True] by (simp add: demo_opt_def)

text \<open>The same suite with every test run twice: the first test fails and then passes.\<close>

definition demo_twice :: run_env where
  "demo_twice = demo_env\<lparr>schedule := (\<lambda>k p as. map (\<lambda>(i, a). (a, demo_execution (if i = 0 then Exec_exit 1 else Exec_ok)))
     (zip [0..<length as] as))\<rparr>"

theorem repeated_test_masks_failure_witness:
  "ro_result (Options_Run demo_twice (demo_opt\<lparr>opt_Count := 2, opt_JUnitDir := ''j''\<rparr>) [''s'']) = Ok ()
   \<and> (\<exists>j. ro_junit (Options_Run demo_twice (demo_opt\<lparr>opt_Count := 2, opt_JUnitDir := ''j''\<rparr>) [''s'']) = Some j
       \<and> list_ex (\<lambda>c. jc_Name c = ''a'' \<and> FailureOutput c \<noteq> None) (TestCases j))"
proof -
  let ?opt = "demo_opt\<lparr>opt_Count := 2, opt_JUnitDir := ''j''\<rparr>" and ?ts = "[demo_test ''a'', demo_test ''b'']"
  have r: "ready demo_twice ?opt [''s''] demo_suite ?ts"
    using demo_ready demo_tests
    by (simp add: ready_def demo_opt_def check_junit_dir_def select_suite_def demo_suite_def apply_regex_def demo_twice_def
        demo_env_def prepare_tests_def)
  have "map fst (schedule demo_twice k p as) = as" for k p as
    by (simp add: demo_twice_def case_prod_beta comp_def)
  then have p: "permutes demo_twice" by (simp only: simp_thms)
  have e: "effective_count ?opt demo_suite = 2" "effective_parallelism ?opt demo_suite = 3" "ctx_err demo_twice = None"
    by (simp_all add: effective_count_def effective_parallelism_def demo_opt_def demo_suite_def demo_twice_def demo_env_def)
  have runs: "first_runs demo_twice 3 ?ts [0, Suc 0, 0, Suc 0] =
      [(0, demo_execution (Exec_exit 1)), (1, demo_execution Exec_ok), (0, demo_execution Exec_ok), (1, demo_execution Exec_ok)]"
    by (simp add: first_runs_def demo_twice_def initial_store_def is_smoke_def demo_test_def)
  show ?thesis
    using repeated_test_masks_failure [OF r p _ e(3), of 0]
    by (simp add: e repeat_tests_def numeral_2_eq_2 runs is_failure_def demo_execution_def) (simp add: demo_opt_def demo_test_def)
qed

end
