(* ===== verification/Test_Renamer.thy ===== *)
theory Test_Renamer
  imports Test_Case
begin

text \<open>
  The labels that decide which suites a test belongs to: the renamer of
  \<open>src/test/extended/util/test.go\<close> with its tables, and the suites of
  \<open>src/cmd/extended-platform-tests/e2e.go\<close> that match the labels.

  The regular expressions of the tables use literals, \<open>.\<close> and \<open>.*\<close> only and are kept in parsed form;
  an expression matches when it matches somewhere in the name. The order in which the source sorts
  the expressions of one label does not change what they match.
\<close>

section \<open>Patterns\<close>

datatype atom = Lit string | Dot | DotStar

type_synonym pattern = "atom list"

function match_here :: "pattern \<Rightarrow> string \<Rightarrow> bool" where
  "match_here [] s = True"
| "match_here (Lit l # p) s = (has_prefix s l \<and> match_here p (drop (length l) s))"
| "match_here (Dot # p) s = (case s of [] \<Rightarrow> False | c # s' \<Rightarrow> c \<noteq> newline \<and> match_here p s')"
| "match_here (DotStar # p) s =
     (match_here p s \<or> (case s of [] \<Rightarrow> False | c # s' \<Rightarrow> c \<noteq> newline \<and> match_here (DotStar # p) s'))"
  by pat_completeness auto
termination
  by (relation "measure (\<lambda>(p, s). length p + length s)") auto

fun re_match :: "pattern \<Rightarrow> string \<Rightarrow> bool" where
  "re_match p [] = match_here p []"
| "re_match p (c # s) = (match_here p (c # s) \<or> re_match p s)"

text \<open>\<open>regexp.MustCompile(strings.Join(items, "|"))\<close>; an empty list gives the expression that matches everything.\<close>

definition match_any :: "pattern list \<Rightarrow> string \<Rightarrow> bool" where
  "match_any ps s = (ps = [] \<or> list_ex (\<lambda>p. re_match p s) ps)"

text \<open>\<open>LiteralPrefix\<close> when the whole expression is a literal.\<close>

fun literal :: "pattern \<Rightarrow> string option" where
  "literal [Lit l] = Some l"
| "literal p = None"

section \<open>Tables\<close>

definition labels_Local :: "pattern list" where
  "labels_Local =
     [[Lit ''[Feature:ImagePrune]'']]"

definition labels_Disabled_Alpha :: "pattern list" where
  "labels_Disabled_Alpha =
     [[Lit ''[Feature:Initializers]''],
      [Lit ''[Feature:TTLAfterFinished]''],
      [Lit ''[Feature:GPUDevicePlugin]''],
      [Lit ''[sig-scheduling] GPUDevicePluginAcrossRecreate [Feature:Recreate]''],
      [Lit ''[Feature:ExpandCSIVolumes]''],
      [Lit ''[Feature:DynamicAudit]''],
      [Lit ''[NodeAlphaFeature:VolumeSubpathEnvExpansion]''],
      [Lit ''[Feature:IPv6DualStack'', DotStar, Lit '']''],
      [Lit ''version v1 should create Endpoints and EndpointSlices for Pods matching a Service'']]"

definition labels_Disabled_Unimplemented :: "pattern list" where
  "labels_Disabled_Unimplemented =
     [[Lit ''[Feature:Networking-IPv6]''],
      [Lit ''Monitoring''],
      [Lit ''Cluster level logging''],
      [Lit ''Kibana''],
      [Lit ''Ubernetes''],
      [Lit ''kube-ui''],
      [Lit ''Kubernetes Dashboard''],
      [Lit ''[Feature:ServiceLoadBalancer]''],
      [Lit ''[Feature:RuntimeClass]''],
      [Lit ''NetworkPolicy'', DotStar, Lit ''egress''],
      [Lit ''NetworkPolicy'', DotStar, Lit ''named port''],
      [Lit ''enforce egress policy''],
      [Lit ''should proxy to cadvisor'']]"

definition labels_Disabled_SpecialConfig :: "pattern list" where
  "labels_Disabled_SpecialConfig =
     [[Lit ''[Feature:ImageQuota]''],
      [Lit ''[Feature:Audit]''],
      [Lit ''[Feature:LocalStorageCapacityIsolation]''],
      [Lit ''[sig-cluster-lifecycle]''],
      [Lit ''[sig-cloud-provider-gcp]''],
      [Lit ''[Feature:StatefulUpgrade]''],
      [Lit ''kube-dns-autoscaler''],
      [Lit ''should check if Kubernetes master services is included in cluster-info''],
      [Lit ''DNS configMap''],
      [Lit ''authentication: OpenLDAP''],
      [Lit ''NodeProblemDetector''],
      [Lit ''Advanced Audit should audit API calls''],
      [Lit ''Firewall rule should have correct firewall rules for e2e cluster'']]"

definition labels_Disabled_Broken :: "pattern list" where
  "labels_Disabled_Broken =
     [[Lit ''mount an API token into pods''],
      [Lit ''ServiceAccounts should ensure a single API token exists''],
      [Lit ''unchanging, static URL paths for kubernetes api services''],
      [Lit ''Simple pod should handle in-cluster config''],
      [Lit ''Services should be able to up and down services''],
      [Lit ''Network should set TCP CLOSE_WAIT timeout''],
      [Lit ''Services should be able to create a functioning NodePort service''],
      [Lit ''[NodeFeature:Sysctls]''],
      [Lit ''should check kube-proxy urls''],
      [Lit ''SSH''],
      [Lit ''should implement service'', Dot, Lit ''kubernetes'', Dot, Lit ''io/service-proxy-name''],
      [Lit ''should idle the service and DeploymentConfig properly''],
      [Lit ''should answer endpoint and wildcard queries for the cluster''],
      [Lit ''should allow ingress access on one named port''],
      [Lit ''ClusterDns [Feature:Example] should create pod that uses dns''],
      [Lit ''PreemptionExecutionPath runs ReplicaSets to verify preemption running path''],
      [Lit ''TaintBasedEvictions''],
      [Lit ''recreate nodes and ensure they function upon restart''],
      [Lit ''[Driver: iscsi]''],
      [Lit ''[Feature:VolumeSnapshotDataSource]''],
      [Lit ''SchedulerPreemption''],
      [Lit ''when the NodeLease feature is enabled''],
      [Lit ''RuntimeClass should reject''],
      [Lit ''should run a Pod requesting a RuntimeClass with a configured handler''],
      [Lit ''should reject a Pod requesting a RuntimeClass with conflicting node selector''],
      [Lit ''should run a Pod requesting a RuntimeClass with scheduling''],
      [Lit ''Services should implement service'', Dot, Lit ''kubernetes'', Dot, Lit ''io/headless''],
      [Lit ''should allow ingress access from updated pod'']]"

definition labels_Disabled_Unsupported :: "pattern list" where
  "labels_Disabled_Unsupported =
     [[Lit ''[Driver: rbd]''],
      [Lit ''[Driver: ceph]'']]"

definition labels_Slow :: "pattern list" where
  "labels_Slow =
     [[Lit ''[sig-scalability]''],
      [Lit ''should create and stop a working application''],
      [Lit ''[Feature:PerformanceDNS]''],
      [Lit ''should ensure that critical pod is scheduled in case there is no resources available''],
      [Lit ''validates that there exists conflict between pods with same hostPort and protocol but one using 0.0.0.0 hostIP'']]"

definition labels_Flaky :: "pattern list" where
  "labels_Flaky =
     [[Lit ''Job should run a job to completion when tasks sometimes fail and are not locally restarted''],
      [Lit ''openshift mongodb replication creating from a template''],
      [Lit ''[Feature:HPA] Horizontal pod autoscaling (scale resource: CPU) [sig-autoscaling] ReplicationController light Should scale from 1 pod to 2 pods'']]"

definition labels_Serial :: "pattern list" where
  "labels_Serial =
     [[Lit ''[Disruptive]''],
      [Lit ''[Exclusive]''],
      [Lit ''[Feature:Performance]''],
      [Lit ''[Feature:ManualPerformance]''],
      [Lit ''[Feature:HighDensityPerformance]''],
      [Lit ''Service endpoints latency''],
      [Lit ''Clean up pods on node''],
      [Lit ''should allow starting 95 pods per node''],
      [Lit ''DynamicProvisioner should test that deleting a claim before the volume is provisioned deletes the volume''],
      [Lit ''Multi-AZ Clusters should spread the pods''],
      [Lit ''Should be able to support the 1.7 Sample API Server using the current Aggregator''],
      [Lit ''[Feature:HPA] Horizontal pod autoscaling (scale resource: CPU) [sig-autoscaling] ReplicationController light Should scale from 1 pod to 2 pods'']]"

definition labels_Skipped_azure :: "pattern list" where
  "labels_Skipped_azure =
     [[Lit ''Networking should provide Internet connection for containers''],
      [Lit ''[sig-storage] In-tree Volumes [Driver: azure] [Testpattern: Inline-volume''],
      [Lit ''[sig-storage] In-tree Volumes [Driver: azure] [Testpattern: Pre-provisioned PV'']]"

definition labels_Skipped_gce :: "pattern list" where
  "labels_Skipped_gce =
     [[Lit ''[sig-scheduling] Multi-AZ Cluster Volumes [sig-storage] should only be allowed to provision PDs in zones where nodes exist''],
      [Lit ''[k8s'', Dot, Lit ''io] [sig-node] crictl should be able to run crictl on the node''],
      [Lit ''[sig-storage] Flexvolumes should be mountable''],
      [Lit ''[sig-storage] Detaching volumes should not work when mount is in progress''],
      [Lit ''[sig-auth] Metadata Concealment should run a check-metadata-concealment job to completion''],
      [Lit ''[sig-api-machinery] AdmissionWebhook Should be able to deny pod and configmap creation''],
      [Lit ''[sig-storage] CSI Volumes [Driver: pd'', Dot, Lit ''csi'', Dot, Lit ''storage'', Dot, Lit ''gke'', Dot, Lit ''io][Serial]''],
      [Lit ''[sig-storage] CSI Volumes CSI Topology test using GCE PD driver [Serial]''],
      [Lit ''gce-localssd-scsi-fs''],
      [Lit ''[HPA] Horizontal pod autoscaling (scale resource: Custom Metrics from Stackdriver)'']]"

definition labels_Skipped_openstack :: "pattern list" where
  "labels_Skipped_openstack =
     [[Lit ''[sig-network] Networking Granular Checks: Services should function for node-Service''],
      [Lit ''[sig-network] Networking Granular Checks: Services should function for pod-Service''],
      [Lit ''[sig-network] Networking Granular Checks: Services should function for endpoint-Service'']]"

definition labels_Skipped_Network_OpenShiftSdn :: "pattern list" where
  "labels_Skipped_Network_OpenShiftSdn =
     [[Lit ''NetworkPolicy between server and client should allow egress access on one named port'']]"

definition labels_Skipped_Network_OpenShiftSdn_Multitenant :: "pattern list" where
  "labels_Skipped_Network_OpenShiftSdn_Multitenant =
     [[Lit ''[Feature:NetworkPolicy]''],
      [Lit ''[sig-network] Services should preserve source pod IP for traffic thru service cluster IP'']]"

definition labels_Skipped_Network_OVNKubernetes :: "pattern list" where
  "labels_Skipped_Network_OVNKubernetes =
     [[Lit ''[sig-network] Networking Granular Checks: Services should function for client IP based session affinity: http''],
      [Lit ''[sig-network] Networking Granular Checks: Services should function for client IP based session affinity: udp''],
      [Lit ''[sig-network] Services should be able to switch session affinity for NodePort service''],
      [Lit ''[sig-network] Services should be able to switch session affinity for service with type clusterIP''],
      [Lit ''[sig-network] Services should have session affinity work for NodePort service''],
      [Lit ''[sig-network] Services should have session affinity work for service with type clusterIP''],
      [Lit ''[sig-network] Services should allow pods to hairpin back to themselves through services''],
      [Lit ''[sig-network] Networking Granular Checks: Services should function for endpoint-Service''],
      [Lit ''[sig-network] Services should be rejected when no endpoints exist'']]"

definition labels_Suite_openshift_scalability :: "pattern list" where
  "labels_Suite_openshift_scalability =
     []"

definition labels_Suite_openshift_test_cmd :: "pattern list" where
  "labels_Suite_openshift_test_cmd =
     [[Lit ''[Suite:openshift/test-cmd]'']]"

definition labels_Suite_openshift_csi :: "pattern list" where
  "labels_Suite_openshift_csi =
     [[Lit ''External Storage [Driver:'']]"

definition testMaps :: "(string \<times> pattern list) list" where
  "testMaps =
     [(''[Local]'', labels_Local),
      (''[Disabled:Alpha]'', labels_Disabled_Alpha),
      (''[Disabled:Unimplemented]'', labels_Disabled_Unimplemented),
      (''[Disabled:SpecialConfig]'', labels_Disabled_SpecialConfig),
      (''[Disabled:Broken]'', labels_Disabled_Broken),
      (''[Disabled:Unsupported]'', labels_Disabled_Unsupported),
      (''[Slow]'', labels_Slow),
      (''[Flaky]'', labels_Flaky),
      (''[Serial]'', labels_Serial),
      (''[Skipped:azure]'', labels_Skipped_azure),
      (''[Skipped:gce]'', labels_Skipped_gce),
      (''[Skipped:openstack]'', labels_Skipped_openstack),
      (''[Skipped:Network/OpenShiftSdn]'', labels_Skipped_Network_OpenShiftSdn),
      (''[Skipped:Network/OpenShiftSdn/Multitenant]'', labels_Skipped_Network_OpenShiftSdn_Multitenant),
      (''[Skipped:Network/OVNKubernetes]'', labels_Skipped_Network_OVNKubernetes),
      (''[Suite:openshift/scalability]'', labels_Suite_openshift_scalability),
      (''[Suite:openshift/test-cmd]'', labels_Suite_openshift_test_cmd),
      (''[Suite:openshift/csi]'', labels_Suite_openshift_csi)]"

definition excludedTests :: "pattern list" where
  "excludedTests =
     [[Lit ''[Disabled:''], [Lit ''[Disruptive]''], [Lit ''[Exclusive]''], [Lit ''[Skipped]''], [Lit ''[Slow]''],
      [Lit ''[Flaky]''], [Lit ''[local]''], [Lit ''[Suite:openshift/test-cmd]'']]"

text \<open>\<open>labelExcludes\<close> is empty.\<close>

definition labelExcludes :: "(string \<times> pattern list) list" where
  "labelExcludes = []"

section \<open>The renamer\<close>

record ginkgoTestRenamer =
  allLabels :: "string list"
  stringMatches :: "string \<Rightarrow> string list"
  re_matches :: "string \<Rightarrow> pattern list option"
  re_excludes :: "string \<Rightarrow> pattern list option"
  excludedTestsFilter :: "pattern list"

definition literals :: "pattern list \<Rightarrow> string list" where
  "literals items = map the (filter (\<lambda>l. l \<noteq> None) (map literal items))"

definition remaining :: "pattern list \<Rightarrow> pattern list" where
  "remaining items = filter (\<lambda>p. literal p = None) items"

text \<open>
  The provider and the networks are put into expressions unquoted. The names that the program itself chooses and the
  network types of the API have no special characters, so they are taken to be literals; a provider given by
  the user that is not a valid expression makes \<open>MustCompile\<close> panic, which is not modelled. The exclusions of the provider
  and of the networks are also appended to the global list \<open>excludedTests\<close>; a process makes one renamer only.
\<close>

definition newGinkgoTestRenamerFromGlobals :: "string \<Rightarrow> string list \<Rightarrow> ginkgoTestRenamer" where
  "newGinkgoTestRenamerFromGlobals provider networkSkips =
     \<lparr>allLabels = sort_by str_less (map fst testMaps),
      stringMatches = (\<lambda>label. case map_of testMaps label of None \<Rightarrow> [] | Some items \<Rightarrow> literals items),
      re_matches = (\<lambda>label. case map_of testMaps label of
          None \<Rightarrow> None
        | Some items \<Rightarrow> let remain = remaining items in if length remain > 0 then Some remain else None),
      re_excludes = map_of labelExcludes,
      excludedTestsFilter = excludedTests
        @ (if provider \<noteq> [] then [[Lit (''[Skipped:'' @ provider @ '']'')]] else [])
        @ map (\<lambda>network. [Lit (''[Skipped:Network/'' @ network @ '']'')]) networkSkips\<rparr>"

text \<open>The network of the cluster as the program reads it: the output of \<open>kubectl\<close>, or nothing on an error.\<close>

definition getNetworkSkips :: "string go_result \<Rightarrow> string list" where
  "getNetworkSkips out = (case out of Inl e \<Rightarrow> [] | Inr o' \<Rightarrow> str_split o' '' '')"

record TestNode =
  node_Text :: string
  node_FileName :: string

definition has_label :: "ginkgoTestRenamer \<Rightarrow> string \<Rightarrow> string \<Rightarrow> bool" where
  "has_label r name label =
     (list_ex (str_contains name) (stringMatches r label)
      \<or> (case re_matches r label of Some ps \<Rightarrow> match_any ps name | None \<Rightarrow> False))"

definition label_excluded :: "ginkgoTestRenamer \<Rightarrow> string \<Rightarrow> string \<Rightarrow> bool" where
  "label_excluded r name label = (case re_excludes r label of Some ps \<Rightarrow> match_any ps name | None \<Rightarrow> False)"

text \<open>One pass over the labels: the number added, the labels so far, and the name.\<close>

fun label_pass :: "ginkgoTestRenamer \<Rightarrow> string list \<Rightarrow> nat \<Rightarrow> string \<Rightarrow> string \<Rightarrow> nat \<times> string \<times> string" where
  "label_pass r [] cnt labels name = (cnt, labels, name)"
| "label_pass r (label # ls) cnt labels name =
     (if str_contains name label then label_pass r ls cnt labels name
      else if has_label r name label then
        (if label_excluded r name label then label_pass r ls cnt labels name
         else label_pass r ls (cnt + 1) (labels @ '' '' @ label) (name @ '' '' @ label))
      else label_pass r ls cnt labels name)"

text \<open>The labels that a name does not have yet.\<close>

definition missing :: "ginkgoTestRenamer \<Rightarrow> string \<Rightarrow> string set" where
  "missing r name = {l \<in> set (allLabels r). \<not> str_contains name l}"

lemma label_pass_grows: "label_pass r ls cnt labels name = (cnt', labels', name') \<Longrightarrow> \<exists>t. name' = name @ t \<and> labels' = labels @ t"
proof (induction r ls cnt labels name rule: label_pass.induct)
  case (2 r label ls cnt labels name)
  then show ?case by (auto split: if_splits)
qed auto

lemma label_pass_added:
  "label_pass r ls cnt labels name = (cnt', labels', name') \<Longrightarrow> cnt' \<noteq> cnt \<Longrightarrow>
    \<exists>l \<in> set ls. \<not> str_contains name l \<and> str_contains name' l"
proof (induction r ls cnt labels name rule: label_pass.induct)
  case (2 r label ls cnt labels name)
  show ?case
  proof (cases "\<not> str_contains name label \<and> has_label r name label \<and> \<not> label_excluded r name label")
    case True
    with "2.prems"(1) have "label_pass r ls (cnt + 1) (labels @ '' '' @ label) (name @ '' '' @ label) = (cnt', labels', name')"
      by simp
    from label_pass_grows [OF this] obtain t where "name' = (name @ '' '') @ label @ t" by auto
    then have "str_contains name' label" unfolding str_contains_iff by blast
    with True show ?thesis by auto
  next
    case False
    with 2 show ?thesis by (auto split: if_splits)
  qed
qed simp

lemma missing_decreases:
  assumes "label_pass r (allLabels r) 0 labels name = (cnt', labels', name')" and "cnt' \<noteq> 0"
  shows "card (missing r name') < card (missing r name)"
proof (rule psubset_card_mono)
  show "finite (missing r name)" by (simp add: missing_def)
  obtain t where t: "name' = name @ t" using label_pass_grows [OF assms(1)] by blast
  obtain l where "l \<in> set (allLabels r)" "\<not> str_contains name l" "str_contains name' l"
    using label_pass_added [OF assms] by blast
  then have "l \<in> missing r name" "l \<notin> missing r name'" by (simp_all add: missing_def)
  moreover have "missing r name' \<subseteq> missing r name"
    by (auto simp: missing_def t intro: str_contains_appendL)
  ultimately show "missing r name' \<subset> missing r name" by blast
qed

text \<open>The loop that repeats the pass until nothing is added.\<close>

function saturate :: "ginkgoTestRenamer \<Rightarrow> string \<Rightarrow> string \<Rightarrow> string \<times> string" where
  "saturate r labels name =
     (let (cnt, labels', name') = label_pass r (allLabels r) 0 labels name in
      if cnt = 0 then (labels', name') else saturate r labels' name')"
  by pat_completeness auto
termination
  by (relation "measure (\<lambda>(r, labels, name). card (missing r name))") (auto dest: missing_decreases [OF sym])

declare saturate.simps [simp del]

definition SetText :: "string \<Rightarrow> TestNode \<Rightarrow> TestNode" where
  "SetText text node = node\<lparr>node_Text := text\<rparr>"

definition conformance_tag :: "string \<Rightarrow> string" where
  "conformance_tag name =
     (let isSerial = str_contains name ''[Serial]''; isConformance = str_contains name ''[Conformance]'' in
      if isSerial \<and> isConformance then '' [Suite:openshift/conformance/serial/minimal]''
      else if isSerial then '' [Suite:openshift/conformance/serial]''
      else if isConformance then '' [Suite:openshift/conformance/parallel/minimal]''
      else '' [Suite:openshift/conformance/parallel]'')"

definition maybeRenameTest :: "ginkgoTestRenamer \<Rightarrow> string \<Rightarrow> TestNode \<Rightarrow> TestNode" where
  "maybeRenameTest r name node =
     (let (labels, name) = saturate r [] name;
          node = (if \<not> match_any (excludedTestsFilter r) name
                  then SetText (node_Text node @ conformance_tag name) node else node);
          node = (if str_contains (node_FileName node) ''/origin/test/'' \<and> \<not> str_contains (node_Text node) ''[Suite:openshift''
                  then SetText (node_Text node @ '' [Suite:openshift]'') node else node);
          node = (if str_contains (node_FileName node) ''/kubernetes/test/e2e/''
                  then SetText (node_Text node @ '' [Suite:k8s]'') node else node)
      in SetText (node_Text node @ labels) node)"

end
