(* ===== verification/Static_Suites.thy ===== *)
theory Static_Suites
  imports Test_Case Go_Time
begin

text \<open>
  The suites of the command \<open>run\<close>, from \<open>src/cmd/extended-platform-tests/e2e.go\<close>.
\<close>

section \<open>The suites\<close>

abbreviation has :: "string \<Rightarrow> string \<Rightarrow> bool" where
  "has name l \<equiv> str_contains name l"

abbreviation suite0 :: "string \<Rightarrow> string \<Rightarrow> (string \<Rightarrow> bool) \<Rightarrow> TestSuite" where
  "suite0 name desc m \<equiv> \<lparr>ts_Name = name, ts_Description = desc, ts_Matches = m, ts_Count = 0, ts_Parallelism = 0,
     ts_MaximumAllowedFlakes = 0, ts_TestTimeout = 0\<rparr>"

text \<open>\<open>longDesc\<close> is the formatter of the command templates; the indentation of the descriptions is left out.\<close>

definition staticSuites :: "(string \<Rightarrow> string) \<Rightarrow> TestSuite list" where
  "staticSuites longDesc =
     [(suite0 ''openshift/conformance''
         (longDesc ''Tests that ensure an OpenShift cluster and components are working properly.'')
         (\<lambda>name. has name ''[Suite:openshift/conformance/''))\<lparr>ts_Parallelism := 30\<rparr>,
      (suite0 ''openshift/conformance/parallel''
         (longDesc ''Only the portion of the openshift/conformance test suite that run in parallel.'')
         (\<lambda>name. has name ''[Suite:openshift/conformance/parallel''))\<lparr>ts_Parallelism := 30, ts_MaximumAllowedFlakes := 15\<rparr>,
      suite0 ''openshift/conformance/serial''
         (longDesc ''Only the portion of the openshift/conformance test suite that run serially.'')
         (\<lambda>name. has name ''[Suite:openshift/conformance/serial''),
      (suite0 ''openshift/disruptive'' (longDesc ''The disruptive test suite.'')
         (\<lambda>name. has name ''[Disruptive]'' \<and> has name ''[dr-quorum-restore]''))\<lparr>ts_TestTimeout := 60 * Minute\<rparr>,
      (suite0 ''kubernetes/conformance'' (longDesc ''The default Kubernetes conformance suite.'')
         (\<lambda>name. has name ''[Suite:k8s]'' \<and> has name ''[Conformance]''))\<lparr>ts_Parallelism := 30\<rparr>,
      (suite0 ''openshift/build'' (longDesc ''Tests that exercise the OpenShift build functionality.'')
         (\<lambda>name. \<not> has name ''[Disabled'' \<and> has name ''[Feature:Builds]''))
         \<lparr>ts_Parallelism := 7, ts_MaximumAllowedFlakes := 3, ts_TestTimeout := 60 * Minute\<rparr>,
      suite0 ''openshift/image-registry'' (longDesc ''Tests that exercise the OpenShift image-registry functionality.'')
         (\<lambda>name. has name ''[registry]'' \<and> \<not> has name ''[Local]''),
      (suite0 ''openshift/image-ecosystem''
         (longDesc ''Tests that exercise language and tooling images shipped as part of OpenShift.'')
         (\<lambda>name. has name ''[image_ecosystem]'' \<and> \<not> has name ''[Local]''))\<lparr>ts_Parallelism := 7, ts_TestTimeout := 20 * Minute\<rparr>,
      (suite0 ''openshift/jenkins-e2e''
         (longDesc ''Tests that exercise the OpenShift / Jenkins integrations provided by the OpenShift Jenkins image/plugins and the Pipeline Build Strategy.'')
         (\<lambda>name. has name ''[Feature:Jenkins]''))\<lparr>ts_Parallelism := 4, ts_TestTimeout := 20 * Minute\<rparr>,
      (suite0 ''openshift/scalability''
         (longDesc ''Tests that verify the scalability characteristics of the cluster. Currently this is focused on core performance behaviors and preventing regressions.'')
         (\<lambda>name. has name ''[Suite:openshift/scalability]''))\<lparr>ts_Parallelism := 1, ts_TestTimeout := 20 * Minute\<rparr>,
      suite0 ''openshift/conformance-excluded''
         (longDesc ''Run only tests that are excluded from conformance. Makes identifying omitted tests easier.'')
         (\<lambda>name. \<not> has name ''[Suite:openshift/conformance/''),
      suite0 ''openshift/test-cmd'' (longDesc ''Run only tests for test-cmd.'')
         (\<lambda>name. has name ''[Suite:openshift/test-cmd]''),
      suite0 ''openshift/csi''
         (longDesc ''Run tests for an installed CSI driver. TEST_CSI_DRIVER_FILES env. variable must be set and it must be a comma separated list of CSI driver definition files. See https://github.com/kubernetes/kubernetes/blob/master/test/e2e/storage/external/README.md for required format of the files.'')
         (\<lambda>name. has name ''[Suite:openshift/csi'' \<and> \<not> has name ''[Disruptive]''),
      (suite0 ''openshift/network/stress''
         (longDesc ''This test suite repeatedly verifies the networking function of the cluster in parallel to find flakes.'')
         (\<lambda>name. has name ''[Suite:openshift/conformance/'' \<and> has name ''[sig-network]''))
         \<lparr>ts_Parallelism := 30, ts_Count := 15, ts_TestTimeout := 20 * Minute\<rparr>,
      suite0 ''all'' (longDesc ''Run all tests.'') (\<lambda>name. True)]"

text \<open>The suite that a name selects, as \<open>Options.Run\<close> looks it up, and whether it contains a test.\<close>

definition in_suite :: "string \<Rightarrow> string \<Rightarrow> bool" where
  "in_suite suite name = list_ex (\<lambda>s. ts_Name s = suite \<and> ts_Matches s name) (staticSuites id)"

end
