(* ===== verification/Suites.thy ===== *)
theory Suites
  imports Test_Renamer Static_Suites
begin

text \<open>
  How the renamer sorts every test into the static suites: labels are added until nothing changes, each at most once, and the conformance suites are
  disjoint and complementary to the suite of the excluded tests.
\<close>

section \<open>Containment and spaces\<close>

lemma has_prefix_space:
  "CHR '' '' \<notin> set p \<Longrightarrow> has_prefix (a @ CHR '' '' # b) p \<longleftrightarrow> has_prefix a p"
  by (induction a p rule: has_prefix.induct) auto

text \<open>A string without spaces that occurs in two strings joined by a space occurs in one of them.\<close>

lemma contains_space:
  assumes "CHR '' '' \<notin> set p" and "p \<noteq> []"
  shows "str_contains (a @ CHR '' '' # b) p \<longleftrightarrow> str_contains a p \<or> str_contains b p"
proof (induction a)
  case Nil
  have "\<not> has_prefix (CHR '' '' # b) p" using assms by (cases p) auto
  with assms(2) show ?case by simp
next
  case (Cons c a)
  have "has_prefix (c # a @ CHR '' '' # b) p \<longleftrightarrow> has_prefix (c # a) p"
    using has_prefix_space [OF assms(1), of "c # a" b] by simp
  with Cons show ?case by auto
qed

definition spaced :: "string list \<Rightarrow> string" where
  "spaced ls = concat (map (\<lambda>l. '' '' @ l) ls)"

lemma contains_spaced:
  assumes "CHR '' '' \<notin> set p" and "p \<noteq> []"
  shows "str_contains (a @ spaced ls) p \<longleftrightarrow> str_contains a p \<or> list_ex (\<lambda>l. str_contains l p) ls"
proof (induction ls arbitrary: a)
  case (Cons l ls)
  have "a @ spaced (l # ls) = a @ CHR '' '' # (l @ spaced ls)" by (simp add: spaced_def)
  then have "str_contains (a @ spaced (l # ls)) p \<longleftrightarrow> str_contains a p \<or> str_contains (l @ spaced ls) p"
    by (simp only: contains_space [OF assms])
  then show ?case using Cons.IH [of l] by simp
qed (simp add: spaced_def)

section \<open>Saturation\<close>

lemma label_pass_count: "label_pass r ls cnt labels name = (cnt', labels', name') \<Longrightarrow> cnt \<le> cnt'"
  by (induction r ls cnt labels name rule: label_pass.induct) (auto split: if_splits)

lemma label_pass_fixed:
  "label_pass r ls cnt labels name = (cnt, labels', name') \<Longrightarrow> name' = name \<and> labels' = labels
    \<and> (\<forall>l \<in> set ls. str_contains name l \<or> \<not> has_label r name l \<or> label_excluded r name l)"
proof (induction ls)
  case (Cons l ls)
  then show ?case by (auto split: if_splits dest: label_pass_count)
qed simp

lemma label_pass_labels:
  "label_pass r ls cnt labels name = (cnt', labels', name') \<Longrightarrow>
    \<exists>new. set new \<subseteq> set ls \<and> labels' = labels @ spaced new \<and> name' = name @ spaced new \<and> distinct new
      \<and> (\<forall>l \<in> set new. \<not> str_contains name l)"
proof (induction r ls cnt labels name rule: label_pass.induct)
  case (1 r cnt labels name)
  then show ?case by (auto simp: spaced_def intro: exI [of _ "[]"])
next
  case (2 r label ls cnt labels name)
  show ?case
  proof (cases "\<not> str_contains name label \<and> has_label r name label \<and> \<not> label_excluded r name label")
    case True
    with "2.prems" have "label_pass r ls (cnt + 1) (labels @ '' '' @ label) (name @ '' '' @ label) = (cnt', labels', name')"
      by simp
    from "2.IH"(3) [OF _ _ _ this] True obtain new where
      new: "set new \<subseteq> set ls" "labels' = (labels @ '' '' @ label) @ spaced new" "name' = (name @ '' '' @ label) @ spaced new"
        "distinct new" "\<forall>l \<in> set new. \<not> str_contains (name @ '' '' @ label) l" by blast
    have "label \<notin> set new" using new(5) str_contains_append [OF str_contains_self, of "name @ '' ''" label "[]"] by auto
    moreover have "\<forall>l \<in> set new. \<not> str_contains name l" using new(5) by (auto dest: str_contains_appendL)
    ultimately show ?thesis
      using new True by (intro exI [of _ "label # new"]) (auto simp: spaced_def)
  next
    case False
    then have "label_pass r (label # ls) cnt labels name = label_pass r ls cnt labels name" by auto
    with "2.prems" have "label_pass r ls cnt labels name = (cnt', labels', name')" by simp
    with False "2.IH" have "\<exists>new. set new \<subseteq> set ls \<and> labels' = labels @ spaced new \<and> name' = name @ spaced new
      \<and> distinct new \<and> (\<forall>l \<in> set new. \<not> str_contains name l)" by blast
    then show ?thesis by auto
  qed
qed

lemma saturate_spec:
  "saturate r labels name = (labels', name') \<Longrightarrow>
    (\<exists>new. set new \<subseteq> set (allLabels r) \<and> labels' = labels @ spaced new \<and> name' = name @ spaced new \<and> distinct new
      \<and> (\<forall>l \<in> set new. \<not> str_contains name l))
    \<and> (\<forall>l \<in> set (allLabels r). str_contains name' l \<or> \<not> has_label r name' l \<or> label_excluded r name' l)"
proof (induction r labels name rule: saturate.induct)
  case (1 r labels name)
  obtain cnt labels1 name1 where p: "label_pass r (allLabels r) 0 labels name = (cnt, labels1, name1)" by (metis prod_cases3)
  from label_pass_labels [OF p] obtain new1 where
    n1: "set new1 \<subseteq> set (allLabels r)" "labels1 = labels @ spaced new1" "name1 = name @ spaced new1" "distinct new1"
      "\<forall>l \<in> set new1. \<not> str_contains name l" by blast
  show ?case
  proof (cases "cnt = 0")
    case True
    then have eq: "labels' = labels1" "name' = name1" using "1.prems" p by (auto simp: saturate.simps [of r labels])
    moreover from p True have p0: "label_pass r (allLabels r) 0 labels name = (0, labels1, name1)" by simp
    ultimately show ?thesis using n1 label_pass_fixed [OF p0] by blast
  next
    case False
    then have "saturate r labels1 name1 = (labels', name')" using "1.prems" p by (simp add: saturate.simps [of r labels])
    from "1.IH" [OF p [symmetric] refl refl False this] obtain new2 where
      n2: "set new2 \<subseteq> set (allLabels r)" "labels' = labels1 @ spaced new2" "name' = name1 @ spaced new2" "distinct new2"
        "\<forall>l \<in> set new2. \<not> str_contains name1 l"
      and stable: "\<forall>l \<in> set (allLabels r). str_contains name' l \<or> \<not> has_label r name' l \<or> label_excluded r name' l"
      by blast
    have contained: "str_contains (name @ spaced new1) l" if "l \<in> set new1" for l
    proof -
      from that obtain xs ys where "new1 = xs @ l # ys" by (meson split_list)
      then have "name @ spaced new1 = (name @ spaced xs @ '' '') @ l @ spaced ys" by (simp add: spaced_def)
      then show ?thesis unfolding str_contains_iff by blast
    qed
    have "distinct (new1 @ new2)" using n1 n2 contained by auto
    moreover have "spaced (new1 @ new2) = spaced new1 @ spaced new2" by (simp add: spaced_def)
    moreover have "\<forall>l \<in> set new2. \<not> str_contains name l" using n2(5) n1(3) by (auto dest: str_contains_appendL)
    ultimately show ?thesis using n1 n2 stable by (intro conjI exI [of _ "new1 @ new2"]) auto
  qed
qed

section \<open>The stock renamer\<close>

abbreviation stock :: "string \<Rightarrow> string list \<Rightarrow> ginkgoTestRenamer" where
  "stock \<equiv> newGinkgoTestRenamerFromGlobals"

lemma stock_labels: "set (allLabels (stock provider networks)) = set (map fst testMaps)"
  by (simp add: newGinkgoTestRenamerFromGlobals_def del: set_map)

definition conformance :: string where "conformance = ''[Suite:openshift/conformance/''"
definition parallel :: string where "parallel = ''[Suite:openshift/conformance/parallel''"
definition serial :: string where "serial = ''[Suite:openshift/conformance/serial''"

lemma tags_no_space:
  "CHR '' '' \<notin> set conformance" "CHR '' '' \<notin> set parallel" "CHR '' '' \<notin> set serial"
  "conformance \<noteq> []" "parallel \<noteq> []" "serial \<noteq> []"
  by (simp_all add: conformance_def parallel_def serial_def)

lemma conformance_sub: "str_contains s parallel \<Longrightarrow> str_contains s conformance"
  "str_contains s serial \<Longrightarrow> str_contains s conformance"
proof -
  have "str_contains parallel conformance" "str_contains serial conformance" by code_simp+
  then show "str_contains s parallel \<Longrightarrow> str_contains s conformance"
    "str_contains s serial \<Longrightarrow> str_contains s conformance" by (blast intro: str_contains_trans)+
qed

lemma stock_labels_plain: "list_all (\<lambda>l. \<not> str_contains l conformance) (map fst testMaps)"
  by code_simp

text \<open>The tag that the renamer adds, as a list of labels.\<close>

definition tag_labels :: "ginkgoTestRenamer \<Rightarrow> string \<Rightarrow> string list" where
  "tag_labels r name = (if match_any (excludedTestsFilter r) name then [] else [tl (conformance_tag name)])"

lemma conformance_tag_spaced: "conformance_tag name = spaced [tl (conformance_tag name)]"
  by (simp add: conformance_tag_def spaced_def Let_def)

lemma renamed_text:
  assumes "saturate r [] name = (labels, sat)"
  shows "\<exists>extra. set extra \<subseteq> {''[Suite:openshift]'', ''[Suite:k8s]''}
    \<and> node_Text (maybeRenameTest r name node) = node_Text node @ spaced (tag_labels r sat @ extra) @ labels"
proof -
  let ?t = "node_Text node @ spaced (tag_labels r sat)"
  let ?e1 = "if str_contains (node_FileName node) ''/origin/test/'' \<and> \<not> str_contains ?t ''[Suite:openshift''
    then [''[Suite:openshift]''] else []"
  let ?e2 = "if str_contains (node_FileName node) ''/kubernetes/test/e2e/'' then [''[Suite:k8s]''] else []"
  have app: "spaced (xs @ ys) = spaced xs @ spaced ys" for xs ys by (simp add: spaced_def)
  have one: "spaced [''[Suite:openshift]''] = '' [Suite:openshift]''" "spaced [''[Suite:k8s]''] = '' [Suite:k8s]''" "spaced [] = []"
    by (simp_all add: spaced_def)
  have tag: "node_Text (if \<not> match_any (excludedTestsFilter r) sat
      then SetText (node_Text node @ conformance_tag sat) node else node) = ?t"
    using conformance_tag_spaced [of sat] by (simp add: tag_labels_def SetText_def one)
  have "node_Text (maybeRenameTest r name node) = node_Text node @ spaced (tag_labels r sat @ ?e1 @ ?e2) @ labels"
    using tag conformance_tag_spaced [of sat]
    by (auto simp: maybeRenameTest_def assms SetText_def app one tag_labels_def)
  then show ?thesis by (intro exI [of _ "?e1 @ ?e2"]) auto
qed

text \<open>
  C31: The loop of the renamer ends for every test name; it adds every label at most once and only labels
  that the name did not contain, and when it ends no label is missing: a label that the name does not
  contain is matched by none of its expressions (or the name is excluded from it).
\<close>
theorem labels_saturated:
  assumes "saturate r [] name = (labels, sat)"
  shows "(\<exists>new. labels = spaced new \<and> sat = name @ spaced new \<and> distinct new \<and> set new \<subseteq> set (allLabels r)
      \<and> list_all (\<lambda>l. \<not> str_contains name l) new)
    \<and> list_all (\<lambda>l. str_contains sat l \<or> \<not> has_label r sat l \<or> label_excluded r sat l) (allLabels r)"
  using saturate_spec [OF assms] by (auto simp: list_all_iff)

theorem labels_saturated_witness:
  "\<exists>new. snd (saturate (stock ''gce'' []) [] ''Kibana'') = ''Kibana'' @ spaced new \<and> distinct new"
  using labels_saturated [of "stock ''gce'' []" "''Kibana''" "fst (saturate (stock ''gce'' []) [] ''Kibana'')"
      "snd (saturate (stock ''gce'' []) [] ''Kibana'')"]
  by auto

lemma renamed_in_suites:
  assumes "name = pre @ node_Text node" and "\<not> str_contains name ''[Suite:openshift/conformance/''"
    and "saturate (stock provider networks) [] name = (labels, sat)"
  defines "final \<equiv> pre @ node_Text (maybeRenameTest (stock provider networks) name node)"
    and "excluded \<equiv> match_any (excludedTestsFilter (stock provider networks)) sat"
  shows "in_suite ''openshift/conformance'' final = (\<not> excluded)
    \<and> in_suite ''openshift/conformance-excluded'' final = excluded
    \<and> in_suite ''openshift/conformance/serial'' final = (\<not> excluded \<and> str_contains sat ''[Serial]'')
    \<and> in_suite ''openshift/conformance/parallel'' final = (\<not> excluded \<and> \<not> str_contains sat ''[Serial]'')"
proof -
  let ?r = "stock provider networks"
  obtain new where new: "set new \<subseteq> set (map fst testMaps)" "labels = spaced new"
    using saturate_spec [OF assms(3)] stock_labels by fastforce
  obtain extra where extra: "set extra \<subseteq> {''[Suite:openshift]'', ''[Suite:k8s]''}"
    "node_Text (maybeRenameTest ?r name node) = node_Text node @ spaced (tag_labels ?r sat @ extra) @ labels"
    using renamed_text [OF assms(3)] by blast
  have fin: "final = name @ spaced ((tag_labels ?r sat @ extra) @ new)"
    using assms(1) extra(2) new(2) by (simp add: final_def spaced_def)
  have name0: "\<not> str_contains name conformance" using assms(2) by (simp add: conformance_def)
  have "\<not> str_contains ''[Suite:openshift]'' conformance" "\<not> str_contains ''[Suite:k8s]'' conformance" by code_simp+
  then have extra0: "\<not> str_contains l conformance" if "l \<in> set extra \<union> set new" for l
    using that extra(1) new(1) stock_labels_plain by (auto simp: list_all_iff)
  have only_tag: "str_contains final p \<longleftrightarrow> list_ex (\<lambda>l. str_contains l p) (tag_labels ?r sat)"
    if "p \<in> {conformance, parallel, serial}" for p
  proof -
    have p: "CHR '' '' \<notin> set p" "p \<noteq> []" using that tags_no_space by auto
    have "str_contains s p \<Longrightarrow> str_contains s conformance" for s using that conformance_sub by auto
    then have "\<not> str_contains name p" "\<not> list_ex (\<lambda>l. str_contains l p) (extra @ new)"
      using name0 extra0 by (auto simp: list_ex_iff)
    then show ?thesis unfolding fin contains_spaced [OF p] by simp
  qed
  have tag: "str_contains (tl (conformance_tag sat)) conformance"
    "str_contains (tl (conformance_tag sat)) serial = str_contains sat ''[Serial]''"
    "str_contains (tl (conformance_tag sat)) parallel = (\<not> str_contains sat ''[Serial]'')"
    by (simp_all add: conformance_tag_def conformance_def serial_def parallel_def Let_def)
  have "in_suite ''openshift/conformance'' final = str_contains final conformance"
    "in_suite ''openshift/conformance-excluded'' final = (\<not> str_contains final conformance)"
    "in_suite ''openshift/conformance/serial'' final = str_contains final serial"
    "in_suite ''openshift/conformance/parallel'' final = str_contains final parallel"
    by (simp_all add: in_suite_def staticSuites_def conformance_def serial_def parallel_def)
  then show ?thesis using only_tag tag by (auto simp: tag_labels_def excluded_def)
qed

text \<open>
  C10: After renaming, a test is in exactly one of the suites \<open>openshift/conformance\<close> and
  \<open>openshift/conformance-excluded\<close>: in the second exactly when the labelled name matches an exclusion.
  A test in the first is in exactly one of its parallel and its serial part, in the serial part
  exactly when the labelled name has \<open>[Serial]\<close>. (The framework gives the renamer the full name, which ends
  with the text of the node, and the name has no conformance tag yet.)
\<close>
theorem conformance_partition:
  assumes "name = pre @ node_Text node" and "\<not> str_contains name ''[Suite:openshift/conformance/''"
    and "saturate (stock provider networks) [] name = (labels, sat)"
  defines "final \<equiv> pre @ node_Text (maybeRenameTest (stock provider networks) name node)"
    and "excluded \<equiv> match_any (excludedTestsFilter (stock provider networks)) sat"
  shows "in_suite ''openshift/conformance'' final = (\<not> excluded)
    \<and> in_suite ''openshift/conformance-excluded'' final = excluded
    \<and> in_suite ''openshift/conformance/serial'' final = (\<not> excluded \<and> str_contains sat ''[Serial]'')
    \<and> in_suite ''openshift/conformance/parallel'' final = (\<not> excluded \<and> \<not> str_contains sat ''[Serial]'')"
  unfolding final_def excluded_def by (rule renamed_in_suites [OF assms(1-3)])

theorem conformance_partition_witness:
  "in_suite ''openshift/conformance/parallel''
     (node_Text (maybeRenameTest (stock '''' []) ''x'' \<lparr>node_Text = ''x'', node_FileName = []\<rparr>))"
proof -
  have "saturate (stock '''' []) [] ''x'' = ([], ''x'')" by code_simp
  moreover have "\<not> match_any (excludedTestsFilter (stock '''' [])) ''x''" by code_simp
  ultimately show ?thesis
    using conformance_partition [of "''x''" "[]" "\<lparr>node_Text = ''x'', node_FileName = []\<rparr>" "''''" "[]" "[]" "''x''"]
    by simp
qed

section \<open>Exclusion by network\<close>

lemma re_match_literal: "re_match [Lit l] s = str_contains s l"
proof (induction s)
  case Nil
  show ?case by (cases l) simp_all
qed simp

text \<open>The exclusions play no part in the labelling.\<close>

lemma label_pass_filter: "label_pass (r\<lparr>excludedTestsFilter := x\<rparr>) ls cnt labels name = label_pass r ls cnt labels name"
  by (induction ls arbitrary: cnt labels name) (simp_all add: has_label_def label_excluded_def)

lemma saturate_filter: "saturate (r\<lparr>excludedTestsFilter := x\<rparr>) labels name = saturate r labels name"
proof (induction r labels name rule: saturate.induct)
  case (1 r labels name)
  obtain cnt labels1 name1 where p: "label_pass r (allLabels r) 0 labels name = (cnt, labels1, name1)" by (metis prod_cases3)
  with 1 [OF p [symmetric] refl refl] show ?case
    by (simp add: saturate.simps [of r labels] saturate.simps [of "r\<lparr>excludedTestsFilter := x\<rparr>" labels] label_pass_filter)
qed

lemma stock_networks:
  "stock provider networks = (stock provider [])\<lparr>excludedTestsFilter := excludedTestsFilter (stock provider networks)\<rparr>"
  by (simp add: newGinkgoTestRenamerFromGlobals_def)

lemma saturate_networks: "saturate (stock provider networks) labels name = saturate (stock provider []) labels name"
  by (subst stock_networks) (rule saturate_filter)

lemma excluded_networks:
  "match_any (excludedTestsFilter (stock provider networks)) s \<longleftrightarrow> match_any (excludedTestsFilter (stock provider [])) s
    \<or> list_ex (\<lambda>network. str_contains s (''[Skipped:Network/'' @ network @ '']'')) networks"
proof -
  have "list_ex (\<lambda>p. re_match p s) (map (\<lambda>network. [Lit (''[Skipped:Network/'' @ network @ '']'')]) networks)
      = list_ex (\<lambda>network. str_contains s (''[Skipped:Network/'' @ network @ '']'')) networks"
    by (simp only: list_ex_iff set_map bex_simps re_match_literal)
  then show ?thesis
    by (simp add: match_any_def newGinkgoTestRenamerFromGlobals_def excludedTests_def del: re_match.simps append.simps)
qed

lemma maybeRename_cong:
  assumes "saturate r [] name = saturate r' [] name"
    and "match_any (excludedTestsFilter r) (snd (saturate r [] name)) = match_any (excludedTestsFilter r') (snd (saturate r [] name))"
  shows "maybeRenameTest r name node = maybeRenameTest r' name node"
  using assms by (simp add: maybeRenameTest_def case_prod_beta)

lemma labels_not_sdn: "list_all (\<lambda>l. \<not> str_contains l ''[Skipped:Network/OpenShiftSDN'') (map fst testMaps)"
  by code_simp

lemma label_excludes_none: "label_excluded (stock provider networks) name l = False"
  by (simp add: label_excluded_def newGinkgoTestRenamerFromGlobals_def labelExcludes_def)

text \<open>
  C32: The exclusion by network works exactly for the labels that spell the network as the cluster reports it. A test that the
  table labels with \<open>[Skipped:Network/x]\<close> is in the excluded suite on a cluster that reports the network \<open>x\<close>. But the table
  has no label for the type \<open>OpenShiftSDN\<close> or one of its modes (it spells \<open>OpenShiftSdn\<close>): on such a cluster every test that
  does not carry that label in its own name is renamed exactly as if no network were known.
\<close>
theorem network_exclusion:
  fixes name pre x provider :: string and node :: TestNode and report :: "string go_result"
  assumes "name = pre @ node_Text node" and "\<not> str_contains name ''[Suite:openshift/conformance/''"
  defines "networks \<equiv> getNetworkSkips report"
  defines "renamed \<equiv> maybeRenameTest (newGinkgoTestRenamerFromGlobals provider networks) name node"
  shows "(x \<in> set networks \<longrightarrow> ''[Skipped:Network/'' @ x @ '']'' \<in> set (map fst testMaps)
      \<longrightarrow> list_ex (str_contains name) (stringMatches (newGinkgoTestRenamerFromGlobals provider networks) (''[Skipped:Network/'' @ x @ '']''))
      \<longrightarrow> in_suite ''openshift/conformance-excluded'' (pre @ node_Text renamed) \<and> \<not> in_suite ''openshift/conformance'' (pre @ node_Text renamed))
    \<and> (list_all (\<lambda>n. has_prefix n ''OpenShiftSDN'') networks \<longrightarrow> \<not> str_contains name ''[Skipped:Network/OpenShiftSDN''
      \<longrightarrow> renamed = maybeRenameTest (newGinkgoTestRenamerFromGlobals provider []) name node)"
proof -
  let ?r = "stock provider networks" and ?l = "''[Skipped:Network/'' @ x @ '']''" and ?p = "''[Skipped:Network/OpenShiftSDN''"
  obtain labels sat where sat: "saturate ?r [] name = (labels, sat)" by fastforce
  from saturate_spec [OF sat] stock_labels obtain new where
    new: "set new \<subseteq> set (map fst testMaps)" "sat = name @ spaced new" by fastforce
  note stable = conjunct2 [OF saturate_spec [OF sat], unfolded stock_labels]
  have "match_any (excludedTestsFilter ?r) sat"
    if "x \<in> set networks" "?l \<in> set (map fst testMaps)" "list_ex (str_contains name) (stringMatches ?r ?l)"
  proof -
    have "list_ex (str_contains sat) (stringMatches ?r ?l)"
      using that(3) unfolding new(2) list_ex_iff by (blast intro: str_contains_appendL)
    then have "has_label ?r sat ?l" unfolding has_label_def by (rule disjI1)
    then have "str_contains sat ?l" using stable that(2) label_excludes_none by blast
    then show ?thesis using that(1) by (auto simp: excluded_networks [of provider networks] list_ex_iff simp del: append.simps)
  qed
  moreover have "renamed = maybeRenameTest (stock provider []) name node"
    if sdn: "list_all (\<lambda>n. has_prefix n ''OpenShiftSDN'') networks" and no: "\<not> str_contains name ?p"
  proof -
    have "\<not> str_contains sat ?p"
      using no new(1) labels_not_sdn unfolding new(2) contains_spaced [of ?p, simplified]
      by (auto simp: list_ex_iff list_all_iff simp del: str_contains.simps)
    moreover have "str_contains (''[Skipped:Network/'' @ n @ '']'') ?p" if "has_prefix n ''OpenShiftSDN''" for n
    proof -
      from that obtain t where "n = ''OpenShiftSDN'' @ t" by (auto simp: has_prefix_iff)
      then have "''[Skipped:Network/'' @ n @ '']'' = [] @ ?p @ (t @ '']'')" by simp
      then show ?thesis unfolding str_contains_iff by blast
    qed
    ultimately have "\<not> list_ex (\<lambda>n. str_contains sat (''[Skipped:Network/'' @ n @ '']'')) networks"
      using sdn unfolding list_ex_iff list_all_iff by (blast intro: str_contains_trans)
    then have "match_any (excludedTestsFilter ?r) sat = match_any (excludedTestsFilter (stock provider [])) sat"
      unfolding excluded_networks [of provider networks] by blast
    then show ?thesis
      unfolding renamed_def by (intro maybeRename_cong saturate_networks) (simp only: sat snd_conv)
  qed
  ultimately show ?thesis
    using renamed_in_suites [OF assms(1,2) sat] unfolding renamed_def by blast
qed

theorem network_exclusion_witness:
  "in_suite ''openshift/conformance-excluded'' (node_Text (maybeRenameTest (stock [] (getNetworkSkips (Inr ''OVNKubernetes'')))
     ''[sig-network] Services should be rejected when no endpoints exist''
     \<lparr>node_Text = ''[sig-network] Services should be rejected when no endpoints exist'', node_FileName = []\<rparr>))
   \<and> maybeRenameTest (stock [] (getNetworkSkips (Inr ''OpenShiftSDN OpenShiftSDN/Multitenant''))) ''[Feature:NetworkPolicy]''
       \<lparr>node_Text = ''[Feature:NetworkPolicy]'', node_FileName = []\<rparr>
     = maybeRenameTest (stock [] []) ''[Feature:NetworkPolicy]'' \<lparr>node_Text = ''[Feature:NetworkPolicy]'', node_FileName = []\<rparr>"
proof -
  let ?n = "''[sig-network] Services should be rejected when no endpoints exist''" and ?m = "''[Feature:NetworkPolicy]''"
  let ?l = "''[Skipped:Network/'' @ ''OVNKubernetes'' @ '']''"
  have "''OVNKubernetes'' \<in> set (getNetworkSkips (Inr ''OVNKubernetes''))" "?l \<in> set (map fst testMaps)"
    "list_ex (str_contains ?n) (stringMatches (stock [] (getNetworkSkips (Inr ''OVNKubernetes''))) ?l)"
    "\<not> str_contains ?n ''[Suite:openshift/conformance/''" by code_simp+
  then have "in_suite ''openshift/conformance-excluded''
      (node_Text (maybeRenameTest (stock [] (getNetworkSkips (Inr ''OVNKubernetes''))) ?n \<lparr>node_Text = ?n, node_FileName = []\<rparr>))"
    using network_exclusion [where name = ?n and pre = "[]" and node = "\<lparr>node_Text = ?n, node_FileName = []\<rparr>"
        and x = "''OVNKubernetes''" and report = "Inr ''OVNKubernetes''" and provider = "[]"]
    by (simp only: TestNode.simps append_Nil simp_thms)
  moreover have "list_all (\<lambda>n. has_prefix n ''OpenShiftSDN'') (getNetworkSkips (Inr ''OpenShiftSDN OpenShiftSDN/Multitenant''))"
    "\<not> str_contains ?m ''[Skipped:Network/OpenShiftSDN''" "\<not> str_contains ?m ''[Suite:openshift/conformance/''" by code_simp+
  then have "maybeRenameTest (stock [] (getNetworkSkips (Inr ''OpenShiftSDN OpenShiftSDN/Multitenant''))) ?m \<lparr>node_Text = ?m, node_FileName = []\<rparr>
     = maybeRenameTest (stock [] []) ?m \<lparr>node_Text = ?m, node_FileName = []\<rparr>"
    using network_exclusion [where name = ?m and pre = "[]" and node = "\<lparr>node_Text = ?m, node_FileName = []\<rparr>"
        and report = "Inr ''OpenShiftSDN OpenShiftSDN/Multitenant''" and provider = "[]"]
    by (simp only: TestNode.simps append_Nil simp_thms)
  ultimately show ?thesis by (rule conjI)
qed

end
