(* ===== verification/Go_Float.thy ===== *)
theory Go_Float
  imports Complex_Main OT_Prelude
begin

text \<open>
  Go's \<open>float64\<close>, as far as the program computes with it: the conversion of an integer, the quotient and the comparison. A
  finite value is the rational number that it stands for (the sign of zero plays no part in a comparison). A result is
  rounded to the nearest number with 53 significant bits, to the one with an even last bit when two are equally near;
  small results have at most 1074 bits after the point and large ones overflow.
\<close>

section \<open>Values and rounding\<close>

datatype float64 = NaN | Inf bool | Fin rat

definition round_half_even :: "rat \<Rightarrow> int" where
  "round_half_even x =
     (let f = \<lfloor>x\<rfloor>; r = x - of_int f in
      if r < 1 / 2 then f else if 1 / 2 < r then f + 1 else if even f then f else f + 1)"

text \<open>How often a value is doubled until it has 53 bits before the point, or halved until it has no more.\<close>

fun scale_up :: "nat \<Rightarrow> rat \<Rightarrow> nat" where
  "scale_up 0 x = 0"
| "scale_up (Suc n) x = (if 2 ^ 52 \<le> x then 0 else Suc (scale_up n (2 * x)))"

fun scale_down :: "nat \<Rightarrow> rat \<Rightarrow> nat" where
  "scale_down 0 x = 0"
| "scale_down (Suc n) x = (if x < 2 ^ 53 then 0 else Suc (scale_down n (x / 2)))"

definition round64 :: "rat \<Rightarrow> float64" where
  "round64 x =
     (let k = scale_up 1074 \<bar>x\<bar>; j = scale_down 971 \<bar>x\<bar>;
          r = of_int (round_half_even (x * 2 ^ k / 2 ^ j)) * 2 ^ j / 2 ^ k
      in if 2 ^ 1024 \<le> \<bar>r\<bar> then Inf (x < 0) else Fin r)"

definition float64_of_int :: "int \<Rightarrow> float64" where
  "float64_of_int n = round64 (of_int n)"

fun float_div :: "float64 \<Rightarrow> float64 \<Rightarrow> float64" where
  "float_div (Fin a) (Fin b) = (if b = 0 then (if a = 0 then NaN else Inf (a < 0)) else round64 (a / b))"
| "float_div (Inf s) (Fin b) = Inf (s \<noteq> (b < 0))"
| "float_div (Fin a) (Inf s) = Fin 0"
| "float_div _ _ = NaN"

fun float_less :: "float64 \<Rightarrow> float64 \<Rightarrow> bool" where
  "float_less (Fin a) (Fin b) = (a < b)"
| "float_less (Inf s) (Fin b) = s"
| "float_less (Fin a) (Inf s) = (\<not> s)"
| "float_less (Inf s) (Inf t) = (s \<and> \<not> t)"
| "float_less _ _ = False"

section \<open>Precision\<close>

lemma round_half_even_int [simp]: "round_half_even (of_int n) = n"
  by (simp add: round_half_even_def)

lemma round_half_even_error: "\<bar>of_int (round_half_even x) - x\<bar> \<le> 1 / 2"
proof -
  have "of_int \<lfloor>x\<rfloor> \<le> x" "x < of_int \<lfloor>x\<rfloor> + 1" by linarith+
  then show ?thesis by (auto simp: round_half_even_def Let_def abs_le_iff)
qed

lemma scale_up_bits: "scale_up n x = n \<or> 2 ^ 52 \<le> x * 2 ^ scale_up n x"
  by (induction n x rule: scale_up.induct) (auto simp: mult.assoc)

lemma scale_down_zero: "x < 2 ^ 53 \<Longrightarrow> scale_down n x = 0"
  by (cases n) auto

text \<open>Integers of 53 bits are exact.\<close>

lemma float64_of_int_exact:
  assumes "\<bar>n\<bar> < 2 ^ 53"
  shows "float64_of_int n = Fin (of_int n)"
proof -
  have b: "\<bar>of_int n :: rat\<bar> < 2 ^ 53"
    using assms by (metis of_int_abs of_int_less_iff of_int_numeral of_int_power)
  define k where "k = scale_up 1074 \<bar>of_int n\<bar>"
  have "of_int n * 2 ^ k = (of_int (n * 2 ^ k) :: rat)" by simp
  then have "of_int (round_half_even (of_int n * 2 ^ k)) = (of_int n * 2 ^ k :: rat)" by (metis round_half_even_int)
  moreover have "\<not> 2 ^ 1024 \<le> \<bar>of_int n :: rat\<bar>"
    using b power_increasing [of 53 1024 "2 :: rat"] by linarith
  ultimately show ?thesis
    using scale_down_zero [OF b, of 971] by (simp add: float64_of_int_def round64_def Let_def abs_mult flip: k_def)
qed

text \<open>A value from 0 to 1 is rounded by at most half a unit in the last of 52 places.\<close>

lemma round64_unit:
  assumes "0 \<le> x" and "x \<le> 1"
  shows "\<exists>r. round64 x = Fin r \<and> \<bar>r - x\<bar> \<le> 1 / 2 ^ 53"
proof -
  define k where "k = scale_up 1074 x"
  have "k = 1074 \<or> (2 :: rat) ^ 52 \<le> x * 2 ^ k" using scale_up_bits [of 1074 x] by (simp add: k_def)
  moreover have "x * 2 ^ k \<le> 2 ^ k" using assms by (simp add: mult_left_le_one_le)
  moreover have "(2 :: rat) ^ 52 \<le> 2 ^ 1074" by (rule power_increasing) simp_all
  ultimately have k: "(2 :: rat) ^ 52 \<le> 2 ^ k" by (metis order_trans)
  define r where "r = of_int (round_half_even (x * 2 ^ k)) / (2 :: rat) ^ k"
  have "\<bar>of_int (round_half_even (x * 2 ^ k)) - x * 2 ^ k\<bar> \<le> 1 / 2" by (rule round_half_even_error)
  moreover have "r - x = (of_int (round_half_even (x * 2 ^ k)) - x * 2 ^ k) / 2 ^ k" by (simp add: r_def field_simps)
  then have "\<bar>r - x\<bar> = \<bar>of_int (round_half_even (x * 2 ^ k)) - x * 2 ^ k\<bar> / 2 ^ k" by (simp add: abs_divide)
  ultimately have "\<bar>r - x\<bar> \<le> (1 / 2) / 2 ^ k" by (simp only:) (rule divide_right_mono, simp_all)
  also have "\<dots> \<le> (1 / 2) / 2 ^ 52" using k by (intro divide_left_mono) simp_all
  finally have e: "\<bar>r - x\<bar> \<le> 1 / 2 ^ 53" by simp
  have "\<bar>x\<bar> < 2 ^ 53" using assms by simp
  moreover have "\<not> 2 ^ 1024 \<le> \<bar>r\<bar>"
  proof -
    have "(1 :: rat) / 2 ^ 53 \<le> 1" by simp
    with e assms have "\<bar>r\<bar> \<le> 2" by linarith
    then show ?thesis by simp
  qed
  ultimately show ?thesis
    using e assms scale_down_zero [of "\<bar>x\<bar>" 971] by (simp add: round64_def Let_def r_def flip: k_def)
qed

text \<open>
  Two fractions that differ do so by more than twice the rounding error, as long as the product of the denominators has
  at most 50 bits: the quotients compare as the fractions do.
\<close>

lemma quotient_compare:
  assumes "c \<le> n" and "0 < n" and "n < 2 ^ 40" and "a \<le> b" and "0 < b" and "b < 2 ^ 10"
  shows "float_less (float_div (float64_of_int (int c)) (float64_of_int (int n)))
      (float_div (float64_of_int (int a)) (float64_of_int (int b)))
    \<longleftrightarrow> (of_nat c / of_nat n :: rat) < of_nat a / of_nat b"
proof -
  let ?x = "of_nat c / of_nat n :: rat" and ?y = "of_nat a / of_nat b :: rat"
  have le: "n < 2 ^ 53" "b < 2 ^ 53"
    using assms(3,6) power_increasing [of 40 53 "2 :: nat"] power_increasing [of 10 53 "2 :: nat"] by linarith+
  have "\<bar>int m\<bar> < 2 ^ 53" if "m < 2 ^ 53" for m
    using that by (metis abs_of_nat of_nat_less_iff of_nat_numeral of_nat_power)
  then have exact: "float64_of_int (int m) = Fin (of_nat m)" if "m < 2 ^ 53" for m
    using that by (simp add: float64_of_int_exact)
  have unit: "0 \<le> ?x" "?x \<le> 1" "0 \<le> ?y" "?y \<le> 1" using assms by simp_all
  obtain r s where r: "round64 ?x = Fin r" "\<bar>r - ?x\<bar> \<le> 1 / 2 ^ 53" and s: "round64 ?y = Fin s" "\<bar>s - ?y\<bar> \<le> 1 / 2 ^ 53"
    using round64_unit [OF unit(1,2)] round64_unit [OF unit(3,4)] by blast
  have gap: "1 / 2 ^ 50 < \<bar>?x - ?y\<bar>" if "?x \<noteq> ?y"
  proof -
    have pos: "0 < (of_nat n * of_nat b :: rat)" using assms by simp
    define z where "z = int c * int b - int a * int n"
    have d: "?x - ?y = of_int z / (of_nat n * of_nat b)"
      using assms by (simp add: z_def field_simps)
    with that have "z \<noteq> 0" by auto
    then have "1 \<le> \<bar>of_int z :: rat\<bar>"
      by (metis of_int_abs of_int_1 of_int_le_iff zero_less_abs_iff int_one_le_iff_zero_less)
    moreover note d
    ultimately have "1 / (of_nat n * of_nat b) \<le> \<bar>?x - ?y\<bar>"
      using pos by (simp add: abs_divide divide_right_mono)
    moreover have "of_nat n * of_nat b < (2 ^ 50 :: rat)"
    proof -
      have "n * b < 2 ^ 40 * 2 ^ 10" using assms by (intro mult_strict_mono) simp_all
      then have "of_nat (n * b) < (of_nat (2 ^ 50) :: rat)" unfolding of_nat_less_iff by (simp flip: power_add)
      then show ?thesis by simp
    qed
    then have "1 / 2 ^ 50 < 1 / (of_nat n * of_nat b :: rat)" using pos by (intro divide_strict_left_mono) simp_all
    ultimately show ?thesis by linarith
  qed
  have "r < s \<longleftrightarrow> ?x < ?y"
  proof (cases "?x = ?y")
    case True
    then show ?thesis using r(1) s(1) by simp
  next
    case False
    moreover have "(1 :: rat) / 2 ^ 53 + 1 / 2 ^ 53 < 1 / 2 ^ 50" by simp
    ultimately show ?thesis using gap r(2) s(2) by linarith
  qed
  then show ?thesis
    using assms le r(1) s(1) exact [of c] exact [of n] exact [of a] exact [of b] by simp
qed

end
