(* ===== verification/Go_Json.thy ===== *)
theory Go_Json
  imports Go_Strconv
begin

text \<open>
  The part of \<open>encoding/json\<close> that the command uses to hand the options of an upgrade to its child
  processes and to read a provider: \<open>Marshal\<close> of strings and of lists of strings, a parser for every JSON
  text, and \<open>Unmarshal\<close> into structures of strings. Bytes from 0x80 on are taken as text in valid UTF-8.
  The text of an error is not modelled: a failed \<open>Unmarshal\<close> is None.
\<close>

section \<open>Writing strings\<close>

definition hex4 :: "nat \<Rightarrow> string" where
  "hex4 n = [backslash, CHR ''u'', hex_digit (n div 4096), hex_digit (n div 256 mod 16), hex_digit (n div 16 mod 16),
     hex_digit (n mod 16)]"

definition json_esc_char :: "char \<Rightarrow> string" where
  "json_esc_char c = (let n = (of_char c :: nat) in
     if c = dquote \<or> c = backslash then [backslash, c]
     else if n = 10 then [backslash, CHR ''n''] else if n = 13 then [backslash, CHR ''r'']
     else if n = 9 then [backslash, CHR ''t'']
     else if n < 32 \<or> c \<in> {CHR ''<'', CHR ''>'', CHR ''&''} then hex4 n
     else [c])"

text \<open>The line separators U+2028 and U+2029 are escaped too.\<close>

fun line_separator :: "string \<Rightarrow> nat option" where
  "line_separator (a # b # c # s) =
     (if a = CHR 0xE2 \<and> b = CHR 0x80 \<and> c = CHR 0xA8 then Some 0x2028
      else if a = CHR 0xE2 \<and> b = CHR 0x80 \<and> c = CHR 0xA9 then Some 0x2029 else None)"
| "line_separator s = None"

fun json_esc :: "string \<Rightarrow> string" where
  "json_esc [] = []"
| "json_esc (c # s) =
     (case line_separator (c # s) of
        Some n \<Rightarrow> hex4 n @ json_esc (drop 2 s)
      | None \<Rightarrow> json_esc_char c @ json_esc s)"

definition json_quote :: "string \<Rightarrow> string" where
  "json_quote s = dquote # json_esc s @ [dquote]"

text \<open>A slice of strings; None is the nil slice.\<close>

definition json_strings :: "string list option \<Rightarrow> string" where
  "json_strings l = (case l of None \<Rightarrow> ''null'' | Some xs \<Rightarrow> ''['' @ str_join (map json_quote xs) '','' @ '']'')"

section \<open>Reading strings\<close>

definition json_escape :: "char \<Rightarrow> char option" where
  "json_escape e = map_of [(CHR ''b'', CHR 0x08), (CHR ''f'', CHR 0x0C), (CHR ''n'', CHR 0x0A), (CHR ''r'', CHR 0x0D),
     (CHR ''t'', CHR 0x09), (backslash, backslash), (CHR ''/'', CHR ''/''), (dquote, dquote)] e"

definition is_surrogate :: "nat \<Rightarrow> bool" where
  "is_surrogate n = (0xD800 \<le> n \<and> n < 0xE000)"

text \<open>\<open>utf16.DecodeRune\<close>\<close>

definition surrogate_pair :: "nat \<Rightarrow> nat \<Rightarrow> nat option" where
  "surrogate_pair n m =
     (if 0xD800 \<le> n \<and> n < 0xDC00 \<and> 0xDC00 \<le> m \<and> m < 0xE000 then Some ((n - 0xD800) * 1024 + (m - 0xDC00) + 0x10000) else None)"

text \<open>\<open>getu4\<close>: a \<open>\u\<close> escape with four digits at the start of a string.\<close>

fun getu4 :: "string \<Rightarrow> nat option" where
  "getu4 (b # u # s) = (if b = backslash \<and> u = CHR ''u'' then based_val 16 4 0 s else None)"
| "getu4 s = None"

abbreviation prepend :: "string \<Rightarrow> (string \<times> string) option \<Rightarrow> (string \<times> string) option" where
  "prepend x r \<equiv> map_option (\<lambda>(t, rest). (x @ t, rest)) r"

text \<open>The characters after the opening quote, up to the closing one, and what follows.\<close>

fun json_str :: "string \<Rightarrow> (string \<times> string) option" where
  "json_str [] = None"
| "json_str (c # s) =
     (if c = dquote then Some ([], s)
      else if c = backslash then
        (case s of [] \<Rightarrow> None
         | e # r \<Rightarrow>
           if e = CHR ''u'' then
             (case based_val 16 4 0 r of
                None \<Rightarrow> None
              | Some n \<Rightarrow>
                  if is_surrogate n then
                    (case Option.bind (getu4 (drop 4 r)) (surrogate_pair n) of
                       Some m \<Rightarrow> prepend (utf8_encode m) (json_str (drop 10 r))
                     | None \<Rightarrow> prepend (utf8_encode 0xFFFD) (json_str (drop 4 r)))
                  else prepend (utf8_encode n) (json_str (drop 4 r)))
           else (case json_escape e of None \<Rightarrow> None | Some x \<Rightarrow> prepend [x] (json_str r)))
      else if (of_char c :: nat) < 32 then None
      else prepend [c] (json_str s))"

lemma based_val_4:
  assumes "hex_val a = Some i" "hex_val b = Some j" "hex_val c = Some k" "hex_val d = Some l" "i < 16" "j < 16" "k < 16" "l < 16"
  shows "based_val 16 4 0 (a # b # c # d # r) = Some (16 * (16 * (16 * i + j) + k) + l)"
proof -
  have "(4 :: nat) = Suc (Suc (Suc (Suc 0)))" by simp
  then show ?thesis using assms by (simp only: based_val.simps option.case if_True) simp
qed

lemma hex4_digits:
  assumes "n < 65536"
  shows "based_val 16 4 0 (hex_digit (n div 4096) # hex_digit (n div 256 mod 16) # hex_digit (n div 16 mod 16) # hex_digit (n mod 16) # r) = Some n"
proof -
  have lt: "n div 4096 < 16" "n div 256 mod 16 < 16" "n div 16 mod 16 < 16" "n mod 16 < 16"
    using assms by (simp_all add: less_mult_imp_div_less)
  have "n div 256 = n div 16 div 16" "n div 4096 = n div 16 div 16 div 16" by (simp_all add: div_mult2_eq [symmetric])
  then have "16 * (16 * (16 * (n div 4096) + n div 256 mod 16) + n div 16 mod 16) + n mod 16 = n"
    by (simp only: mult_div_mod_eq)
  with based_val_4 [OF lt [THEN hex_val_digit] lt, of r] show ?thesis by simp
qed

lemma json_str_hex4:
  assumes "n < 65536" and "\<not> is_surrogate n"
  shows "json_str (hex4 n @ r) = prepend (utf8_encode n) (json_str r)"
  using hex4_digits [OF assms(1), of r] assms(2) by (simp add: hex4_def)

lemma newline_codes:
  "(of_char c :: nat) = 10 \<Longrightarrow> c = CHR 0x0A" "(of_char c :: nat) = 13 \<Longrightarrow> c = CHR 0x0D" "(of_char c :: nat) = 9 \<Longrightarrow> c = CHR 0x09"
proof -
  have "char_of (10 :: nat) = CHR 0x0A" "char_of (13 :: nat) = CHR 0x0D" "char_of (9 :: nat) = CHR 0x09" by code_simp+
  then show "(of_char c :: nat) = 10 \<Longrightarrow> c = CHR 0x0A" "(of_char c :: nat) = 13 \<Longrightarrow> c = CHR 0x0D" "(of_char c :: nat) = 9 \<Longrightarrow> c = CHR 0x09"
    by (metis char_of_char)+
qed

lemma json_str_esc_char:
  "json_str (json_esc_char c @ r) = prepend [c] (json_str r)"
proof -
  have hex: "json_str (hex4 (of_char c) @ r) = prepend [c] (json_str r)" if "(of_char c :: nat) < 128"
    using that json_str_hex4 [of "of_char c" r] by (simp add: is_surrogate_def utf8_encode_def)
  show ?thesis
  proof (cases "c = dquote \<or> c = backslash")
    case True
    then show ?thesis by (auto simp: json_esc_char_def json_escape_def)
  next
    case False
    consider (n) "c = CHR 0x0A" | (r) "c = CHR 0x0D" | (t) "c = CHR 0x09"
      | (h) "(of_char c :: nat) < 32 \<or> c \<in> {CHR ''<'', CHR ''>'', CHR ''&''}" "c \<noteq> CHR 0x0A" "c \<noteq> CHR 0x0D" "c \<noteq> CHR 0x09"
      | (o) "\<not> (of_char c :: nat) < 32" "c \<notin> {CHR ''<'', CHR ''>'', CHR ''&''}" by blast
    then show ?thesis
    proof cases
      case h
      then have "(of_char c :: nat) < 128" by auto
      moreover have "(of_char c :: nat) \<noteq> 10" "(of_char c :: nat) \<noteq> 13" "(of_char c :: nat) \<noteq> 9"
        using h(2-4) newline_codes by metis+
      ultimately show ?thesis using h False hex by (simp add: json_esc_char_def)
    next
      case o
      then show ?thesis using False by (simp add: json_esc_char_def)
    qed (simp_all add: json_esc_char_def json_escape_def)
  qed
qed

lemma line_separator_utf8:
  "line_separator s = Some n \<Longrightarrow> n < 65536 \<and> \<not> is_surrogate n \<and> s = utf8_encode n @ drop 3 s"
proof (induction s rule: line_separator.induct)
  case (1 a b c s)
  have "utf8_encode 0x2028 = [CHR 0xE2, CHR 0x80, CHR 0xA8]" "utf8_encode 0x2029 = [CHR 0xE2, CHR 0x80, CHR 0xA9]"
    by (simp_all add: utf8_encode_def char_of_def bit_0)
  with 1 show ?case by (auto simp: is_surrogate_def split: if_splits)
qed simp_all

lemma json_str_esc: "json_str (json_esc s @ dquote # r) = Some (s, r)"
proof (induction s rule: json_esc.induct)
  case (2 c s)
  show ?case
  proof (cases "line_separator (c # s)")
    case None
    then show ?thesis using 2 by (simp add: json_str_esc_char)
  next
    case (Some n)
    from line_separator_utf8 [OF this] have n: "n < 65536" "\<not> is_surrogate n" "c # s = utf8_encode n @ drop 2 s"
      by (simp_all add: numeral_2_eq_2 numeral_3_eq_3)
    then have "json_str (hex4 n @ json_esc (drop 2 s) @ dquote # r) = Some (utf8_encode n @ drop 2 s, r)"
      using 2 Some by (simp add: json_str_hex4)
    then have "json_str (json_esc (c # s) @ dquote # r) = Some (utf8_encode n @ drop 2 s, r)" using Some by simp
    also have "\<dots> = Some (c # s, r)" by (simp only: n(3))
    finally show ?thesis .
  qed
qed simp

section \<open>Values\<close>

datatype json = JNull | JBool bool | JNum string | JStr string | JArr "json list" | JObj "(string \<times> json) list"

definition json_space :: "char \<Rightarrow> bool" where
  "json_space c = (c \<in> {CHR '' '', CHR 0x09, CHR 0x0A, CHR 0x0D})"

definition skip_ws :: "string \<Rightarrow> string" where
  "skip_ws s = dropWhile json_space s"

definition json_digit :: "char \<Rightarrow> bool" where
  "json_digit c = (CHR ''0'' \<le> c \<and> c \<le> CHR ''9'')"

text \<open>A number: an integer without leading zeros, a fraction and an exponent; its text and the rest.\<close>

definition json_digits :: "string \<Rightarrow> (string \<times> string) option" where
  "json_digits s = (let ds = takeWhile json_digit s in if ds = [] then None else Some (ds, dropWhile json_digit s))"

definition json_integer :: "string \<Rightarrow> (string \<times> string) option" where
  "json_integer s = (case s of [] \<Rightarrow> None | c # r \<Rightarrow> if c = CHR ''0'' then Some ([c], r) else json_digits s)"

definition json_fraction :: "string \<Rightarrow> (string \<times> string) option" where
  "json_fraction s = (case s of [] \<Rightarrow> Some ([], []) | c # r \<Rightarrow> if c = CHR ''.'' then prepend [c] (json_digits r) else Some ([], s))"

definition json_exponent :: "string \<Rightarrow> (string \<times> string) option" where
  "json_exponent s =
     (case s of [] \<Rightarrow> Some ([], [])
      | c # r \<Rightarrow>
        if c = CHR ''e'' \<or> c = CHR ''E'' then
          (case r of
             d # r' \<Rightarrow> if d = CHR ''+'' \<or> d = CHR ''-'' then prepend [c, d] (json_digits r') else prepend [c] (json_digits r)
           | [] \<Rightarrow> None)
        else Some ([], s))"

definition json_unsigned :: "string \<Rightarrow> (string \<times> string) option" where
  "json_unsigned s =
     (case json_integer s of None \<Rightarrow> None | Some (i, s1) \<Rightarrow>
      (case json_fraction s1 of None \<Rightarrow> None | Some (f, s2) \<Rightarrow>
       (case json_exponent s2 of None \<Rightarrow> None | Some (e, s3) \<Rightarrow> Some (i @ f @ e, s3))))"

definition json_number :: "string \<Rightarrow> (string \<times> string) option" where
  "json_number s = (case s of [] \<Rightarrow> None | c # r \<Rightarrow> if c = CHR ''-'' then prepend [c] (json_unsigned r) else json_unsigned s)"

definition json_atom :: "string \<Rightarrow> (json \<times> string) option" where
  "json_atom s =
     (if has_prefix s ''null'' then Some (JNull, drop 4 s)
      else if has_prefix s ''true'' then Some (JBool True, drop 4 s)
      else if has_prefix s ''false'' then Some (JBool False, drop 5 s)
      else map_option (\<lambda>(n, r). (JNum n, r)) (json_number s))"

text \<open>
  A value at the start of a text, the elements of an array after its bracket or a comma, and the members of
  an object likewise. The first argument bounds the depth of the recursion.
\<close>

fun json_value :: "nat \<Rightarrow> string \<Rightarrow> (json \<times> string) option"
  and json_elems :: "nat \<Rightarrow> string \<Rightarrow> (json list \<times> string) option"
  and json_members :: "nat \<Rightarrow> string \<Rightarrow> ((string \<times> json) list \<times> string) option" where
  "json_value 0 s = None"
| "json_value (Suc n) s =
     (case skip_ws s of [] \<Rightarrow> None
      | c # r \<Rightarrow>
        if c = dquote then map_option (\<lambda>(x, r). (JStr x, r)) (json_str r)
        else if c = CHR ''{'' then
          (case skip_ws r of
             [] \<Rightarrow> None
           | d # r' \<Rightarrow> if d = CHR ''}'' then Some (JObj [], r') else map_option (\<lambda>(x, r). (JObj x, r)) (json_members n r))
        else if c = CHR ''['' then
          (case skip_ws r of
             [] \<Rightarrow> None
           | d # r' \<Rightarrow> if d = CHR '']'' then Some (JArr [], r') else map_option (\<lambda>(x, r). (JArr x, r)) (json_elems n r))
        else json_atom (c # r))"
| "json_elems 0 s = None"
| "json_elems (Suc n) s =
     (case json_value n s of None \<Rightarrow> None
      | Some (v, r) \<Rightarrow>
        (case skip_ws r of [] \<Rightarrow> None
         | c # r' \<Rightarrow>
           if c = CHR '','' then map_option (\<lambda>(vs, r). (v # vs, r)) (json_elems n r')
           else if c = CHR '']'' then Some ([v], r') else None))"
| "json_members 0 s = None"
| "json_members (Suc n) s =
     (case skip_ws s of [] \<Rightarrow> None
      | q # s' \<Rightarrow>
        if q \<noteq> dquote then None
        else case json_str s' of None \<Rightarrow> None
          | Some (k, s1) \<Rightarrow>
            (case skip_ws s1 of [] \<Rightarrow> None
             | c # s2 \<Rightarrow>
               if c \<noteq> CHR '':'' then None
               else case json_value n s2 of None \<Rightarrow> None
                 | Some (v, r) \<Rightarrow>
                   (case skip_ws r of [] \<Rightarrow> None
                    | d # r' \<Rightarrow>
                      if d = CHR '','' then map_option (\<lambda>(ms, r). ((k, v) # ms, r)) (json_members n r')
                      else if d = CHR ''}'' then Some ([(k, v)], r') else None)))"

definition json_parse :: "string \<Rightarrow> json option" where
  "json_parse s = (case json_value (2 * length s + 2) s of
     Some (v, r) \<Rightarrow> if skip_ws r = [] then Some v else None | None \<Rightarrow> None)"

section \<open>The bound on the recursion is large enough\<close>

text \<open>Every reader leaves less than it was given.\<close>

lemma skip_ws_length: "length (skip_ws s) \<le> length s"
  by (simp add: skip_ws_def length_dropWhile_le)

lemma skip_ws_Cons: "skip_ws s = c # r \<Longrightarrow> length r < length s"
  using skip_ws_length [of s] by simp

lemma json_str_length: "json_str s = Some (x, r) \<Longrightarrow> length r < length s"
proof (induction s arbitrary: x r rule: measure_induct_rule [of length])
  case (less s)
  have IH: "length r < length s" if "json_str t = Some (y, r)" "length t < length s" for t y
    using less.IH [OF that(2,1)] that(2) by simp
  show ?case using less.prems
    by (cases s) (auto split: if_splits option.splits list.splits dest!: IH)
qed

lemma json_digits_length: "json_digits s = Some (x, r) \<Longrightarrow> length r < length s"
proof -
  assume "json_digits s = Some (x, r)"
  then have "takeWhile json_digit s \<noteq> []" "r = dropWhile json_digit s" by (auto simp: json_digits_def Let_def split: if_splits)
  then show ?thesis using takeWhile_dropWhile_id [of json_digit s] by (metis length_append length_greater_0_conv less_add_same_cancel2)
qed

lemma json_number_length: "json_number s = Some (x, r) \<Longrightarrow> length r < length s"
proof -
  have i: "json_integer t = Some (y, q) \<Longrightarrow> length q < length t" for t y q
    by (auto simp: json_integer_def split: list.splits if_splits dest: json_digits_length)
  have f: "json_fraction t = Some (y, q) \<Longrightarrow> length q \<le> length t" for t y q
    by (auto simp: json_fraction_def split: list.splits if_splits dest!: json_digits_length)
  have e: "json_exponent t = Some (y, q) \<Longrightarrow> length q \<le> length t" for t y q
    by (auto simp: json_exponent_def split: list.splits if_splits dest!: json_digits_length)
  have u: "json_unsigned t = Some (y, q) \<Longrightarrow> length q < length t" for t y q
    by (auto simp: json_unsigned_def split: option.splits dest!: i f e)
  assume "json_number s = Some (x, r)"
  then show ?thesis by (auto simp: json_number_def split: list.splits if_splits dest!: u)
qed

lemma json_atom_length: "json_atom s = Some (x, r) \<Longrightarrow> length r < length s"
  by (cases s) (auto simp: json_atom_def has_prefix_iff split: if_splits dest!: json_number_length)

lemma json_lengths:
  "(\<forall>s x r. json_value n s = Some (x, r) \<longrightarrow> length r < length s)
   \<and> (\<forall>s x r. json_elems n s = Some (x, r) \<longrightarrow> length r < length s)
   \<and> (\<forall>s x r. json_members n s = Some (x, r) \<longrightarrow> length r < length s)"
proof (induction n)
  case (Suc n)
  then have V: "json_value n s = Some (x, r) \<Longrightarrow> length r < length s" and E: "json_elems n s = Some (y, r) \<Longrightarrow> length r < length s"
    and M: "json_members n s = Some (z, r) \<Longrightarrow> length r < length s" for s x y z r by blast+
  note lens = skip_ws_Cons json_str_length json_atom_length V E M
  show ?case
    by (intro conjI allI impI; (auto split: list.splits if_splits option.splits dest!: lens)[1])
qed simp

lemmas json_value_length = json_lengths [THEN conjunct1, rule_format]

text \<open>Two bounds that cover the text give the same result.\<close>

lemma json_bounds:
  "(\<forall>s m. 2 * length s + 2 \<le> n \<longrightarrow> 2 * length s + 2 \<le> m \<longrightarrow> json_value n s = json_value m s)
   \<and> (\<forall>s m. 2 * length s + 3 \<le> n \<longrightarrow> 2 * length s + 3 \<le> m \<longrightarrow> json_elems n s = json_elems m s)
   \<and> (\<forall>s m. 2 * length s + 3 \<le> n \<longrightarrow> 2 * length s + 3 \<le> m \<longrightarrow> json_members n s = json_members m s)"
proof (induction n)
  case (Suc n)
  then have V: "2 * length s + 2 \<le> n \<Longrightarrow> 2 * length s + 2 \<le> m \<Longrightarrow> json_value n s = json_value m s"
    and E: "2 * length s + 3 \<le> n \<Longrightarrow> 2 * length s + 3 \<le> m \<Longrightarrow> json_elems n s = json_elems m s"
    and M: "2 * length s + 3 \<le> n \<Longrightarrow> 2 * length s + 3 \<le> m \<Longrightarrow> json_members n s = json_members m s" for s m by blast+
  have value_eq: "json_value (Suc n) s = json_value (Suc m) s" if "2 * length s + 2 \<le> Suc n" "2 * length s + 2 \<le> Suc m" for s m
  proof (cases "skip_ws s")
    case (Cons c r)
    then have "length r < length s" by (rule skip_ws_Cons)
    then have "json_elems n r = json_elems m r" "json_members n r = json_members m r" using E [of r m] M [of r m] that by simp_all
    then show ?thesis using Cons by (simp split: list.split)
  qed simp
  have elems_eq: "json_elems (Suc n) s = json_elems (Suc m) s" if "2 * length s + 3 \<le> Suc n" "2 * length s + 3 \<le> Suc m" for s m
  proof -
    have "json_value n s = json_value m s" using V [of s m] that by simp
    moreover have "json_elems n r' = json_elems m r'" if "json_value n s = Some (x, r)" "skip_ws r = c # r'" for x r c r'
      using E [of r' m] json_value_length [OF that(1)] skip_ws_Cons [OF that(2)] \<open>2 * length s + 3 \<le> Suc n\<close> \<open>2 * length s + 3 \<le> Suc m\<close> by simp
    ultimately show ?thesis by (auto split: option.splits list.splits)
  qed
  have members_eq: "json_members (Suc n) s = json_members (Suc m) s" if le: "2 * length s + 3 \<le> Suc n" "2 * length s + 3 \<le> Suc m" for s m
  proof -
    have short: "length s2 < length s" if "skip_ws s = q # s'" "json_str s' = Some (x, s1)" "skip_ws s1 = c # s2" for q s' x s1 c s2
      using skip_ws_Cons [OF that(1)] json_str_length [OF that(2)] skip_ws_Cons [OF that(3)] by simp
    have v: "json_value n s2 = json_value m s2" if "skip_ws s = q # s'" "json_str s' = Some (x, s1)" "skip_ws s1 = c # s2" for q s' x s1 c s2
      using V [of s2 m] short [OF that] le by simp
    have ms: "json_members n r' = json_members m r'" if "skip_ws s = q # s'" "json_str s' = Some (x, s1)" "skip_ws s1 = c # s2"
      "json_value m s2 = Some (y, r)" "skip_ws r = d # r'" for q s' x s1 c s2 y r d r'
      using M [of r' m] short [OF that(1-3)] json_value_length [OF that(4)] skip_ws_Cons [OF that(5)] le by simp
    show ?thesis using v ms by (auto split: option.splits list.splits)
  qed
  show ?case
  proof (intro conjI allI impI)
    fix s :: string and m assume le: "2 * length s + 2 \<le> Suc n" "2 * length s + 2 \<le> m"
    then obtain k where "m = Suc k" by (cases m) auto
    with le show "json_value (Suc n) s = json_value m s" using value_eq [of s k] by simp
  next
    fix s :: string and m assume le: "2 * length s + 3 \<le> Suc n" "2 * length s + 3 \<le> m"
    then obtain k where "m = Suc k" by (cases m) auto
    with le show "json_elems (Suc n) s = json_elems m s" using elems_eq [of s k] by simp
  next
    fix s :: string and m assume le: "2 * length s + 3 \<le> Suc n" "2 * length s + 3 \<le> m"
    then obtain k where "m = Suc k" by (cases m) auto
    with le show "json_members (Suc n) s = json_members m s" using members_eq [of s k] by simp
  qed
qed simp

lemmas json_value_bound = json_bounds [THEN conjunct1, rule_format]

declare json_value.simps [simp del] json_elems.simps [simp del] json_members.simps [simp del]

section \<open>Structures\<close>

text \<open>
  \<open>Unmarshal\<close> into a structure: the field of a key is the one with that name, or else the first one whose
  name differs only in case (the long s and the Kelvin sign count as the letters they fold to). A value of
  the wrong type is an error, which is returned after the other members have been stored.
\<close>

fun fold_key :: "string \<Rightarrow> string" where
  "fold_key (a # b # c # s) =
     (if a = CHR 0xC5 \<and> b = CHR 0xBF then CHR ''s'' # fold_key (c # s)
      else if a = CHR 0xE2 \<and> b = CHR 0x84 \<and> c = CHR 0xAA then CHR ''k'' # fold_key s
      else lower_char a # fold_key (b # c # s))"
| "fold_key [a, b] = (if a = CHR 0xC5 \<and> b = CHR 0xBF then ''s'' else [lower_char a, lower_char b])"
| "fold_key [a] = [lower_char a]"
| "fold_key [] = []"

definition struct_field :: "string list \<Rightarrow> string \<Rightarrow> string option" where
  "struct_field fields key =
     (if key \<in> set fields then Some key else find (\<lambda>f. fold_key f = fold_key key) fields)"

text \<open>A store function gives the new structure and whether the value had the right type.\<close>

fun store_members :: "string list \<Rightarrow> (string \<Rightarrow> json \<Rightarrow> 's \<Rightarrow> 's \<times> bool) \<Rightarrow> (string \<times> json) list \<Rightarrow> 's \<Rightarrow> 's \<times> bool" where
  "store_members fields store [] s = (s, True)"
| "store_members fields store ((k, v) # ms) s =
     (case struct_field fields k of
        None \<Rightarrow> store_members fields store ms s
      | Some f \<Rightarrow>
          (let (s, ok) = store f v s; (s, ok') = store_members fields store ms s in (s, ok \<and> ok')))"

definition json_Unmarshal :: "string list \<Rightarrow> (string \<Rightarrow> json \<Rightarrow> 's \<Rightarrow> 's \<times> bool) \<Rightarrow> string \<Rightarrow> 's \<Rightarrow> 's option" where
  "json_Unmarshal fields store text s =
     (case json_parse text of
        None \<Rightarrow> None
      | Some (JObj ms) \<Rightarrow> (let (s, ok) = store_members fields store ms s in if ok then Some s else None)
      | Some JNull \<Rightarrow> Some s
      | Some _ \<Rightarrow> None)"

definition store_string :: "json \<Rightarrow> string \<Rightarrow> string \<times> bool" where
  "store_string v old = (case v of JStr x \<Rightarrow> (x, True) | JNull \<Rightarrow> (old, True) | _ \<Rightarrow> (old, False))"

text \<open>
  An element that is null or has the wrong type keeps what the slice held at that place; None is the nil slice.
\<close>

fun store_elems :: "json list \<Rightarrow> string list \<Rightarrow> string list \<times> bool" where
  "store_elems [] old = ([], True)"
| "store_elems (v # vs) old =
     (let (x, ok) = store_string v (case old of [] \<Rightarrow> [] | o' # _ \<Rightarrow> o'); (xs, ok') = store_elems vs (tl old)
      in (x # xs, ok \<and> ok'))"

definition store_strings :: "json \<Rightarrow> string list option \<Rightarrow> string list option \<times> bool" where
  "store_strings v old =
     (case v of
        JNull \<Rightarrow> (None, True)
      | JArr vs \<Rightarrow> (let (xs, ok) = store_elems vs (case old of None \<Rightarrow> [] | Some l \<Rightarrow> l) in (Some xs, ok))
      | _ \<Rightarrow> (old, False))"

section \<open>Reading back what was written\<close>

lemma skip_ws_non_space [simp]: "\<not> json_space c \<Longrightarrow> skip_ws (c # s) = c # s"
  by (simp add: skip_ws_def)

lemma skip_ws_Nil [simp]: "skip_ws [] = []"
  by (simp add: skip_ws_def)

lemma json_punctuation [simp]:
  "\<not> json_space dquote" "\<not> json_space (CHR '','')" "\<not> json_space (CHR '':'')" "\<not> json_space (CHR ''{'')"
  "\<not> json_space (CHR ''}'')" "\<not> json_space (CHR ''['')" "\<not> json_space (CHR '']'')" "\<not> json_space (CHR ''n'')"
  by (simp_all add: json_space_def)

lemma json_value_quote [simp]: "json_value (Suc n) (json_quote s @ r) = Some (JStr s, r)"
  by (simp add: json_value.simps json_quote_def json_str_esc)

lemma json_elems_quotes:
  "json_elems (Suc (Suc (length xs + n))) (str_join (map json_quote (x # xs)) '','' @ '']'' @ r) = Some (map JStr (x # xs), r)"
proof (induction xs arbitrary: x)
  case Nil
  show ?case by (simp add: json_elems.simps)
next
  case (Cons y ys)
  have "json_elems (Suc (Suc (length (y # ys) + n))) (str_join (map json_quote (x # y # ys)) '','' @ '']'' @ r)
    = json_elems (Suc (Suc (Suc (length ys + n)))) (json_quote x @ '','' @ str_join (map json_quote (y # ys)) '','' @ '']'' @ r)"
    by simp
  also have "\<dots> = Some (map JStr (x # y # ys), r)"
    using Cons.IH [of y] by (subst json_elems.simps) simp
  finally show ?case .
qed

lemma json_value_strings:
  assumes "length (case l of None \<Rightarrow> [] | Some xs \<Rightarrow> xs) + 2 \<le> n"
  shows "json_value n (json_strings l @ r) = Some (case l of None \<Rightarrow> JNull | Some xs \<Rightarrow> JArr (map JStr xs), r)"
proof (cases l)
  case None
  obtain k where "n = Suc k" using assms by (cases n) auto
  with None show ?thesis by (simp add: json_strings_def json_value.simps json_atom_def)
next
  case (Some xs)
  show ?thesis
  proof (cases xs)
    case Nil
    obtain k where "n = Suc k" using assms by (cases n) auto
    with Some Nil show ?thesis by (simp add: json_strings_def json_value.simps)
  next
    case (Cons y ys)
    obtain k where k: "n = Suc (Suc (Suc (length ys + k)))"
      using assms Some Cons by (metis add_2_eq_Suc' add_Suc le_iff_add length_Cons option.case(2))
    let ?t = "str_join (map json_quote (y # ys)) '','' @ '']'' @ r"
    obtain u where u: "?t = dquote # u" by (cases ys) (simp_all add: json_quote_def)
    have "json_value n (''['' @ ?t) = Some (JArr (map JStr (y # ys)), r)"
      using json_elems_quotes [of ys k y r] u by (simp add: k json_value.simps)
    with Some Cons show ?thesis by (simp add: json_strings_def)
  qed
qed

text \<open>A member whose value is read by \<open>json_value\<close>.\<close>

lemma json_members_last:
  assumes "json_value n (v @ CHR ''}'' # r) = Some (x, CHR ''}'' # r)"
  shows "json_members (Suc n) (json_quote k @ '':'' @ v @ ''}'' @ r) = Some ([(k, x)], r)"
  using assms by (simp add: json_members.simps json_quote_def json_str_esc)

lemma json_members_more:
  assumes "json_value n (v @ CHR '','' # r) = Some (x, CHR '','' # r)" and "json_members n r = Some (ms, r')"
  shows "json_members (Suc n) (json_quote k @ '':'' @ v @ '','' @ r) = Some ((k, x) # ms, r')"
  using assms by (simp add: json_members.simps json_quote_def json_str_esc)

end
