(* ===== verification/Upgrade_Options.thy ===== *)
theory Upgrade_Options
  imports Go_Json
begin

text \<open>
  The options of the upgrade suite (\<open>src/cmd/extended-platform-tests/upgrade.go\<close>), how the command hands them
  to its child processes, and the settings they make in \<open>src/test/e2e/upgrade/upgrade.go\<close>.
\<close>

section \<open>Options\<close>

record UpgradeOptions =
  uo_Suite :: string
  uo_ToImage :: string
  uo_JUnitDir :: string
  uo_TestOptions :: "string list option"

fun options_loop :: "string list \<Rightarrow> (string \<rightharpoonup> string) \<Rightarrow> (string \<rightharpoonup> string) go_result" where
  "options_loop [] m = Inr m"
| "options_loop (opt # opts) m =
     (case str_splitN2 opt ''='' of
        [k, v] \<Rightarrow>
          if length k = 0 then Inl (''test option '' @ strconv_Quote opt @ '' is not valid, must be KEY=VALUE'')
          else if m k \<noteq> None then Inl (''option '' @ strconv_Quote k @ '' declared twice'')
          else options_loop opts (m(k \<mapsto> v))
      | _ \<Rightarrow> Inl (''test option '' @ strconv_Quote opt @ '' is not valid, must be KEY=VALUE''))"

definition OptionsMap :: "UpgradeOptions \<Rightarrow> (string \<rightharpoonup> string) go_result" where
  "OptionsMap o' = options_loop (case uo_TestOptions o' of None \<Rightarrow> [] | Some l \<Rightarrow> l) Map.empty"

text \<open>
  \<open>ToEnv\<close> writes the options as JSON, with the fields in the order of the structure; \<open>read_options\<close> is the
  \<open>json.Unmarshal\<close> of \<open>initUpgrade\<close> into a zero structure.
\<close>

definition ToEnv :: "UpgradeOptions \<Rightarrow> string" where
  "ToEnv o' = ''{'' @ json_quote ''Suite'' @ '':'' @ json_quote (uo_Suite o') @ '',''
     @ json_quote ''ToImage'' @ '':'' @ json_quote (uo_ToImage o') @ '',''
     @ json_quote ''JUnitDir'' @ '':'' @ json_quote (uo_JUnitDir o') @ '',''
     @ json_quote ''TestOptions'' @ '':'' @ json_strings (uo_TestOptions o') @ ''}''"

definition store_option :: "string \<Rightarrow> json \<Rightarrow> UpgradeOptions \<Rightarrow> UpgradeOptions \<times> bool" where
  "store_option f v s =
     (if f = ''Suite'' then (let (x, ok) = store_string v (uo_Suite s) in (s\<lparr>uo_Suite := x\<rparr>, ok))
      else if f = ''ToImage'' then (let (x, ok) = store_string v (uo_ToImage s) in (s\<lparr>uo_ToImage := x\<rparr>, ok))
      else if f = ''JUnitDir'' then (let (x, ok) = store_string v (uo_JUnitDir s) in (s\<lparr>uo_JUnitDir := x\<rparr>, ok))
      else (let (x, ok) = store_strings v (uo_TestOptions s) in (s\<lparr>uo_TestOptions := x\<rparr>, ok)))"

definition read_options :: "string \<Rightarrow> UpgradeOptions option" where
  "read_options val = json_Unmarshal [''Suite'', ''ToImage'', ''JUnitDir'', ''TestOptions''] store_option val
     \<lparr>uo_Suite = [], uo_ToImage = [], uo_JUnitDir = [], uo_TestOptions = None\<rparr>"

text \<open>The package variables of the upgrade test and the settings of the framework.\<close>

record 't upgrade_vars =
  upgradeTests :: "'t list"
  upgradeAbortAt :: int
  upgradeDisruptRebootPolicy :: string
  upgradeTarget :: string
  upgradeImage :: string
  ReportDir :: string

definition upgradeAbortAtRandom :: int where
  "upgradeAbortAtRandom = -1"

text \<open>A setter returns the variables and an error, since it may change them and fail.\<close>

definition SetUpgradeDisruptReboot :: "string \<Rightarrow> 't upgrade_vars \<Rightarrow> 't upgrade_vars \<times> go_error option" where
  "SetUpgradeDisruptReboot policy v =
     (if policy = ''graceful'' \<or> policy = ''force'' then (v\<lparr>upgradeDisruptRebootPolicy := policy\<rparr>, None)
      else (v\<lparr>upgradeDisruptRebootPolicy := []\<rparr>,
            Some (''disrupt-reboot must be empty, 'graceful', or 'force'' @ [CHR 0x27])))"

definition abort_at_error :: go_error where
  "abort_at_error = ''abort-at must be empty, set to 'random', or an integer in [0,100], inclusive''"

definition SetUpgradeAbortAt :: "string \<Rightarrow> 't upgrade_vars \<Rightarrow> 't upgrade_vars \<times> go_error option" where
  "SetUpgradeAbortAt policy v =
     (let v = (if length policy = 0 then v\<lparr>upgradeAbortAt := 0\<rparr> else v) in
      if policy = ''random'' then (v\<lparr>upgradeAbortAt := upgradeAbortAtRandom\<rparr>, None)
      else case atoi policy of
        Some val \<Rightarrow>
          if val < 0 \<or> val > 100 then (v, Some abort_at_error)
          else if val = 0 then (v\<lparr>upgradeAbortAt := 1\<rparr>, None)
          else (v\<lparr>upgradeAbortAt := val\<rparr>, None)
      | None \<Rightarrow> (v, Some abort_at_error))"

text \<open>The \<open>Init\<close> of the suite, over the entries of the options in the order in which the map yields them.\<close>

fun init_options :: "(string \<times> string) list \<Rightarrow> 't upgrade_vars \<Rightarrow> 't upgrade_vars \<times> go_error option" where
  "init_options [] v = (v, None)"
| "init_options ((k, x) # r) v =
     (if k = ''abort-at'' then
        (case SetUpgradeAbortAt x v of (v', None) \<Rightarrow> init_options r v' | (v', Some e) \<Rightarrow> (v', Some e))
      else if k = ''disrupt-reboot'' then
        (case SetUpgradeDisruptReboot x v of (v', None) \<Rightarrow> init_options r v' | (v', Some e) \<Rightarrow> (v', Some e))
      else (v, Some (''unrecognized upgrade option: '' @ k)))"

definition filterUpgrade :: "('t \<Rightarrow> string) \<Rightarrow> 't list \<Rightarrow> (string \<Rightarrow> bool) \<Rightarrow> 't upgrade_vars \<Rightarrow> 't upgrade_vars" where
  "filterUpgrade name tests match v = v\<lparr>upgradeTests := filter (match \<circ> name) tests\<rparr>"

text \<open>
  \<open>initUpgrade\<close>: \<open>json_msg\<close> is the text of the error for a value that cannot be decoded, \<open>entries\<close> lists a map in
  some order. There is one upgrade suite, \<open>all\<close>, which takes all tests.
\<close>

definition initUpgrade ::
  "(string \<Rightarrow> go_error) \<Rightarrow> ((string \<rightharpoonup> string) \<Rightarrow> (string \<times> string) list) \<Rightarrow> ('t \<Rightarrow> string) \<Rightarrow> 't list
    \<Rightarrow> string \<Rightarrow> 't upgrade_vars \<Rightarrow> 't upgrade_vars \<times> go_error option" where
  "initUpgrade json_msg entries name tests val v =
     (if length val = 0 then (v, None)
      else case read_options val of
        None \<Rightarrow> (v, Some (json_msg val))
      | Some opt \<Rightarrow>
          if uo_Suite opt = ''all'' then
            (let v = v\<lparr>upgradeTarget := [], upgradeImage := uo_ToImage opt, ReportDir := uo_JUnitDir opt\<rparr> in
             case OptionsMap opt of
               Inl e \<Rightarrow> (v, Some e)
             | Inr m \<Rightarrow>
                 (case init_options (entries m) v of
                    (v', Some e) \<Rightarrow> (v', Some e)
                  | (v', None) \<Rightarrow> (filterUpgrade name tests (\<lambda>_. True) v', None)))
          else (v, Some ''unrecognized upgrade info''))"

section \<open>Which values are accepted\<close>

lemma atoi_texts: "atoi '''' = None" "atoi ''random'' = None"
  by code_simp+

section \<open>Options of the command line\<close>

lemma options_loop_pairs:
  assumes "distinct (map fst kvs)" and "\<forall>(k, v) \<in> set kvs. k \<noteq> [] \<and> CHR ''='' \<notin> set k"
    and "\<forall>k \<in> dom m. k \<notin> fst ` set kvs"
  shows "options_loop (map (\<lambda>(k, v). k @ CHR ''='' # v) kvs) m = Inr (m ++ map_of kvs)"
  using assms
proof (induction kvs arbitrary: m)
  case (Cons kv kvs)
  obtain k v where kv: "kv = (k, v)" by fastforce
  have k: "k \<noteq> []" "CHR ''='' \<notin> set k" "m k = None" using Cons.prems kv by auto
  have "options_loop (map (\<lambda>(k, v). k @ CHR ''='' # v) kvs) (m(k \<mapsto> v)) = Inr (m(k \<mapsto> v) ++ map_of kvs)"
  proof (rule Cons.IH)
    have "dom (m(k \<mapsto> v)) = insert k (dom m)" by simp
    then show "\<forall>x \<in> dom (m(k \<mapsto> v)). x \<notin> fst ` set kvs" using Cons.prems(1,3) kv by (simp add: image_iff)
  qed (use Cons.prems kv in auto)
  moreover have "m(k \<mapsto> v) ++ map_of kvs = m ++ map_of (kv # kvs)"
    using Cons.prems(1) kv by (simp add: map_add_upd_left dom_map_of_conv_image_fst)
  moreover have "options_loop (map (\<lambda>(k, v). k @ CHR ''='' # v) (kv # kvs)) m
    = options_loop (map (\<lambda>(k, v). k @ CHR ''='' # v) kvs) (m(k \<mapsto> v))"
    using k kv by (simp add: splitN2_char)
  ultimately show ?case by (simp only:)
qed simp

section \<open>What the child process reads\<close>

lemma json_join_length: "length xs \<le> length (str_join (map json_quote xs) '','')"
proof (induction xs)
  case (Cons x xs)
  then show ?case by (cases xs) (simp_all add: json_quote_def)
qed simp

definition option_members :: "UpgradeOptions \<Rightarrow> (string \<times> json) list" where
  "option_members o' = [(''Suite'', JStr (uo_Suite o')), (''ToImage'', JStr (uo_ToImage o')), (''JUnitDir'', JStr (uo_JUnitDir o')),
     (''TestOptions'', case uo_TestOptions o' of None \<Rightarrow> JNull | Some xs \<Rightarrow> JArr (map JStr xs))]"

lemma parse_ToEnv: "json_parse (ToEnv o') = Some (JObj (option_members o'))"
proof -
  let ?l = "uo_TestOptions o'"
  have "length (case ?l of None \<Rightarrow> [] | Some xs \<Rightarrow> xs) \<le> length (json_strings ?l)"
    using json_join_length [of "the ?l"] by (auto simp: json_strings_def split: option.splits)
  moreover have "length (json_strings ?l) + 10 \<le> length (ToEnv o')" by (simp add: ToEnv_def json_quote_def)
  ultimately have "length (case ?l of None \<Rightarrow> [] | Some xs \<Rightarrow> xs) + 7 \<le> 2 * length (ToEnv o') + 2" by linarith
  then obtain k where "2 * length (ToEnv o') + 2 = length (case ?l of None \<Rightarrow> [] | Some xs \<Rightarrow> xs) + 7 + k" using le_Suc_ex by blast
  then obtain m where m: "2 * length (ToEnv o') + 2 = Suc (Suc (Suc (Suc (Suc m))))" "length (case ?l of None \<Rightarrow> [] | Some xs \<Rightarrow> xs) + 2 \<le> m"
    by (intro that [of "length (case ?l of None \<Rightarrow> [] | Some xs \<Rightarrow> xs) + 2 + k"]) simp_all
  have last: "json_members (Suc m) (json_quote ''TestOptions'' @ '':'' @ json_strings ?l @ ''}'' @ [])
    = Some ([(''TestOptions'', case ?l of None \<Rightarrow> JNull | Some xs \<Rightarrow> JArr (map JStr xs))], [])"
    by (rule json_members_last [OF json_value_strings [OF m(2)]])
  have mem: "json_members (Suc (Suc n)) (json_quote k @ '':'' @ json_quote x @ '','' @ r) = Some ((k, JStr x) # ms, r')"
    if "json_members (Suc n) r = Some (ms, r')" for n k x r ms r'
    by (rule json_members_more [OF json_value_quote that])
  have "json_members (Suc (Suc (Suc (Suc m)))) (tl (ToEnv o')) = Some (option_members o', [])"
    using mem [OF mem [OF mem [OF last]]] by (simp add: ToEnv_def option_members_def)
  moreover obtain u where "tl (ToEnv o') = dquote # u" "ToEnv o' = CHR ''{'' # tl (ToEnv o')"
    by (simp add: ToEnv_def json_quote_def)
  ultimately have "json_value (Suc (Suc (Suc (Suc (Suc m))))) (ToEnv o') = Some (JObj (option_members o'), [])"
    by (subst \<open>ToEnv o' = CHR ''{'' # tl (ToEnv o')\<close>) (simp add: json_value.simps)
  then have "json_value (2 * length (ToEnv o') + 2) (ToEnv o') = Some (JObj (option_members o'), [])" by (simp only: m(1))
  then show ?thesis by (simp add: json_parse_def)
qed

lemma read_ToEnv: "read_options (ToEnv o') = Some o'"
proof -
  have elems: "store_elems (map JStr xs) old = (xs, True)" for xs old
    by (induction xs arbitrary: old) (simp_all add: store_string_def)
  show ?thesis
    by (cases "uo_TestOptions o'") (simp_all add: read_options_def json_Unmarshal_def parse_ToEnv option_members_def struct_field_def
        store_option_def store_string_def store_strings_def elems)
qed

section \<open>The order of the options\<close>

text \<open>What an accepted value of the abort option sets, independent of the settings before.\<close>

definition abort_value :: "string \<Rightarrow> int option" where
  "abort_value x = (if x = ''random'' then Some upgradeAbortAtRandom
     else case atoi x of Some n \<Rightarrow> if 0 \<le> n \<and> n \<le> 100 then Some (if n = 0 then 1 else n) else None | None \<Rightarrow> None)"

definition reboot_value :: "string \<Rightarrow> string option" where
  "reboot_value x = (if x = ''graceful'' \<or> x = ''force'' then Some x else None)"

lemma SetUpgradeAbortAt_ok:
  "SetUpgradeAbortAt x v = (v', None) \<longleftrightarrow> (\<exists>n. abort_value x = Some n \<and> v' = v\<lparr>upgradeAbortAt := n\<rparr>)"
  using atoi_texts by (auto simp: SetUpgradeAbortAt_def abort_value_def Let_def split: option.splits if_splits)

lemma SetUpgradeDisruptReboot_ok:
  "SetUpgradeDisruptReboot x v = (v', None) \<longleftrightarrow> (\<exists>p. reboot_value x = Some p \<and> v' = v\<lparr>upgradeDisruptRebootPolicy := p\<rparr>)"
  by (auto simp: SetUpgradeDisruptReboot_def reboot_value_def)

definition option_ok :: "string \<times> string \<Rightarrow> bool" where
  "option_ok kx = (case kx of (k, x) \<Rightarrow>
     (if k = ''abort-at'' then abort_value x \<noteq> None else if k = ''disrupt-reboot'' then reboot_value x \<noteq> None else False))"

text \<open>The settings that options make, read off the map of the options.\<close>

definition options_set :: "(string \<rightharpoonup> string) \<Rightarrow> 't upgrade_vars \<Rightarrow> 't upgrade_vars" where
  "options_set m v = v\<lparr>upgradeAbortAt := (case Option.bind (m ''abort-at'') abort_value of Some n \<Rightarrow> n | None \<Rightarrow> upgradeAbortAt v),
     upgradeDisruptRebootPolicy := (case Option.bind (m ''disrupt-reboot'') reboot_value of Some p \<Rightarrow> p | None \<Rightarrow> upgradeDisruptRebootPolicy v)\<rparr>"

lemma init_options_ok:
  assumes "distinct (map fst kvs)"
  shows "init_options kvs v = (v', None) \<longleftrightarrow> list_all option_ok kvs \<and> v' = options_set (map_of kvs) v"
  using assms
proof (induction kvs arbitrary: v)
  case Nil
  then show ?case by (auto simp: options_set_def)
next
  case (Cons kx kvs)
  obtain k x where kx: "kx = (k, x)" by fastforce
  have fresh: "map_of kvs k = None" using Cons.prems kx by (simp add: map_of_eq_None_iff)
  note IH = Cons.IH [OF distinct_tl [OF Cons.prems [unfolded list.map(2)], unfolded list.sel(3)]]
  consider (a) "k = ''abort-at''" | (r) "k = ''disrupt-reboot''" | (o) "k \<noteq> ''abort-at''" "k \<noteq> ''disrupt-reboot''" by blast
  then show ?case
  proof cases
    case a
    show ?thesis
    proof (cases "abort_value x")
      case None
      then have "snd (SetUpgradeAbortAt x v) \<noteq> None" using SetUpgradeAbortAt_ok [of x v "fst (SetUpgradeAbortAt x v)"] by (metis option.distinct(1) prod.collapse)
      with None show ?thesis using a kx by (auto simp: option_ok_def split: prod.splits option.splits)
    next
      case (Some n)
      then have "SetUpgradeAbortAt x v = (v\<lparr>upgradeAbortAt := n\<rparr>, None)" using SetUpgradeAbortAt_ok by blast
      moreover have "options_set (map_of kvs) (v\<lparr>upgradeAbortAt := n\<rparr>) = options_set (map_of (kx # kvs)) v"
        using Some a kx fresh by (simp add: options_set_def split: option.split)
      moreover have "option_ok kx" using Some a kx by (simp add: option_ok_def)
      ultimately show ?thesis using a kx IH [of "v\<lparr>upgradeAbortAt := n\<rparr>"] by (simp add: fun_upd_def)
    qed
  next
    case r
    show ?thesis
    proof (cases "reboot_value x")
      case None
      then have "snd (SetUpgradeDisruptReboot x v) \<noteq> None" by (auto simp: SetUpgradeDisruptReboot_def reboot_value_def split: if_splits)
      with None show ?thesis using r kx by (auto simp: option_ok_def split: prod.splits option.splits)
    next
      case (Some p)
      then have "SetUpgradeDisruptReboot x v = (v\<lparr>upgradeDisruptRebootPolicy := p\<rparr>, None)" using SetUpgradeDisruptReboot_ok by blast
      moreover have "options_set (map_of kvs) (v\<lparr>upgradeDisruptRebootPolicy := p\<rparr>) = options_set (map_of (kx # kvs)) v"
        using Some r kx fresh by (simp add: options_set_def split: option.split)
      moreover have "option_ok kx" using Some r kx by (simp add: option_ok_def)
      ultimately show ?thesis using r kx IH [of "v\<lparr>upgradeDisruptRebootPolicy := p\<rparr>"] by (simp add: fun_upd_def)
    qed
  next
    case o
    then show ?thesis using kx by (simp add: option_ok_def)
  qed
qed

end
