(* ===== verification/Upgrade.thy ===== *)
theory Upgrade
  imports Go_Float Monitor_Objects Upgrade_Options
begin

text \<open>
  The upgrade test of \<open>src/test/e2e/upgrade/upgrade.go\<close> and \<open>monitor.go\<close>. The cluster is an input: what each request to the API
  returns. The library that parses and prints semantic versions is a parameter.
\<close>

section \<open>Versions and conditions\<close>

record Update =
  u_Version :: string
  u_Image :: string
  u_Force :: bool

record UpgradeCV = ClusterVersion +
  DesiredUpdate :: "Update option"
  Generation :: int
  ObservedGeneration :: int
  Desired :: Update

abbreviation findCondition :: "StatusCondition list \<Rightarrow> string \<Rightarrow> StatusCondition option" where
  "findCondition \<equiv> find_first sc_Type"

definition latestHistory :: "UpdateHistory list \<Rightarrow> UpdateHistory option" where
  "latestHistory h = (case h of [] \<Rightarrow> None | x # _ \<Rightarrow> Some x)"

fun latestCompleted :: "UpdateHistory list \<Rightarrow> Update option" where
  "latestCompleted [] = None"
| "latestCompleted (h # hs) =
     (if uh_State h = CompletedUpdate then Some \<lparr>u_Version = uh_Version h, u_Image = uh_Image h, u_Force = False\<rparr>
      else latestCompleted hs)"

definition equivalentUpdates :: "Update \<Rightarrow> Update \<Rightarrow> bool" where
  "equivalentUpdates a b =
     (if length (u_Image a) > 0 \<and> length (u_Image b) > 0 then u_Image a = u_Image b
      else if length (u_Version a) > 0 \<and> length (u_Version b) > 0 then u_Version a = u_Version b
      else False)"

definition versionString :: "Update \<Rightarrow> string" where
  "versionString u =
     (if length (u_Version u) > 0 \<and> length (u_Image u) > 0 then u_Version u @ '' ('' @ u_Image u @ '')''
      else if length (u_Image u) > 0 then u_Image u
      else if length (u_Version u) > 0 then u_Version u
      else ''<empty>'')"

fun findVersion :: "OperandVersion list \<Rightarrow> string \<Rightarrow> string \<Rightarrow> string \<Rightarrow> string" where
  "findVersion [] name oldVersion newVersion = []"
| "findVersion (v # vs) name oldVersion newVersion =
     (if ov_Name v = name then
        (if length oldVersion > 0 \<and> ov_Version v = oldVersion then ''<old>''
         else if length newVersion > 0 \<and> ov_Version v = newVersion then ''<new>''
         else ov_Version v)
      else findVersion vs name oldVersion newVersion)"

definition findConditionShortStatus :: "StatusCondition list \<Rightarrow> string \<Rightarrow> string \<Rightarrow> string" where
  "findConditionShortStatus cs name unless =
     (case findCondition cs name of
        None \<Rightarrow> '' ''
      | Some c \<Rightarrow>
          if sc_Status c = ''True'' then (if unless = sc_Status c then '' '' else ''T'')
          else if sc_Status c = ''False'' then (if unless = sc_Status c then '' '' else ''F'')
          else ''U'')"

definition findConditionMessage :: "StatusCondition list \<Rightarrow> string \<Rightarrow> string" where
  "findConditionMessage cs name = (case findCondition cs name of Some c \<Rightarrow> sc_Message c | None \<Rightarrow> [])"

section \<open>What to upgrade to\<close>

record 'v VersionContext =
  vc_Version :: 'v
  NodeImage :: string

text \<open>
  \<open>getUpgradeContext\<close>: the list of versions. \<open>zero\<close> is the empty version. The messages that dump a
  condition are kept without the dump.
\<close>

definition getUpgradeContext ::
  "(string \<Rightarrow> 'v go_result) \<Rightarrow> 'v \<Rightarrow> 'v \<Rightarrow> 'v \<Rightarrow> UpgradeCV go_result \<Rightarrow> string \<Rightarrow> string \<Rightarrow> 'v VersionContext list go_result" where
  "getUpgradeContext parse zero v1 v2 resp target img =
     (if target = ''[pause]'' then
        Inr [\<lparr>vc_Version = v1, NodeImage = ''[pause]''\<rparr>, \<lparr>vc_Version = v2, NodeImage = ''[pause]''\<rparr>]
      else case resp of Inl e \<Rightarrow> Inl e | Inr cv \<Rightarrow>
        if (case DesiredUpdate cv of None \<Rightarrow> False | Some _ \<Rightarrow> ObservedGeneration cv \<noteq> Generation cv) then
          Inl ''cluster may be in the process of upgrading, cannot start a test''
        else if (case DesiredUpdate cv of None \<Rightarrow> False
                 | Some _ \<Rightarrow> (case History cv of [] \<Rightarrow> False | h # _ \<Rightarrow> uh_State h \<noteq> CompletedUpdate)) then
          Inl (''cluster is already being upgraded, cannot start a test: '' @ versionString (the (DesiredUpdate cv)))
        else if (case findCondition (cv_Conditions cv) ''Degraded'' of Some c \<Rightarrow> sc_Status c = ''True'' | None \<Rightarrow> False) then
          Inl (''cluster is reporting a degraded condition, cannot continue: '' @ findConditionMessage (cv_Conditions cv) ''Degraded'')
        else if (case findCondition (cv_Conditions cv) ''Failing'' of Some c \<Rightarrow> sc_Status c = ''True'' | None \<Rightarrow> False) then
          Inl (''cluster is reporting a failing condition, cannot continue: '' @ findConditionMessage (cv_Conditions cv) ''Failing'')
        else if (case findCondition (cv_Conditions cv) ''Progressing'' of Some c \<Rightarrow> sc_Status c \<noteq> ''False'' | None \<Rightarrow> True) then
          Inl ''cluster must be reporting a progressing=false condition, cannot continue''
        else if (case findCondition (cv_Conditions cv) ''Available'' of Some c \<Rightarrow> sc_Status c \<noteq> ''True'' | None \<Rightarrow> True) then
          Inl ''cluster must be reporting an available=true condition, cannot continue''
        else case latestCompleted (History cv) of
          None \<Rightarrow> Inl ''cluster has not rolled out a version yet, must wait until that is complete''
        | Some current \<Rightarrow>
            (case parse (u_Version current) of
               Inl e \<Rightarrow> Inl e
             | Inr curVer \<Rightarrow>
                 let cur = \<lparr>vc_Version = curVer, NodeImage = u_Image current\<rparr> in
                 if length target = 0 \<and> length img = 0 then Inr [cur]
                 else if length img > 0 \<and> img = u_Image current \<or> length target > 0 \<and> target = u_Version current then
                   Inl (''cluster is already at version '' @ versionString current)
                 else if length target > 0 then
                   (case parse target of Inl e \<Rightarrow> Inl e | Inr v \<Rightarrow> Inr [cur, \<lparr>vc_Version = v, NodeImage = img\<rparr>])
                 else Inr [cur, \<lparr>vc_Version = zero, NodeImage = img\<rparr>]))"

text \<open>The test body takes the second version.\<close>

definition upgrade_target :: "'v VersionContext list go_result \<Rightarrow> 'v VersionContext outcome" where
  "upgrade_target ctx =
     (case ctx of Inl e \<Rightarrow> Err e | Inr vs \<Rightarrow> if 1 < length vs then Ok (vs ! 1) else Panic ''index out of range'')"

section \<open>The version monitor\<close>

record versionMonitor =
  lastCV :: "UpgradeCV option"
  oldVersion :: string

text \<open>\<open>Check\<close>: the new state of the monitor, the cluster version, the message and the error.\<close>

definition Check ::
  "UpgradeCV go_result \<Rightarrow> int \<Rightarrow> Update \<Rightarrow> versionMonitor \<Rightarrow> versionMonitor \<times> UpgradeCV option \<times> string \<times> go_error option" where
  "Check resp initialGeneration desired m =
     (case resp of
        Inl e \<Rightarrow> (m, None, ''unable to retrieve cluster version during upgrade: '' @ e, None)
      | Inr cv \<Rightarrow>
          let m = m\<lparr>lastCV := Some cv\<rparr> in
          if ObservedGeneration cv > initialGeneration \<and> DesiredUpdate cv \<noteq> Some desired
          then (m, None, [], Some ''desired cluster version was changed by someone else'')
          else (m, Some cv,
                fold (\<lambda>t msg. case findCondition (cv_Conditions cv) t of
                        Some c \<Rightarrow> if sc_Status c = ''True'' then sc_Message c else msg
                      | None \<Rightarrow> msg) [''Progressing'', ''Degraded'', ''Failing''] [], None))"

definition Reached :: "UpgradeCV \<Rightarrow> Update \<Rightarrow> bool go_result" where
  "Reached cv desired =
     (if \<not> equivalentUpdates (Desired cv) desired then Inr False
      else if (case latestHistory (History cv) of
                 None \<Rightarrow> True
               | Some t \<Rightarrow> uh_State t \<noteq> CompletedUpdate
                    \<or> \<not> equivalentUpdates desired \<lparr>u_Version = uh_Version t, u_Image = uh_Image t, u_Force = False\<rparr>)
      then Inr False
      else if (case findCondition (cv_Conditions cv) ''Available'' of Some c \<Rightarrow> sc_Status c \<noteq> ''True'' | None \<Rightarrow> False) then
        Inl ''cluster version was Available=false after completion''
      else if (case findCondition (cv_Conditions cv) ''Progressing'' of Some c \<Rightarrow> sc_Status c = ''True'' | None \<Rightarrow> False) then
        Inl ''cluster version was Progressing=true after completion''
      else if (case findCondition (cv_Conditions cv) ''Degraded'' of Some c \<Rightarrow> sc_Status c = ''True'' | None \<Rightarrow> False) then
        Inl ''cluster version was Degraded=true after completion''
      else if (case findCondition (cv_Conditions cv) ''Failing'' of Some c \<Rightarrow> sc_Status c = ''True'' | None \<Rightarrow> False) then
        Inl ''cluster version was Failing=true after completion''
      else Inr True)"

text \<open>
  \<open>ShouldUpgradeAbort\<close>: the operators' versions are the response of the API; \<open>Panic\<close> when no cluster
  version has been seen. The quotients are \<open>float64\<close> values; with no operators the first is not a number and the
  comparison is false.
\<close>

definition ShouldUpgradeAbort :: "(OperandVersion list) list go_result \<Rightarrow> int \<Rightarrow> versionMonitor \<Rightarrow> bool outcome" where
  "ShouldUpgradeAbort resp abortAt m =
     (if abortAt = 0 then Ok False
      else case resp of
        Inl e \<Rightarrow> Ok False
      | Inr ops \<Rightarrow>
          (case lastCV m of
             None \<Rightarrow> if ops = [] then Ok True else Panic ''nil pointer dereference''
           | Some cv \<Rightarrow>
               let changed = length (filter (\<lambda>vs. findVersion vs ''operator'' (oldVersion m) (u_Version (Desired cv)) \<noteq> ''<old>'') ops);
                   percent = float_div (float64_of_int (int changed)) (float64_of_int (int (length ops)))
               in if float_less percent (float_div (float64_of_int abortAt) (float64_of_int 100)) then Ok False else Ok True))"

text \<open>
  \<open>Output\<close>: the rows of the table of operators that is logged, before the columns are aligned; the dump of the
  last cluster version is left out. Every row reads the last cluster version.
\<close>

definition output_row :: "versionMonitor \<Rightarrow> UpgradeCV \<Rightarrow> ClusterOperator \<Rightarrow> string list" where
  "output_row m cv item =
     [co_Name item,
      findConditionShortStatus (co_Conditions item) ''Available'' ''True'' @ '' ''
        @ findConditionShortStatus (co_Conditions item) ''Degraded'' ''False'' @ '' ''
        @ findConditionShortStatus (co_Conditions item) ''Progressing'' ''False'',
      findVersion (co_Versions item) ''operator'' (oldVersion m) (u_Version (Desired cv)),
      findConditionMessage (co_Conditions item) ''Progressing'']"

definition Output :: "ClusterOperator list go_result \<Rightarrow> versionMonitor \<Rightarrow> string list list outcome" where
  "Output resp m =
     (case resp of
        Inl e \<Rightarrow> Ok []
      | Inr items \<Rightarrow>
          (case lastCV m of
             Some cv \<Rightarrow> Ok ([''NAME'', ''A F P'', ''VERSION'', ''MESSAGE''] # map (output_row m cv) items)
           | None \<Rightarrow> if items = [] then Ok [[''NAME'', ''A F P'', ''VERSION'', ''MESSAGE'']]
                     else Panic ''nil pointer dereference''))"

text \<open>The output is logged before an error is returned.\<close>

definition fail_with_output :: "ClusterOperator list go_result \<Rightarrow> versionMonitor \<Rightarrow> go_error \<Rightarrow> unit outcome" where
  "fail_with_output resp m e = (case Output resp m of Panic p \<Rightarrow> Panic p | _ \<Rightarrow> Err e)"

text \<open>\<open>sequence\<close>: the condition functions that are left, and one call.\<close>

definition sequence_call :: "('w \<Rightarrow> bool \<times> go_error option) list \<Rightarrow> 'w \<Rightarrow> ('w \<Rightarrow> bool \<times> go_error option) list \<times> bool \<times> go_error option" where
  "sequence_call fns w =
     (case fns of
        [] \<Rightarrow> ([], True, None)
      | f # r \<Rightarrow>
          (case f w of
             (ok, Some e) \<Rightarrow> (fns, ok, Some e)
           | (ok, None) \<Rightarrow> if \<not> ok then (fns, False, None) else (r, r = [], None)))"

section \<open>The upgrade\<close>

text \<open>The abort percentage and the time allowed; \<open>rnd\<close> is the random number below 100.\<close>

definition abort_choice :: "int \<Rightarrow> int \<Rightarrow> int \<times> duration" where
  "abort_choice abortAt rnd =
     (if abortAt = 0 then (0, 75 * Minute)
      else if abortAt = upgradeAbortAtRandom then (rnd + 1, 150 * Minute)
      else (abortAt, 150 * Minute))"

text \<open>
  One poll of the loop that observes the upgrade: the answers of the API to the calls it may make (the
  cluster version, the operators, and the generation after a rollback has been requested, with all
  retries on conflicts), and the state of the loop with the updates requested so far.
\<close>

record poll_input =
  pi_cv :: "UpgradeCV go_result"
  pi_operators :: "(OperandVersion list) list go_result"
  pi_rollback :: "int go_result"

record observe_state =
  ob_monitor :: versionMonitor
  ob_desired :: Update
  ob_generation :: int
  ob_aborted :: bool
  ob_lastMessage :: string
  ob_requests :: "Update list"

definition rollback_update :: "string \<Rightarrow> Update" where
  "rollback_update oldImage = \<lparr>u_Version = [], u_Image = oldImage, u_Force = True\<rparr>"

definition observe_decide ::
  "int \<Rightarrow> string \<Rightarrow> poll_input \<Rightarrow> UpgradeCV option \<Rightarrow> go_error option \<Rightarrow> observe_state \<Rightarrow> observe_state \<times> bool outcome" where
  "observe_decide abortAt oldImage i cv err s =
     (case err of Some e \<Rightarrow> (s, Err e) | None \<Rightarrow>
      (case cv of None \<Rightarrow> (s, Ok False) | Some cv \<Rightarrow>
       (case (if \<not> ob_aborted s then ShouldUpgradeAbort (pi_operators i) abortAt (ob_monitor s) else Ok False) of
          Ok True \<Rightarrow>
            (case pi_rollback i of
               Inl e \<Rightarrow> (s\<lparr>ob_desired := rollback_update oldImage\<rparr>, Err e)
             | Inr g \<Rightarrow> (s\<lparr>ob_desired := rollback_update oldImage, ob_generation := g, ob_aborted := True,
                          ob_requests := ob_requests s @ [rollback_update oldImage]\<rparr>, Ok False))
        | Ok False \<Rightarrow> (case Reached cv (ob_desired s) of Inl e \<Rightarrow> (s, Err e) | Inr b \<Rightarrow> (s, Ok b))
        | Err e \<Rightarrow> (s, Err e)
        | Panic p \<Rightarrow> (s, Panic p))))"

definition observe_poll :: "int \<Rightarrow> string \<Rightarrow> poll_input \<Rightarrow> observe_state \<Rightarrow> observe_state \<times> bool outcome" where
  "observe_poll abortAt oldImage i s =
     (let (m, cv, msg, err) = Check (pi_cv i) (ob_generation s) (ob_desired s) (ob_monitor s);
          s = s\<lparr>ob_monitor := m\<rparr>;
          s = (if msg \<noteq> [] then s\<lparr>ob_lastMessage := msg\<rparr> else s)
      in observe_decide abortAt oldImage i cv err s)"

text \<open>\<open>wait.PollImmediate\<close>: the polls that happen before the time is over.\<close>

fun observe :: "int \<Rightarrow> string \<Rightarrow> poll_input list \<Rightarrow> observe_state \<Rightarrow> observe_state \<times> unit outcome" where
  "observe abortAt oldImage [] s = (s, Err ''timed out waiting for the condition'')"
| "observe abortAt oldImage (i # is) s =
     (case observe_poll abortAt oldImage i s of
        (s', Ok True) \<Rightarrow> (s', Ok ())
      | (s', Ok False) \<Rightarrow> observe abortAt oldImage is s'
      | (s', Err e) \<Rightarrow> (s', Err e)
      | (s', Panic p) \<Rightarrow> (s', Panic p))"

text \<open>The loop that waits until the cluster acknowledges the request.\<close>

fun acknowledge :: "int \<Rightarrow> Update \<Rightarrow> UpgradeCV go_result list \<Rightarrow> versionMonitor \<Rightarrow> versionMonitor \<times> unit go_result" where
  "acknowledge g desired [] m = (m, Inl ''timed out waiting for the condition'')"
| "acknowledge g desired (resp # r) m =
     (case Check resp g desired m of
        (m', _, _, Some e) \<Rightarrow> (m', Inl e)
      | (m', None, _, None) \<Rightarrow> acknowledge g desired r m'
      | (m', Some cv, _, None) \<Rightarrow> if ObservedGeneration cv \<ge> g then (m', Inr ()) else acknowledge g desired r m')"

text \<open>
  The conditions of a machine config pool as found in the unstructured object: \<open>None\<close> when a step of
  reading them fails, and for each condition the type and the status.
\<close>

definition IsPoolUpdated :: "(string \<times> string) option list option \<Rightarrow> bool" where
  "IsPoolUpdated pool =
     (case pool of
        None \<Rightarrow> False
      | Some cs \<Rightarrow>
          if None \<in> set cs then False
          else let has_true = (\<lambda>t. Some (t, ''True'') \<in> set cs) in
            has_true ''Updated'' \<and> \<not> has_true ''Updating'' \<and> \<not> has_true ''Degraded'')"

text \<open>One poll of the pools; a failed list is not an error.\<close>

definition pools_updated :: "((string \<times> string) option list option) list go_result \<Rightarrow> bool" where
  "pools_updated resp = (case resp of Inl e \<Rightarrow> False | Inr pools \<Rightarrow> list_all IsPoolUpdated pools)"

record 'v upgrade_input =
  ui_cv :: "UpgradeCV go_result"
  ui_updated :: "int go_result"
  ui_acks :: "UpgradeCV go_result list"
  ui_polls :: "poll_input list"
  ui_pools :: "(((string \<times> string) option list option) list go_result) list"
  ui_output :: "ClusterOperator list go_result"
  ui_rnd :: int

definition clusterUpgrade :: "('v \<Rightarrow> string) \<Rightarrow> 'v upgrade_input \<Rightarrow> int \<Rightarrow> 'v VersionContext \<Rightarrow> unit outcome" where
  "clusterUpgrade show_version env abort ver =
     (if NodeImage ver = ''[pause]'' then Ok ()
      else let (abortAt, _) = abort_choice abort (ui_rnd env) in
      case ui_cv env of Inl e \<Rightarrow> Err e | Inr cv \<Rightarrow>
      (let oldImage = u_Image (Desired cv);
           desired = \<lparr>u_Version = show_version (vc_Version ver), u_Image = NodeImage ver, u_Force = True\<rparr> in
       case ui_updated env of Inl e \<Rightarrow> Err e | Inr g \<Rightarrow>
       (case acknowledge g desired (ui_acks env) \<lparr>lastCV = None, oldVersion = u_Version (Desired cv)\<rparr> of
          (m, Inl e) \<Rightarrow> fail_with_output (ui_output env) m
            (''Cluster did not acknowledge request to upgrade in a reasonable time: '' @ e)
        | (m, Inr _) \<Rightarrow>
            (case observe abortAt oldImage (ui_polls env)
                    \<lparr>ob_monitor = m, ob_desired = desired, ob_generation = g, ob_aborted = False, ob_lastMessage = [],
                     ob_requests = []\<rparr> of
               (s, Err e) \<Rightarrow>
                 fail_with_output (ui_output env) (ob_monitor s) (''Cluster did not complete upgrade: '' @ e
                   @ (if ob_lastMessage s \<noteq> [] then '': '' @ ob_lastMessage s else []))
             | (s, Panic p) \<Rightarrow> Panic p
             | (s, Ok _) \<Rightarrow>
                 if list_ex pools_updated (ui_pools env) then Ok ()
                 else Err ''Pools did not complete upgrade: timed out waiting for the condition''))))"

section \<open>Rebooting masters\<close>

text \<open>
  \<open>triggerReboot\<close> creates a pod under the name of the attempt and tries the next attempt when the name is
  taken; \<open>create\<close> is the answer of the API to the creation of a pod: \<open>None\<close>, or an error and whether it
  says that the pod exists. The result is None when the names never end.
\<close>

record reboot_pod =
  rp_Namespace :: string
  rp_Name :: string
  rp_UpgradesTarget :: string
  rp_HostPID :: bool
  rp_RestartPolicy :: string
  rp_NodeName :: string
  rp_HostVolumes :: "(string \<times> string) list"
  rp_ContainerName :: string
  rp_RunAsUser :: int
  rp_Privileged :: bool
  rp_Image :: string
  rp_Command :: "string list"
  rp_TerminationMessagePolicy :: string
  rp_VolumeMounts :: "(string \<times> string) list"

definition reboot_name :: "string \<Rightarrow> nat \<Rightarrow> string" where
  "reboot_name target attempt = ''reboot-'' @ target @ ''-'' @ nat_str attempt"

definition reboot_command :: "bool \<Rightarrow> string" where
  "reboot_command rebootHard =
     (if rebootHard
      then ''echo 'reboot in 1 minute'; exec chroot /host sudo systemd-run sh -c 'sleep 60 && reboot --force --force'' @ [CHR 0x27]
      else ''echo 'reboot in 1 minute'; exec chroot /host shutdown -r 1'')"

definition make_reboot_pod :: "string \<Rightarrow> nat \<Rightarrow> bool \<Rightarrow> reboot_pod" where
  "make_reboot_pod target attempt rebootHard =
     \<lparr>rp_Namespace = ''kube-system'', rp_Name = reboot_name target attempt, rp_UpgradesTarget = target,
      rp_HostPID = True, rp_RestartPolicy = ''Never'', rp_NodeName = target, rp_HostVolumes = [(''host'', ''/'')],
      rp_ContainerName = ''reboot'', rp_RunAsUser = 0, rp_Privileged = True, rp_Image = ''centos:7'',
      rp_Command = [''/bin/bash'', ''-c'', reboot_command rebootHard],
      rp_TerminationMessagePolicy = ''FallbackToLogsOnError'', rp_VolumeMounts = [(''host'', ''/host'')]\<rparr>"

partial_function (option) triggerReboot ::
  "(reboot_pod \<Rightarrow> (go_error \<times> bool) option) \<Rightarrow> string \<Rightarrow> nat \<Rightarrow> bool \<Rightarrow> (nat \<times> go_error option) option" where
  "triggerReboot create target attempt rebootHard =
     (case create (make_reboot_pod target attempt rebootHard) of
        None \<Rightarrow> Some (attempt, None)
      | Some (e, exists) \<Rightarrow>
          if exists then triggerReboot create target (attempt + 1) rebootHard else Some (attempt, Some e))"

text \<open>
  \<open>Disrupt\<close>: the rounds of the loop until the context is cancelled. The environment gives for every round
  whether the context is cancelled, the masters in the order of the shuffle, and the answers to the creation
  of pods. The result is the list of the pods that were created, None when a creation never ends.
\<close>

record disrupt_round =
  dr_cancelled :: bool
  dr_nodes :: "string list go_result"
  dr_create :: "reboot_pod \<Rightarrow> (go_error \<times> bool) option"

fun disrupt_loop :: "bool \<Rightarrow> disrupt_round list \<Rightarrow> reboot_pod list option" where
  "disrupt_loop hard [] = Some []"
| "disrupt_loop hard (r # rs) =
     (if dr_cancelled r then Some []
      else case dr_nodes r of
        Inl e \<Rightarrow> disrupt_loop hard rs
      | Inr [] \<Rightarrow> disrupt_loop hard rs
      | Inr (name # _) \<Rightarrow>
          (case triggerReboot (dr_create r) name 0 hard of
             None \<Rightarrow> None
           | Some (k, Some e) \<Rightarrow> disrupt_loop hard rs
           | Some (k, None) \<Rightarrow> map_option (Cons (make_reboot_pod name k hard)) (disrupt_loop hard rs)))"

definition Disrupt :: "string \<Rightarrow> disrupt_round list \<Rightarrow> reboot_pod list option" where
  "Disrupt rebootPolicy rounds =
     (if rebootPolicy = [] then Some [] else disrupt_loop (rebootPolicy = ''force'') rounds)"

section \<open>Correctness of the upgrade\<close>

text \<open>The state of the loop: no rollback has been requested, or one has.\<close>

definition observe_inv :: "Update \<Rightarrow> string \<Rightarrow> observe_state \<Rightarrow> bool" where
  "observe_inv d oldImage s =
     (if ob_aborted s then ob_requests s = [rollback_update oldImage] \<and> ob_desired s = rollback_update oldImage
      else ob_requests s = [] \<and> ob_desired s = d)"

lemma Check_lastCV: "Check resp g d m = (m', Some cv, msg, err) \<Longrightarrow> lastCV m' = Some cv"
  by (auto simp: Check_def Let_def split: sum.splits if_splits)

lemma observe_poll_inv:
  assumes inv: "observe_inv d oldImage s" and poll: "observe_poll abortAt oldImage i s = (s', res)"
  shows "length (ob_requests s') \<le> 1 \<and> (res = Ok False \<longrightarrow> observe_inv d oldImage s')
    \<and> (res = Ok True \<longrightarrow> observe_inv d oldImage s'
        \<and> (\<exists>cv. lastCV (ob_monitor s') = Some cv \<and> Reached cv (ob_desired s') = Inr True))"
proof -
  obtain m cv msg err where c: "Check (pi_cv i) (ob_generation s) (ob_desired s) (ob_monitor s) = (m, cv, msg, err)"
    by (metis prod_cases4)
  define t where "t = (if msg \<noteq> [] then s\<lparr>ob_monitor := m, ob_lastMessage := msg\<rparr> else s\<lparr>ob_monitor := m\<rparr>)"
  have t: "ob_requests t = ob_requests s" "ob_aborted t = ob_aborted s" "ob_desired t = ob_desired s" "ob_monitor t = m"
    by (auto simp: t_def)
  have len: "length (ob_requests s) \<le> 1" and tinv: "observe_inv d oldImage t"
    using inv t by (auto simp: observe_inv_def split: if_splits)
  have "observe_poll abortAt oldImage i s = observe_decide abortAt oldImage i cv err t"
    by (simp add: observe_poll_def c Let_def t_def)
  note u = this [unfolded observe_decide_def]
  show ?thesis
  proof (cases "err = None \<and> cv \<noteq> None")
    case False
    with u poll t len tinv show ?thesis by (auto split: option.splits)
  next
    case True
    then obtain v where v: "cv = Some v" by blast
    with c Check_lastCV have last: "lastCV m = Some v" by blast
    let ?abort = "if \<not> ob_aborted t then ShouldUpgradeAbort (pi_operators i) abortAt (ob_monitor t) else Ok False"
    show ?thesis
    proof (cases "?abort = Ok True")
      case ab: True
      then have na: "\<not> ob_aborted t" by (auto split: if_splits)
      with tinv have rq: "ob_requests t = []" by (simp add: observe_inv_def)
      show ?thesis using u poll True v ab na rq by (auto simp: observe_inv_def split: sum.splits)
    next
      case False
      with u poll True v t len tinv last show ?thesis
        by (cases ?abort) (auto split: sum.splits bool.splits)
    qed
  qed
qed

text \<open>
  C11: While it observes an upgrade, the test requests a rollback at most once, whatever the cluster
  answers, and it reports success only when the last cluster version it read has reached the update that
  it asked for last: the new version, or the old image after a rollback.
\<close>
theorem upgrade_rolls_back_once:
  assumes "observe abortAt oldImage is \<lparr>ob_monitor = m, ob_desired = d, ob_generation = g, ob_aborted = False,
      ob_lastMessage = [], ob_requests = []\<rparr> = (s, res)"
  shows "length (ob_requests s) \<le> 1 \<and> (if res = Ok () then
      (\<exists>cv. lastCV (ob_monitor s) = Some cv
        \<and> Reached cv (if ob_requests s = [] then d else rollback_update oldImage) = Inr True) else True)"
proof -
  have "observe_inv d oldImage s0 \<Longrightarrow> observe abortAt oldImage is s0 = (s, res) \<Longrightarrow> length (ob_requests s) \<le> 1
    \<and> (res = Ok () \<longrightarrow> observe_inv d oldImage s \<and> (\<exists>cv. lastCV (ob_monitor s) = Some cv \<and> Reached cv (ob_desired s) = Inr True))" for s0
  proof (induction "is" arbitrary: s0)
    case Nil
    then show ?case by (auto simp: observe_inv_def split: if_splits)
  next
    case (Cons i "is")
    obtain s1 r1 where p: "observe_poll abortAt oldImage i s0 = (s1, r1)" by fastforce
    note step = observe_poll_inv [OF Cons.prems(1) p]
    show ?case
      using Cons.prems(2) Cons.IH [of s1] step p by (auto split: outcome.splits bool.splits)
  qed
  from this [OF _ assms] show ?thesis by (auto simp: observe_inv_def split: if_splits)
qed

text \<open>
  An operator that still runs the old version: the first version that it reports for itself is the version of the cluster
  before the upgrade.
\<close>

definition on_old_version :: "string \<Rightarrow> OperandVersion list \<Rightarrow> bool" where
  "on_old_version old vs =
     (case filter (\<lambda>v. ov_Name v = ''operator'') vs of [] \<Rightarrow> False | v # _ \<Rightarrow> ov_Version v = old \<and> old \<noteq> [])"

lemma findVersion_old:
  "list_all (\<lambda>v. ov_Version v \<noteq> ''<old>'') vs \<Longrightarrow> findVersion vs ''operator'' old new = ''<old>'' \<longleftrightarrow> on_old_version old vs"
  by (induction vs) (auto simp: on_old_version_def)

text \<open>
  C33: For a percentage from 0 to 100 and fewer than \<open>2 ^ 40\<close> operators, the test decides to abort exactly when the percentage is
  not 0 and the exact share of the operators that no longer run the old version has reached it, or when the cluster has
  no operators at all: the rounding of the quotients never changes the decision. (The old version of an operator is the
  first version that it reports for itself, and no operator reports the version \<open><old>\<close>.) Without an answer of the cluster
  the test does not abort.
\<close>
theorem abort_threshold:
  assumes "lastCV m = Some cv" and "0 \<le> abortAt" and "abortAt \<le> 100" and "length ops < 2 ^ 40"
    and "list_all (list_all (\<lambda>v. ov_Version v \<noteq> ''<old>'')) ops"
  defines "updated \<equiv> length (filter (\<lambda>vs. \<not> on_old_version (oldVersion m) vs) ops)"
  shows "ShouldUpgradeAbort (Inr ops) abortAt m
      = Ok (abortAt \<noteq> 0 \<and> (ops = [] \<or> of_int abortAt / 100 \<le> (of_nat updated / of_nat (length ops) :: rat)))
    \<and> ShouldUpgradeAbort (Inl e) abortAt m = Ok False"
proof -
  let ?changed = "length (filter (\<lambda>vs. findVersion vs ''operator'' (oldVersion m) (u_Version (Desired cv)) \<noteq> ''<old>'') ops)"
  have c: "?changed = updated"
    using assms(5) findVersion_old unfolding updated_def
    by (intro arg_cong [of _ _ length] filter_cong) (auto simp: list_all_iff)
  obtain a where a: "abortAt = int a" "a \<le> 100" using assms(2,3) by (metis nat_le_iff nat_numeral nonneg_int_cases nat_int of_nat_numeral of_nat_le_iff)
  show ?thesis
  proof (cases "ops = []")
    case True
    have "float64_of_int 0 = Fin 0" using float64_of_int_exact [of 0] by simp
    with True assms(1) show ?thesis by (simp add: ShouldUpgradeAbort_def)
  next
    case False
    have "updated \<le> length ops" by (simp add: updated_def)
    then have "float_less (float_div (float64_of_int (int updated)) (float64_of_int (int (length ops))))
        (float_div (float64_of_int abortAt) (float64_of_int 100))
      \<longleftrightarrow> (of_nat updated / of_nat (length ops) :: rat) < of_int abortAt / 100"
      using quotient_compare [of updated "length ops" a 100] assms(4) False a by simp
    then show ?thesis using assms(1) False by (simp add: ShouldUpgradeAbort_def Let_def c not_less)
  qed
qed

text \<open>
  C34: What the abort option means for the upgrade. The text of an integer \<open>n\<close> from 0 to 100 makes the upgrade abort at \<open>n\<close> percent,
  0 at 1 percent; \<open>random\<close> makes it abort at the random percentage from 1 to 100; either doubles the time allowed, and
  nothing else is accepted. The empty text, which the comment describes as no abort, does turn the abort off but is
  reported as an error; every other text is an error that changes nothing.
\<close>
theorem abort_at_values:
  fixes v :: "'t upgrade_vars"
  assumes "0 \<le> n" and "n \<le> 100" and "0 \<le> rnd" and "rnd < 100"
  defines "effect \<equiv> \<lambda>policy. abort_choice (upgradeAbortAt (fst (SetUpgradeAbortAt policy v))) rnd"
  shows "(snd (SetUpgradeAbortAt policy v) = None \<longleftrightarrow>
      policy = ''random'' \<or> (\<exists>k. atoi policy = Some k \<and> 0 \<le> k \<and> k \<le> 100))
    \<and> SetUpgradeAbortAt (int_str n) v = (v\<lparr>upgradeAbortAt := max 1 n\<rparr>, None) \<and> effect (int_str n) = (max 1 n, 2 * 75 * Minute)
    \<and> effect ''random'' = (rnd + 1, 2 * 75 * Minute) \<and> rnd + 1 \<in> {1..100}
    \<and> effect [] = (0, 75 * Minute)
    \<and> (if snd (SetUpgradeAbortAt policy v) = None \<or> policy = [] then True else fst (SetUpgradeAbortAt policy v) = v)"
proof -
  have "int_str n = ''random'' \<longleftrightarrow> False" "int_str n = [] \<longleftrightarrow> False"
    using dec_str_digits [of n] assms(1,2) by (auto simp: int_str_def is_digit_def)
  moreover have "atoi (int_str n) = Some n" using assms(1,2) by (intro atoi_int_str) simp_all
  ultimately show ?thesis
    using atoi_texts assms
    by (auto simp: SetUpgradeAbortAt_def abort_choice_def upgradeAbortAtRandom_def Let_def split: option.splits)
qed

text \<open>
  C36: When neither a version nor an image to upgrade to is given, a cluster that is ready for an upgrade
  makes the test panic, since it asks for the second of one version; with an image other than the
  current one and no version, the target is that image.
\<close>
theorem upgrade_target_empty:
  assumes "getUpgradeContext parse zero v1 v2 (Inr cv) [] [] = Inr vs"
  shows "upgrade_target (Inr vs) = Panic ''index out of range''
    \<and> (if img \<noteq> [] \<and> img \<noteq> NodeImage (vs ! 0)
        then upgrade_target (getUpgradeContext parse zero v1 v2 (Inr cv) [] img)
           = Ok \<lparr>vc_Version = zero, NodeImage = img\<rparr> else True)"
proof -
  obtain current curVer where c: "latestCompleted (History cv) = Some current" "parse (u_Version current) = Inr curVer"
    "vs = [\<lparr>vc_Version = curVer, NodeImage = u_Image current\<rparr>]"
    using assms by (auto simp: getUpgradeContext_def Let_def split: if_splits option.splits sum.splits list.splits)
  have "getUpgradeContext parse zero v1 v2 (Inr cv) [] img = Inr [\<lparr>vc_Version = curVer, NodeImage = u_Image current\<rparr>,
      \<lparr>vc_Version = zero, NodeImage = img\<rparr>]" if "img \<noteq> []" "img \<noteq> u_Image current"
    using assms that c by (auto simp: getUpgradeContext_def Let_def split: if_splits option.splits list.splits)
  then show ?thesis using c(3) by (simp add: upgrade_target_def)
qed

lemma acknowledge_unread:
  "list_all isl resps \<Longrightarrow> acknowledge g d resps m = (m, Inl ''timed out waiting for the condition'')"
  by (induction resps) (auto simp: Check_def isl_def)

text \<open>
  C35: When the cluster version cannot be read during the two minutes in which the cluster should acknowledge
  the upgrade, the test reports that the cluster did not acknowledge it, unless the list of operators
  that it logs first can be read and is not empty: then it panics, since no cluster version was seen.
\<close>
theorem unacknowledged_upgrade:
  assumes "NodeImage ver \<noteq> ''[pause]''" and "ui_cv env = Inr cv" and "ui_updated env = Inr g"
    and "list_all isl (ui_acks env)"
  shows "clusterUpgrade show_version env abort ver
    = (case ui_output env of
         Inr (item # items) \<Rightarrow> Panic ''nil pointer dereference''
       | _ \<Rightarrow> Err ''Cluster did not acknowledge request to upgrade in a reasonable time: timed out waiting for the condition'')"
  using assms
  by (simp add: clusterUpgrade_def Let_def acknowledge_unread split_beta fail_with_output_def Output_def
      split: sum.splits list.splits)

text \<open>The creation of a pod is refused because the pod exists.\<close>

definition taken :: "(reboot_pod \<Rightarrow> (go_error \<times> bool) option) \<Rightarrow> string \<Rightarrow> bool \<Rightarrow> nat \<Rightarrow> bool" where
  "taken create target hard n = (case create (make_reboot_pod target n hard) of Some (e, ex) \<Rightarrow> ex | None \<Rightarrow> False)"

lemma triggerReboot_first:
  assumes "\<not> taken create target hard (attempt + k)" and "\<forall>j < k. taken create target hard (attempt + j)"
  shows "triggerReboot create target attempt hard
    = Some (attempt + k, map_option fst (create (make_reboot_pod target (attempt + k) hard)))"
  using assms
proof (induction k arbitrary: attempt)
  case 0
  then show ?case by (subst triggerReboot.simps) (auto simp: taken_def split: option.splits)
next
  case (Suc k)
  have "triggerReboot create target (attempt + 1) hard
    = Some (attempt + 1 + k, map_option fst (create (make_reboot_pod target (attempt + 1 + k) hard)))"
    by (rule Suc.IH) (use Suc.prems in auto)
  moreover have "taken create target hard attempt" using Suc.prems(2) by fastforce
  ultimately show ?case by (subst triggerReboot.simps) (auto simp: taken_def split: option.splits)
qed

text \<open>
  C37: Triggering a reboot returns as soon as one of the names of the reboot pods is free: it uses the
  first attempt from the given one whose name is not taken, and returns the answer to that creation.
\<close>
theorem reboot_terminates:
  assumes "attempt \<le> n" and "\<not> taken create target hard n"
  shows "\<exists>k. attempt \<le> k \<and> k \<le> n \<and> \<not> taken create target hard k
    \<and> list_all (taken create target hard) [attempt..<k]
    \<and> triggerReboot create target attempt hard = Some (k, map_option fst (create (make_reboot_pod target k hard)))"
proof -
  define k where "k = (LEAST j. \<not> taken create target hard (attempt + j))"
  have ex: "\<not> taken create target hard (attempt + (n - attempt))" using assms by simp
  have free: "\<not> taken create target hard (attempt + k)" unfolding k_def by (rule LeastI [of "\<lambda>j. \<not> taken create target hard (attempt + j)", OF ex])
  have before: "\<forall>j < k. taken create target hard (attempt + j)" unfolding k_def by (auto dest: not_less_Least)
  have "k \<le> n - attempt" unfolding k_def by (rule Least_le) (rule ex)
  moreover have "list_all (taken create target hard) [attempt..<attempt + k]"
    using before by (auto simp: list_all_iff) (metis add_diff_inverse_nat nat_add_left_cancel_less not_less)
  ultimately show ?thesis using triggerReboot_first [OF free before] free assms(1)
    by (intro exI [of _ "attempt + k"]) auto
qed

section \<open>Witnesses\<close>

definition demo_ucv :: UpgradeCV where
  "demo_ucv = \<lparr>cv_Name = ''version'', cv_UID = ''u'', cv_CreationTimestamp = 1,
     cv_Conditions = [\<lparr>sc_Type = ''Progressing'', sc_Status = ''False'', sc_Reason = [], sc_Message = []\<rparr>,
       \<lparr>sc_Type = ''Available'', sc_Status = ''True'', sc_Reason = [], sc_Message = []\<rparr>],
     History = [\<lparr>uh_State = CompletedUpdate, uh_Version = ''4.2'', uh_Image = ''img''\<rparr>],
     DesiredUpdate = None, Generation = 1, ObservedGeneration = 1,
     Desired = \<lparr>u_Version = ''4.2'', u_Image = ''img'', u_Force = True\<rparr>\<rparr>"

definition demo_update :: Update where
  "demo_update = \<lparr>u_Version = [], u_Image = ''img'', u_Force = True\<rparr>"

theorem upgrade_rolls_back_once_witness:
  "snd (observe 0 ''old'' [\<lparr>pi_cv = Inr demo_ucv, pi_operators = Inr [], pi_rollback = Inr 2\<rparr>]
     \<lparr>ob_monitor = \<lparr>lastCV = None, oldVersion = ''4.1''\<rparr>, ob_desired = demo_update, ob_generation = 1, ob_aborted = False,
      ob_lastMessage = [], ob_requests = []\<rparr>) = Ok ()
   \<and> Reached demo_ucv demo_update = Inr True"
proof -
  let ?init = "\<lparr>ob_monitor = \<lparr>lastCV = None, oldVersion = ''4.1''\<rparr>, ob_desired = demo_update, ob_generation = 1, ob_aborted = False,
      ob_lastMessage = [], ob_requests = []\<rparr>"
  let ?final = "?init\<lparr>ob_monitor := \<lparr>lastCV = Some demo_ucv, oldVersion = ''4.1''\<rparr>\<rparr>"
  have o: "observe 0 ''old'' [\<lparr>pi_cv = Inr demo_ucv, pi_operators = Inr [], pi_rollback = Inr 2\<rparr>] ?init = (?final, Ok ())"
    by (simp add: observe_poll_def observe_decide_def Check_def ShouldUpgradeAbort_def Reached_def equivalentUpdates_def
        latestHistory_def demo_ucv_def demo_update_def)
  from upgrade_rolls_back_once [OF o] show ?thesis using o by simp
qed

definition demo_settings :: "unit upgrade_vars" where
  "demo_settings = \<lparr>upgradeTests = [], upgradeAbortAt = 7, upgradeDisruptRebootPolicy = [], upgradeTarget = [], upgradeImage = [], ReportDir = []\<rparr>"

theorem abort_at_values_witness:
  "snd (SetUpgradeAbortAt ''101'' demo_settings) \<noteq> None
   \<and> abort_choice (upgradeAbortAt (fst (SetUpgradeAbortAt (int_str 0) demo_settings))) 41 = (1, 2 * 75 * Minute)
   \<and> abort_choice (upgradeAbortAt (fst (SetUpgradeAbortAt ''random'' demo_settings))) 41 = (42, 2 * 75 * Minute)"
proof -
  have "atoi ''101'' = Some 101" by code_simp
  with abort_at_values [of 0 41 "''101''" demo_settings] show ?thesis
    by (simp add: abort_choice_def upgradeAbortAtRandom_def)
qed

theorem abort_threshold_witness:
  "ShouldUpgradeAbort (Inr [[\<lparr>ov_Name = ''operator'', ov_Version = ''4.2''\<rparr>], [\<lparr>ov_Name = ''operator'', ov_Version = ''4.1''\<rparr>]])
     50 \<lparr>lastCV = Some demo_ucv, oldVersion = ''4.1''\<rparr> = Ok True
   \<and> ShouldUpgradeAbort (Inr [[\<lparr>ov_Name = ''operator'', ov_Version = ''4.2''\<rparr>], [\<lparr>ov_Name = ''operator'', ov_Version = ''4.1''\<rparr>]])
     51 \<lparr>lastCV = Some demo_ucv, oldVersion = ''4.1''\<rparr> = Ok False"
  using abort_threshold [of "\<lparr>lastCV = Some demo_ucv, oldVersion = ''4.1''\<rparr>" demo_ucv 50
      "[[\<lparr>ov_Name = ''operator'', ov_Version = ''4.2''\<rparr>], [\<lparr>ov_Name = ''operator'', ov_Version = ''4.1''\<rparr>]]" "[]"]
    abort_threshold [of "\<lparr>lastCV = Some demo_ucv, oldVersion = ''4.1''\<rparr>" demo_ucv 51
      "[[\<lparr>ov_Name = ''operator'', ov_Version = ''4.2''\<rparr>], [\<lparr>ov_Name = ''operator'', ov_Version = ''4.1''\<rparr>]]" "[]"]
  by (simp add: on_old_version_def)

theorem upgrade_target_empty_witness:
  "upgrade_target (getUpgradeContext (\<lambda>s. Inr s) [] [] [] (Inr demo_ucv) [] []) = Panic ''index out of range''"
proof -
  have e: "getUpgradeContext (\<lambda>s. Inr s) [] [] [] (Inr demo_ucv) [] [] = Inr [\<lparr>vc_Version = ''4.2'', NodeImage = ''img''\<rparr>]"
    by (simp add: getUpgradeContext_def demo_ucv_def)
  from conjunct1 [OF upgrade_target_empty [OF this]] show ?thesis unfolding e .
qed

theorem unacknowledged_upgrade_witness:
  "clusterUpgrade (\<lambda>v. v) \<lparr>ui_cv = Inr demo_ucv, ui_updated = Inr 2, ui_acks = [Inl ''EOF''], ui_polls = [], ui_pools = [],
       ui_output = Inr [\<lparr>co_Name = ''dns'', co_UID = [], co_CreationTimestamp = 0, co_Conditions = [], co_Versions = []\<rparr>],
       ui_rnd = 0\<rparr> 0 \<lparr>vc_Version = ''4.3'', NodeImage = ''new''\<rparr> = Panic ''nil pointer dereference''"
  using unacknowledged_upgrade [of "\<lparr>vc_Version = ''4.3'', NodeImage = ''new''\<rparr>"
      "\<lparr>ui_cv = Inr demo_ucv, ui_updated = Inr 2, ui_acks = [Inl ''EOF''], ui_polls = [], ui_pools = [],
       ui_output = Inr [\<lparr>co_Name = ''dns'', co_UID = [], co_CreationTimestamp = 0, co_Conditions = [], co_Versions = []\<rparr>],
       ui_rnd = 0\<rparr>" demo_ucv 2 "\<lambda>v. v" 0]
  by simp

theorem reboot_terminates_witness:
  "triggerReboot (\<lambda>p. if rp_Name p = ''reboot-a-0'' then Some (''exists'', True) else None) ''a'' 0 False = Some (1, None)"
proof -
  let ?c = "\<lambda>p. if rp_Name p = ''reboot-a-0'' then Some (''exists'', True) else None"
  have n: "rp_Name (make_reboot_pod ''a'' 0 False) = ''reboot-a-0''" "rp_Name (make_reboot_pod ''a'' 1 False) = ''reboot-a-1''"
    by code_simp+
  then have "taken ?c ''a'' False 0" "\<not> taken ?c ''a'' False 1" by (simp_all add: taken_def)
  with reboot_terminates [of 0 1 ?c "''a''" False] obtain k where
    k: "k \<le> 1" "\<not> taken ?c ''a'' False k"
      "triggerReboot ?c ''a'' 0 False = Some (k, map_option fst (?c (make_reboot_pod ''a'' k False)))" by auto
  with \<open>taken ?c ''a'' False 0\<close> have "k = 1" by (metis le_neq_implies_less less_one)
  with k n show ?thesis by simp
qed

end
