(* ===== verification/Provider.thy ===== *)
theory Provider
  imports Test_Renamer Go_Json
begin

text \<open>
  What every command does before it runs tests: the cloud provider (\<open>decodeProviderTo\<close> of
  \<open>src/cmd/extended-platform-tests/openshift-tests.go\<close> with \<open>src/test/extended/util/cloud/cloud.go\<close>), the CSI
  drivers (\<open>src/cmd/extended-platform-tests/csi.go\<close>) and \<open>initProvider\<close>, which also renames the tests. The cluster,
  the installation of a driver and the file system are inputs.
\<close>

section \<open>The cloud configuration of the cluster\<close>

record CloudConfig =
  cc_MultiMaster :: bool
  cc_MultiZone :: bool
  cc_Zone :: string
  cc_NumNodes :: nat
  cc_Region :: string
  cc_ProjectID :: string
  cc_ConfigFile :: string

record PlatformStatus =
  pl_Type :: string
  pl_AWS :: "string option"
  pl_GCP :: "(string \<times> string) option"
  pl_Azure :: bool

text \<open>
  The answers of the cluster: whether the clients can be built, the platform status (None when it is nil), for every
  master the value of its zone label (empty without the label), the number of other nodes, and the name of the file to
  which the configuration of Azure was written.
\<close>

record cluster_info =
  ci_client :: "go_error option"
  ci_infra :: "PlatformStatus option go_result"
  ci_masters :: "string list go_result"
  ci_nonMasters :: "nat go_result"
  ci_azure :: "string go_result"

text \<open>The names of the zones as a sorted set without the empty name.\<close>

definition zone_set :: "string list \<Rightarrow> string list" where
  "zone_set labels = sort_by str_less (remdups (filter (\<lambda>z. z \<noteq> []) labels))"

definition base_config :: "string list \<Rightarrow> nat \<Rightarrow> CloudConfig" where
  "base_config masters nonMasters =
     (let zones = zone_set masters in
      \<lparr>cc_MultiMaster = length masters > 1, cc_MultiZone = length zones > 1,
       cc_Zone = (case zones of [] \<Rightarrow> [] | z # _ \<Rightarrow> z),
       cc_NumNodes = (if nonMasters = 0 then nonMasters else length masters),
       cc_Region = [], cc_ProjectID = [], cc_ConfigFile = []\<rparr>)"

definition platform_config :: "cluster_info \<Rightarrow> PlatformStatus \<Rightarrow> CloudConfig \<Rightarrow> (string \<times> CloudConfig) go_result" where
  "platform_config ci p cfg =
     (case pl_AWS p of
        Some region \<Rightarrow> Inr (''aws'', cfg\<lparr>cc_Region := region\<rparr>)
      | None \<Rightarrow>
          (case pl_GCP p of
             Some (project, region) \<Rightarrow> Inr (''gce'', cfg\<lparr>cc_ProjectID := project, cc_Region := region\<rparr>)
           | None \<Rightarrow>
               if pl_Azure p then
                 (case ci_azure ci of Inl e \<Rightarrow> Inl e | Inr file \<Rightarrow> Inr (''azure'', cfg\<lparr>cc_ConfigFile := file\<rparr>))
               else Inr ([], cfg)))"

definition LoadConfig :: "cluster_info \<Rightarrow> (string \<times> CloudConfig option) go_result" where
  "LoadConfig ci =
     (case ci_client ci of Some e \<Rightarrow> Inl e | None \<Rightarrow>
      (case ci_infra ci of
         Inl e \<Rightarrow> Inl e
       | Inr None \<Rightarrow> Inl ''status.platformStatus must be set''
       | Inr (Some p) \<Rightarrow>
           if pl_Type p = ''None'' then Inr ([], None)
           else (case ci_masters ci of Inl e \<Rightarrow> Inl e | Inr masters \<Rightarrow>
             (case ci_nonMasters ci of Inl e \<Rightarrow> Inl e | Inr nonMasters \<Rightarrow>
               (case platform_config ci p (base_config masters nonMasters) of
                  Inl e \<Rightarrow> Inl e
                | Inr (provider, cfg) \<Rightarrow> Inr (provider, Some cfg))))))"

section \<open>The provider\<close>

type_synonym environ = "string \<rightharpoonup> string"

text \<open>\<open>os.Getenv\<close>: a variable that is not set reads as the empty string.\<close>

definition Getenv :: "environ \<Rightarrow> string \<Rightarrow> string" where
  "Getenv env k = (case env k of None \<Rightarrow> [] | Some v \<Rightarrow> v)"

record test_context =
  tc_Provider :: string
  tc_CloudConfig :: CloudConfig

text \<open>\<open>json.Unmarshal\<close> into the anonymous structure with the field \<open>Type\<close>.\<close>

definition provider_type :: "string \<Rightarrow> string option" where
  "provider_type provider = json_Unmarshal [''Type''] (\<lambda>f v s. store_string v s) provider []"

text \<open>
  The result of a function that changes the context and may fail is the context with the error. Decoding into the
  cloud configuration, a type of the framework, is the parameter \<open>decode_cloud\<close>; \<open>json_msg\<close> is the text of a JSON
  error.
\<close>

definition provider_from_cluster :: "cluster_info \<Rightarrow> test_context \<Rightarrow> test_context \<times> go_error option" where
  "provider_from_cluster ci ctx =
     (case LoadConfig ci of
        Inl e \<Rightarrow> (ctx, Some e)
      | Inr (provider, None) \<Rightarrow> (ctx, None)
      | Inr (provider, Some cfg) \<Rightarrow> (ctx\<lparr>tc_Provider := provider, tc_CloudConfig := cfg\<rparr>, None))"

definition provider_from_json ::
  "(string \<Rightarrow> go_error) \<Rightarrow> (string \<Rightarrow> CloudConfig \<Rightarrow> CloudConfig \<times> go_error option) \<Rightarrow> string \<Rightarrow> test_context
    \<Rightarrow> test_context \<times> go_error option" where
  "provider_from_json json_msg decode_cloud provider ctx =
     (case provider_type provider of
        None \<Rightarrow> (ctx, Some (''provider must be a JSON object with the 'type' key at a minimum: '' @ json_msg provider))
      | Some ty \<Rightarrow>
          if length ty = 0 then (ctx, Some ''provider must be a JSON object with the 'type' key'')
          else (case decode_cloud provider (tc_CloudConfig ctx) of
              (c, None) \<Rightarrow> (ctx\<lparr>tc_Provider := ty, tc_CloudConfig := c\<rparr>, None)
            | (c, Some e) \<Rightarrow> (ctx\<lparr>tc_Provider := ty, tc_CloudConfig := c\<rparr>,
                Some (''provider must decode into the cloud config object: '' @ e))))"

definition provider_choice ::
  "(string \<Rightarrow> go_error) \<Rightarrow> (string \<Rightarrow> CloudConfig \<Rightarrow> CloudConfig \<times> go_error option) \<Rightarrow> cluster_info \<Rightarrow> environ \<Rightarrow> string
    \<Rightarrow> bool \<Rightarrow> test_context \<Rightarrow> test_context \<times> go_error option" where
  "provider_choice json_msg decode_cloud ci env provider dryRun ctx =
     (if provider = [] then
        (if env ''KUBE_SSH_USER'' \<noteq> None \<and> env ''LOCAL_SSH_KEY'' \<noteq> None then (ctx\<lparr>tc_Provider := ''local''\<rparr>, None)
         else if dryRun then (ctx, None)
         else provider_from_cluster ci ctx)
      else if provider \<in> {''azure'', ''aws'', ''gce'', ''vsphere''} then provider_from_cluster ci ctx
      else provider_from_json json_msg decode_cloud provider ctx)"

definition decodeProviderTo ::
  "(string \<Rightarrow> go_error) \<Rightarrow> (string \<Rightarrow> CloudConfig \<Rightarrow> CloudConfig \<times> go_error option) \<Rightarrow> cluster_info \<Rightarrow> environ \<Rightarrow> string
    \<Rightarrow> bool \<Rightarrow> test_context \<Rightarrow> test_context \<times> go_error option" where
  "decodeProviderTo json_msg decode_cloud ci env provider dryRun ctx =
     (case provider_choice json_msg decode_cloud ci env provider dryRun ctx of
        (ctx, Some e) \<Rightarrow> (ctx, Some e)
      | (ctx, None) \<Rightarrow> ((if length (tc_Provider ctx) = 0 then ctx\<lparr>tc_Provider := ''skeleton''\<rparr> else ctx), None))"

section \<open>CSI drivers\<close>

text \<open>The environment, the drivers that were installed, the definitions and the file sources that were registered.\<close>

record csi_state =
  csi_env :: environ
  csi_installed :: "string list"
  csi_definitions :: "string list"
  csi_sources :: "string list"

abbreviation manifestEnvVar :: string where "manifestEnvVar \<equiv> ''TEST_CSI_DRIVER_FILES''"
abbreviation installDriversEnvVar :: string where "installDriversEnvVar \<equiv> ''TEST_INSTALL_CSI_DRIVERS''"

definition add_manifest :: "string \<Rightarrow> environ \<Rightarrow> environ" where
  "add_manifest manifestFile env =
     (let l = Getenv env manifestEnvVar in
      env(manifestEnvVar \<mapsto> (if length l > 0 then l @ '','' else l) @ manifestFile))"

text \<open>\<open>install\<close> is \<open>csi.InstallCSIDriver\<close>: the manifest of a driver, or an error.\<close>

fun install_drivers :: "(string \<Rightarrow> string go_result) \<Rightarrow> string list \<Rightarrow> csi_state \<Rightarrow> csi_state \<times> go_error option" where
  "install_drivers install [] s = (s, None)"
| "install_drivers install (driver # ds) s =
     (case install driver of
        Inl e \<Rightarrow> (s, Some (''failed to install CSI driver from '' @ strconv_Quote driver @ '': '' @ e))
      | Inr manifestFile \<Rightarrow>
          install_drivers install ds
            (s\<lparr>csi_env := add_manifest manifestFile (csi_env s), csi_installed := csi_installed s @ [driver]\<rparr>))"

text \<open>\<open>filepath.Clean\<close> and \<open>filepath.Dir\<close>\<close>

fun clean_components :: "bool \<Rightarrow> string list \<Rightarrow> string list \<Rightarrow> string list" where
  "clean_components rooted [] acc = rev acc"
| "clean_components rooted (c # cs) acc =
     (if c = [] \<or> c = ''.'' then clean_components rooted cs acc
      else if c = ''..'' then
        (case acc of
           [] \<Rightarrow> clean_components rooted cs (if rooted then [] else [c])
         | a # r \<Rightarrow> clean_components rooted cs (if a = ''..'' then c # acc else r))
      else clean_components rooted cs (c # acc))"

definition filepath_Clean :: "string \<Rightarrow> string" where
  "filepath_Clean s =
     (let rooted = has_prefix s ''/''; cs = str_join (clean_components rooted (str_split s ''/'') []) ''/'' in
      if rooted then ''/'' @ cs else if cs = [] then ''.'' else cs)"

definition filepath_Dir :: "string \<Rightarrow> string" where
  "filepath_Dir s = filepath_Clean (take (nat (last_index (CHR ''/'') s + 1)) s)"

text \<open>\<open>add\<close> is \<open>external.AddDriverDefinition\<close>.\<close>

fun add_definitions ::
  "(string \<Rightarrow> go_error option) \<Rightarrow> string list \<Rightarrow> csi_state \<Rightarrow> csi_state \<times> go_error option" where
  "add_definitions add [] s = (s, None)"
| "add_definitions add (manifest # ms) s =
     (case add manifest of
        Some e \<Rightarrow> (s, Some (''failed to load manifest from '' @ strconv_Quote manifest @ '': '' @ e))
      | None \<Rightarrow>
          add_definitions add ms
            (s\<lparr>csi_definitions := csi_definitions s @ [manifest], csi_sources := csi_sources s @ [filepath_Dir manifest]\<rparr>))"

definition load_definitions ::
  "(string \<Rightarrow> go_error option) \<Rightarrow> csi_state \<Rightarrow> csi_state \<times> go_error option" where
  "load_definitions add s =
     (let s = s\<lparr>csi_env := (csi_env s)(installDriversEnvVar \<mapsto> [])\<rparr>; l = Getenv (csi_env s) manifestEnvVar in
      if l \<noteq> [] then add_definitions add (str_split l '','') s else (s, None))"

definition initCSITests ::
  "(string \<Rightarrow> string go_result) \<Rightarrow> (string \<Rightarrow> go_error option) \<Rightarrow> csi_state \<Rightarrow> csi_state \<times> go_error option" where
  "initCSITests install add s =
     (let driverList = Getenv (csi_env s) installDriversEnvVar in
      case (if driverList \<noteq> [] then install_drivers install (str_split driverList '','') s else (s, None)) of
        (s, Some e) \<Rightarrow> (s, Some e)
      | (s, None) \<Rightarrow> load_definitions add s)"

section \<open>Initialisation\<close>

text \<open>The state of the process: the environment and the CSI drivers, the settings of the framework, and its tests.\<close>

record init_state =
  is_csi :: csi_state
  is_ctx :: test_context
  is_AllowedNotReadyNodes :: int
  is_MaxNodesToGather :: int
  is_viper :: string
  is_tests :: "(string \<times> TestNode) list"
  is_DeleteNamespace :: bool
  is_KubeConfig :: string
  is_Host :: string
  is_reportFileName :: string
  is_quiet :: bool
  is_VerifyServiceAccount :: bool
  is_KubectlPath :: string
  is_NodeOSDistro :: string
  is_MasterOSDistro :: string
  is_DumpLogsOnFailure :: bool

abbreviation is_env :: "init_state \<Rightarrow> environ" where
  "is_env s \<equiv> csi_env (is_csi s)"

definition Setenv :: "string \<Rightarrow> string \<Rightarrow> init_state \<Rightarrow> init_state" where
  "Setenv k v s = s\<lparr>is_csi := (is_csi s)\<lparr>csi_env := (is_env s)(k \<mapsto> v)\<rparr>\<rparr>"

definition InitDefaultEnvironmentVariables :: "init_state \<Rightarrow> init_state" where
  "InitDefaultEnvironmentVariables s =
     (if length (trim_space (Getenv (is_env s) ''ARTIFACT_DIR'')) = 0 then
        let tmp = Getenv (is_env s) ''TMPDIR'' in
        Setenv ''ARTIFACT_DIR'' (filepath_Clean ((if tmp = [] then ''/tmp'' else tmp) @ ''/artifacts'')) s
      else s)"

text \<open>
  \<open>host\<close> is the host of the client configuration that is loaded from the file. Registering the fixtures and the
  functions that the framework calls before a test and for a namespace is left out.
\<close>

definition InitTest :: "(string \<Rightarrow> string go_result) \<Rightarrow> bool \<Rightarrow> init_state \<Rightarrow> init_state \<times> go_error option" where
  "InitTest host dryRun s =
     (let s = InitDefaultEnvironmentVariables s;
          kubeconfig = Getenv (is_env s) ''KUBECONFIG'';
          s = Setenv ''KUBECONFIG'' kubeconfig
                (s\<lparr>is_DeleteNamespace := Getenv (is_env s) ''DELETE_NAMESPACE'' \<noteq> ''false'', is_VerifyServiceAccount := True,
                   is_KubectlPath := ''kubectl'', is_KubeConfig := kubeconfig, is_NodeOSDistro := ''custom'', is_MasterOSDistro := ''custom''\<rparr>);
          finish = (\<lambda>s. let report = Getenv (is_env s) ''TEST_REPORT_FILE_NAME'' in
             s\<lparr>is_reportFileName := (if report = [] then ''junit'' else report),
               is_quiet := Getenv (is_env s) ''TEST_OUTPUT_QUIET'' = ''true''\<rparr>)
      in if dryRun then (finish s, None)
         else case host kubeconfig of Inl e \<Rightarrow> (s, Some e) | Inr h \<Rightarrow> (finish (s\<lparr>is_Host := h\<rparr>), None))"

text \<open>\<open>AnnotateTestSuite\<close>: the framework calls the renamer with the full name of every test and its node.\<close>

definition AnnotateTestSuite :: "string go_result \<Rightarrow> init_state \<Rightarrow> init_state" where
  "AnnotateTestSuite network s =
     (let r = newGinkgoTestRenamerFromGlobals (tc_Provider (is_ctx s)) (getNetworkSkips network) in
      s\<lparr>is_tests := map (\<lambda>(name, node). (name, maybeRenameTest r name node)) (is_tests s)\<rparr>)"

text \<open>What lies outside the program when it is initialised.\<close>

record init_env =
  ie_json_msg :: "string \<Rightarrow> go_error"
  ie_decode_cloud :: "string \<Rightarrow> CloudConfig \<Rightarrow> CloudConfig \<times> go_error option"
  ie_cluster :: cluster_info
  ie_install :: "bool \<Rightarrow> string \<Rightarrow> string go_result"
  ie_add :: "string \<Rightarrow> go_error option"
  ie_network :: "string go_result"
  ie_host :: "string \<Rightarrow> string go_result"

definition initProvider :: "init_env \<Rightarrow> string \<Rightarrow> bool \<Rightarrow> init_state \<Rightarrow> init_state \<times> go_error option" where
  "initProvider ie provider dryRun s =
     (case decodeProviderTo (ie_json_msg ie) (ie_decode_cloud ie) (ie_cluster ie) (is_env s) provider dryRun (is_ctx s) of
        (ctx, Some e) \<Rightarrow> (s\<lparr>is_ctx := ctx\<rparr>, Some e)
      | (ctx, None) \<Rightarrow>
          (let s = s\<lparr>is_ctx := ctx, is_AllowedNotReadyNodes := 100, is_MaxNodesToGather := 0,
                     is_viper := Getenv (is_env s) ''VIPERCONFIG''\<rparr> in
           case initCSITests (ie_install ie dryRun) (ie_add ie) (is_csi s) of
             (csi, Some e) \<Rightarrow> (s\<lparr>is_csi := csi\<rparr>, Some e)
           | (csi, None) \<Rightarrow> InitTest (ie_host ie) dryRun (AnnotateTestSuite (ie_network ie) (s\<lparr>is_csi := csi\<rparr>))))"

section \<open>The provider that is chosen\<close>

lemma zone_set_Nil: "zone_set labels = [] \<longleftrightarrow> (\<forall>z \<in> set labels. z = [])"
proof -
  have "zone_set labels = [] \<longleftrightarrow> set (zone_set labels) = {}" by simp
  also have "\<dots> \<longleftrightarrow> (\<forall>z \<in> set labels. z = [])" unfolding zone_set_def set_sort_by by auto
  finally show ?thesis .
qed

text \<open>The zone of the configuration is the first of the zones in alphabetical order.\<close>

lemma base_config_zone:
  assumes "z \<in> set masters" and "z \<noteq> []"
  shows "cc_Zone (base_config masters n) \<in> set masters" and "\<not> str_less z (cc_Zone (base_config masters n))"
proof -
  have z: "z \<in> set (zone_set masters)" using assms by (simp add: zone_set_def)
  then obtain y ys where y: "zone_set masters = y # ys" by (cases "zone_set masters") auto
  moreover have "sorted_wrt (\<lambda>a b. \<not> str_less b a) (zone_set masters)" unfolding zone_set_def by (rule strs.by_insertion.srt_sorted)
  ultimately show "\<not> str_less z (cc_Zone (base_config masters n))"
    using z str_less_asym by (auto simp: base_config_def Let_def)
  have "y \<in> set (zone_set masters)" using y by simp
  then show "cc_Zone (base_config masters n) \<in> set masters" using y by (simp add: base_config_def zone_set_def)
qed

text \<open>The number of nodes: never the number of nodes that are not masters.\<close>

lemma LoadConfig_NumNodes:
  assumes "LoadConfig ci = Inr (provider, Some cfg)" and "ci_masters ci = Inr masters" and "ci_nonMasters ci = Inr nonMasters"
  shows "cc_NumNodes cfg = (if nonMasters = 0 then 0 else length masters)"
  using assms by (auto simp: LoadConfig_def platform_config_def base_config_def Let_def split: option.splits sum.splits if_splits)

text \<open>
  The platform of a cluster that gave every answer that is needed: no more than the platform when its type is \<open>None\<close>, else
  the nodes too, and the configuration of the cloud when it is Azure.
\<close>

definition answered :: "cluster_info \<Rightarrow> PlatformStatus option" where
  "answered ci =
     (case (ci_client ci, ci_infra ci) of
        (None, Inr (Some p)) \<Rightarrow>
          if pl_Type p = ''None'' \<or> \<not> isl (ci_masters ci) \<and> \<not> isl (ci_nonMasters ci)
               \<and> (if pl_AWS p = None \<and> pl_GCP p = None \<and> pl_Azure p then \<not> isl (ci_azure ci) else True)
          then Some p else None
      | _ \<Rightarrow> None)"

definition platform_provider :: "PlatformStatus \<Rightarrow> string" where
  "platform_provider p = (if pl_AWS p \<noteq> None then ''aws'' else if pl_GCP p \<noteq> None then ''gce'' else if pl_Azure p then ''azure'' else ''skeleton'')"

lemma LoadConfig_answered:
  "case answered ci of
     None \<Rightarrow> \<exists>e. LoadConfig ci = Inl e
   | Some p \<Rightarrow> if pl_Type p = ''None'' then LoadConfig ci = Inr ([], None)
       else \<exists>cfg. LoadConfig ci = Inr (if platform_provider p = ''skeleton'' then [] else platform_provider p, Some cfg)"
proof (cases "ci_infra ci")
  case (Inr op)
  then show ?thesis
    by (cases op; cases "ci_masters ci"; cases "ci_nonMasters ci"; cases "ci_azure ci")
      (auto simp: answered_def LoadConfig_def platform_config_def platform_provider_def split: option.splits)
qed (auto simp: answered_def LoadConfig_def split: option.splits)

lemma provider_from_cluster_default:
  assumes "provider_from_cluster ci ctx = (c, e)"
  defines "ctx' \<equiv> (if tc_Provider c = [] then c\<lparr>tc_Provider := ''skeleton''\<rparr> else c)"
  shows "case answered ci of
      None \<Rightarrow> e \<noteq> None \<and> c = ctx
    | Some p \<Rightarrow> e = None \<and> (if pl_Type p = ''None''
        then ctx' = ctx\<lparr>tc_Provider := if tc_Provider ctx = [] then ''skeleton'' else tc_Provider ctx\<rparr>
        else tc_Provider ctx' = platform_provider p)"
  using LoadConfig_answered [of ci] assms(1)
  by (auto simp: ctx'_def provider_from_cluster_def platform_provider_def split: option.splits if_splits)

text \<open>
  C40: Which provider the tests get, for every form of the option. Empty: \<open>local\<close> when both SSH variables are set; otherwise a dry run
  keeps the provider that is there, and any other run asks the cluster. A name of a cloud is not looked at further
  and asks the cluster too. The cluster decides by its platform (\<open>skeleton\<close> when it is none of AWS, GCP and Azure, for
  the name \<open>vsphere\<close> too), keeps what is there when its platform is \<open>None\<close>, and an answer that is missing is an error that changes
  nothing. Anything else has to be an object with a type, which becomes the provider even when the rest of the object is
  then refused. Without an error the provider is never empty.
\<close>
theorem provider_resolved:
  assumes dec: "decodeProviderTo json_msg decode_cloud ci env provider dryRun ctx = (ctx', err)"
  defines "ssh \<equiv> env ''KUBE_SSH_USER'' \<noteq> None \<and> env ''LOCAL_SSH_KEY'' \<noteq> None"
    and "kept \<equiv> ctx\<lparr>tc_Provider := if tc_Provider ctx = [] then ''skeleton'' else tc_Provider ctx\<rparr>"
  shows "(if provider = [] \<and> ssh then err = None \<and> ctx' = ctx\<lparr>tc_Provider := ''local''\<rparr>
      else if provider = [] \<and> dryRun then err = None \<and> ctx' = kept
      else if provider \<in> {[], ''azure'', ''aws'', ''gce'', ''vsphere''} then
        (case answered ci of
           None \<Rightarrow> err \<noteq> None \<and> ctx' = ctx
         | Some p \<Rightarrow> err = None \<and> (if pl_Type p = ''None'' then ctx' = kept
             else tc_Provider ctx' = (if pl_AWS p \<noteq> None then ''aws'' else if pl_GCP p \<noteq> None then ''gce''
               else if pl_Azure p then ''azure'' else ''skeleton'')))
      else (case provider_type provider of
           None \<Rightarrow> err \<noteq> None \<and> ctx' = ctx
         | Some ty \<Rightarrow> (if ty = [] then err \<noteq> None \<and> ctx' = ctx
             else tc_Provider ctx' = ty \<and> (err = None) = (snd (decode_cloud provider (tc_CloudConfig ctx)) = None))))
    \<and> (if err = None then tc_Provider ctx' \<noteq> [] else True)"
proof -
  have nonempty: "if err = None then tc_Provider ctx' \<noteq> [] else True"
    using dec by (auto simp: decodeProviderTo_def split: prod.splits option.splits if_splits)
  obtain c e where choice: "provider_choice json_msg decode_cloud ci env provider dryRun ctx = (c, e)" by fastforce
  have res: "ctx' = (if e = None \<and> tc_Provider c = [] then c\<lparr>tc_Provider := ''skeleton''\<rparr> else c)" "err = e"
    using dec choice by (auto simp: decodeProviderTo_def split: option.splits)
  let ?names = "{''azure'', ''aws'', ''gce'', ''vsphere''}"
  consider (ssh) "provider = []" ssh | (dry) "provider = []" "\<not> ssh" dryRun
    | (cluster) "provider \<in> insert [] ?names" "\<not> (provider = [] \<and> ssh)" "\<not> (provider = [] \<and> dryRun)"
    | (object) "provider \<notin> insert [] ?names" by blast
  then show ?thesis
  proof cases
    case ssh
    then show ?thesis using choice res nonempty by (auto simp: provider_choice_def ssh_def)
  next
    case dry
    then show ?thesis using choice res nonempty by (auto simp: provider_choice_def ssh_def kept_def)
  next
    case cluster
    then have pc: "provider_from_cluster ci ctx = (c, e)" using choice by (auto simp: provider_choice_def ssh_def split: if_splits)
    have "case answered ci of None \<Rightarrow> err \<noteq> None \<and> ctx' = ctx
      | Some p \<Rightarrow> err = None \<and> (if pl_Type p = ''None'' then ctx' = kept else tc_Provider ctx' = platform_provider p)"
    proof (cases "answered ci")
      case None
      then show ?thesis using provider_from_cluster_default [OF pc] res by simp
    next
      case (Some p)
      then show ?thesis using provider_from_cluster_default [OF pc] res by (simp add: kept_def)
    qed
    moreover have "(provider = [] \<and> ssh) = False" "(provider = [] \<and> dryRun) = False"
      "provider \<in> {[], ''azure'', ''aws'', ''gce'', ''vsphere''} = True" using cluster by blast+
    ultimately show ?thesis using nonempty by (simp only: if_True if_False platform_provider_def simp_thms)
  next
    case object
    then have "provider_from_json json_msg decode_cloud provider ctx = (c, e)" using choice by (simp add: provider_choice_def)
    with object res nonempty show ?thesis
      by (auto simp: provider_from_json_def split: prod.splits option.splits if_splits)
  qed
qed

definition demo_info :: cluster_info where
  "demo_info = \<lparr>ci_client = None, ci_infra = Inr (Some \<lparr>pl_Type = ''VSphere'', pl_AWS = None, pl_GCP = None, pl_Azure = False\<rparr>),
     ci_masters = Inr [''a'', ''b'', ''a''], ci_nonMasters = Inr 5, ci_azure = Inl []\<rparr>"

definition demo_ctx :: test_context where
  "demo_ctx = \<lparr>tc_Provider = [], tc_CloudConfig = base_config [] 0\<rparr>"

theorem provider_resolved_witness:
  "tc_Provider (fst (decodeProviderTo id (\<lambda>_ c. (c, None)) demo_info Map.empty ''vsphere'' False demo_ctx)) = ''skeleton''
   \<and> tc_Provider (fst (decodeProviderTo id (\<lambda>_ c. (c, None)) demo_info [''KUBE_SSH_USER'' \<mapsto> [], ''LOCAL_SSH_KEY'' \<mapsto> []] [] False demo_ctx)) = ''local''"
  using provider_resolved [OF surjective_pairing [of "decodeProviderTo id (\<lambda>_ c. (c, None)) demo_info Map.empty ''vsphere'' False demo_ctx"]]
    provider_resolved [OF surjective_pairing [of
      "decodeProviderTo id (\<lambda>_ c. (c, None)) demo_info [''KUBE_SSH_USER'' \<mapsto> [], ''LOCAL_SSH_KEY'' \<mapsto> []] [] False demo_ctx"]]
  by (simp add: answered_def demo_info_def)

section \<open>CSI drivers of a child process\<close>

lemma install_drivers_ok:
  "install_drivers install ds s = (s', None) \<Longrightarrow>
    csi_installed s' = csi_installed s @ ds \<and> csi_definitions s' = csi_definitions s \<and> csi_sources s' = csi_sources s"
  by (induction ds arbitrary: s) (fastforce split: sum.splits)+

lemma add_definitions_ok:
  "add_definitions add ms s = (s', None) \<longleftrightarrow>
    list_all (\<lambda>m. add m = None) ms
    \<and> s' = s\<lparr>csi_definitions := csi_definitions s @ ms, csi_sources := csi_sources s @ map filepath_Dir ms\<rparr>"
  by (induction ms arbitrary: s) (auto split: option.splits)

text \<open>The manifests named by the environment.\<close>

definition manifests :: "environ \<Rightarrow> string list" where
  "manifests env = (let l = Getenv env manifestEnvVar in if l = [] then [] else str_split l '','')"

lemma Getenv_upd: "Getenv (env(k \<mapsto> v)) k' = (if k' = k then v else Getenv env k')"
  by (simp add: Getenv_def)

lemma load_definitions_ok:
  "load_definitions add s = (s', None) \<longleftrightarrow>
    list_all (\<lambda>m. add m = None) (manifests (csi_env s))
    \<and> s' = s\<lparr>csi_env := (csi_env s)(installDriversEnvVar \<mapsto> []), csi_definitions := csi_definitions s @ manifests (csi_env s),
            csi_sources := csi_sources s @ map filepath_Dir (manifests (csi_env s))\<rparr>"
  by (auto simp: load_definitions_def manifests_def Let_def add_definitions_ok Getenv_upd)

text \<open>
  C13: When the CSI drivers have been initialised without an error, every driver that was asked for has been
  installed and the definitions in \<open>TEST_CSI_DRIVER_FILES\<close> are registered. A child process, which inherits the
  environment, registers the same definitions and file sources and installs no driver, whatever an
  installation would do, and it leaves the environment as it is.
\<close>
theorem csi_child_process:
  assumes "initCSITests install add s = (s', None)"
  shows "csi_installed s' = csi_installed s
        @ (if Getenv (csi_env s) installDriversEnvVar = [] then [] else str_split (Getenv (csi_env s) installDriversEnvVar) '','')
    \<and> csi_definitions s' = csi_definitions s @ manifests (csi_env s')
    \<and> initCSITests install' add \<lparr>csi_env = csi_env s', csi_installed = [], csi_definitions = [], csi_sources = []\<rparr>
      = (\<lparr>csi_env = csi_env s', csi_installed = [], csi_definitions = manifests (csi_env s'),
          csi_sources = map filepath_Dir (manifests (csi_env s'))\<rparr>, None)"
proof -
  let ?dl = "Getenv (csi_env s) installDriversEnvVar"
  define i where "i = (if ?dl \<noteq> [] then install_drivers install (str_split ?dl '','') s else (s, None))"
  have "snd i = None" and load: "load_definitions add (fst i) = (s', None)"
    using assms by (auto simp: initCSITests_def i_def [symmetric] Let_def split: prod.splits option.splits)
  then have "csi_installed (fst i) = csi_installed s @ (if ?dl = [] then [] else str_split ?dl '','')"
    "csi_definitions (fst i) = csi_definitions s"
    using install_drivers_ok [of install "str_split ?dl '',''" s "fst i"] by (auto simp: i_def prod_eq_iff split: if_splits)
  moreover from load have s': "list_all (\<lambda>m. add m = None) (manifests (csi_env (fst i)))"
    "csi_env s' = (csi_env (fst i))(installDriversEnvVar \<mapsto> [])" "csi_installed s' = csi_installed (fst i)"
    "csi_definitions s' = csi_definitions (fst i) @ manifests (csi_env (fst i))"
    by (auto simp: load_definitions_ok)
  moreover have "manifests (csi_env s') = manifests (csi_env (fst i))" by (simp add: s'(2) manifests_def Getenv_upd)
  moreover have "Getenv (csi_env s') installDriversEnvVar = []" "(csi_env s')(installDriversEnvVar \<mapsto> []) = csi_env s'"
    by (simp_all add: s'(2) Getenv_upd)
  ultimately show ?thesis by (simp add: initCSITests_def load_definitions_ok)
qed

theorem csi_child_process_witness:
  "initCSITests (\<lambda>d. Inl ''installed twice'') (\<lambda>m. None)
     \<lparr>csi_env = csi_env (fst (initCSITests (\<lambda>d. Inr (''/m/'' @ d)) (\<lambda>m. None)
        \<lparr>csi_env = [installDriversEnvVar \<mapsto> ''x,y''], csi_installed = [], csi_definitions = [], csi_sources = []\<rparr>)),
      csi_installed = [], csi_definitions = [], csi_sources = []\<rparr>
   = (\<lparr>csi_env = [installDriversEnvVar \<mapsto> [], manifestEnvVar \<mapsto> ''/m/x,/m/y''], csi_installed = [],
      csi_definitions = [''/m/x'', ''/m/y''], csi_sources = [''/m'', ''/m'']\<rparr>, None)"
proof -
  let ?s = "\<lparr>csi_env = [installDriversEnvVar \<mapsto> ''x,y''], csi_installed = [], csi_definitions = [], csi_sources = []\<rparr>"
  let ?i = "initCSITests (\<lambda>d. Inr (''/m/'' @ d)) (\<lambda>m. None) ?s"
  have sp: "str_split ''x,y'' '','' = [''x'', ''y'']" "str_split ''/m/x,/m/y'' '','' = [''/m/x'', ''/m/y'']"
    "filepath_Dir ''/m/x'' = ''/m''" "filepath_Dir ''/m/y'' = ''/m''" by code_simp+
  have i: "snd ?i = None" "csi_env (fst ?i) = [installDriversEnvVar \<mapsto> [], manifestEnvVar \<mapsto> ''/m/x,/m/y'']"
    by (simp_all add: initCSITests_def Getenv_def sp load_definitions_def add_manifest_def fun_upd_twist)
  from csi_child_process [of "\<lambda>d. Inr (''/m/'' @ d)" "\<lambda>m. None" ?s "fst ?i" "\<lambda>d. Inl ''installed twice''"] i
  show ?thesis by (simp add: prod_eq_iff manifests_def Getenv_def sp)
qed

end
