(* ===== verification/Commands.thy ===== *)
theory Commands
  imports Run_Suite Static_Suites Provider Upgrade_Options
begin

text \<open>
  The commands of \<open>src/cmd/extended-platform-tests/openshift-tests.go\<close>: their flags, what each does, the copy of
  the output in a file, and the exit code. Parsing the command line is done by a library: a command gets the
  options that the flags have set and the arguments that are left.
\<close>

section \<open>Flags\<close>

datatype 'o flag_var =
    BoolVar "bool \<Rightarrow> 'o \<Rightarrow> 'o"
  | StringVar "string \<Rightarrow> 'o \<Rightarrow> 'o"
  | IntVar "int \<Rightarrow> 'o \<Rightarrow> 'o"
  | DurationVar "duration \<Rightarrow> 'o \<Rightarrow> 'o"
  | StringSliceVar "string list \<Rightarrow> 'o \<Rightarrow> 'o"

text \<open>A flag has a name, a shorthand that may be empty, and the variable it sets. The texts of the help are left out.\<close>

type_synonym 'o flag = "string \<times> string \<times> 'o flag_var"

definition bindOptions :: "Options flag list" where
  "bindOptions =
     [(''dry-run'', [], BoolVar (\<lambda>x. opt_DryRun_update (\<lambda>_. x))),
      (''print-commands'', [], BoolVar (\<lambda>x. opt_PrintCommands_update (\<lambda>_. x))),
      (''junit-dir'', [], StringVar (\<lambda>x. opt_JUnitDir_update (\<lambda>_. x))),
      (''provider'', [], StringVar (\<lambda>x. opt_Provider_update (\<lambda>_. x))),
      (''file'', ''f'', StringVar (\<lambda>x. opt_TestFile_update (\<lambda>_. x))),
      (''run'', [], StringVar (\<lambda>x. opt_Regex_update (\<lambda>_. x))),
      (''output-file'', ''o'', StringVar (\<lambda>x. opt_OutFile_update (\<lambda>_. x))),
      (''count'', [], IntVar (\<lambda>x. opt_Count_update (\<lambda>_. x))),
      (''timeout'', [], DurationVar (\<lambda>x. opt_Timeout_update (\<lambda>_. x))),
      (''include-success'', [], BoolVar (\<lambda>x. opt_IncludeSuccessOutput_update (\<lambda>_. x))),
      (''max-parallel-tests'', [], IntVar (\<lambda>x. opt_Parallelism_update (\<lambda>_. x)))]"

definition bindUpgradeOptions :: "UpgradeOptions flag list" where
  "bindUpgradeOptions =
     [(''to-image'', [], StringVar (\<lambda>x. uo_ToImage_update (\<lambda>_. x))),
      (''options'', [], StringSliceVar (\<lambda>x. uo_TestOptions_update (\<lambda>_. Some x)))]"

text \<open>The options before the flags are read: the zero value with the suites of the command.\<close>

definition new_options :: "TestSuite list \<Rightarrow> Options" where
  "new_options suites =
     \<lparr>opt_Parallelism = 0, opt_Count = 0, opt_Timeout = 0, opt_JUnitDir = [], opt_TestFile = [], opt_OutFile = [], opt_Regex = [],
      opt_IncludeSuccessOutput = False, opt_Provider = [], opt_SuiteOptions = [], opt_Suites = suites, opt_DryRun = False,
      opt_PrintCommands = False\<rparr>"

text \<open>The upgrade suite; its \<open>Init\<close> is \<open>init_options\<close> followed by \<open>filterUpgrade\<close>.\<close>

definition upgradeSuites :: "(string \<Rightarrow> string) \<Rightarrow> TestSuite list" where
  "upgradeSuites longDesc =
     [(suite0 ''all'' (longDesc ''Run all tests.'')
         (\<lambda>name. has name ''[Feature:ClusterUpgrade]'' \<and> has name ''[Suite:openshift]''))\<lparr>ts_TestTimeout := 120 * Minute\<rparr>]"

section \<open>Output\<close>

datatype out_write = To_Out string | To_ErrOut string

fun out_part :: "out_write \<Rightarrow> string" where
  "out_part (To_Out s) = s"
| "out_part (To_ErrOut s) = []"

fun err_part :: "out_write \<Rightarrow> string" where
  "err_part (To_Out s) = []"
| "err_part (To_ErrOut s) = s"

fun any_part :: "out_write \<Rightarrow> string" where
  "any_part (To_Out s) = s"
| "any_part (To_ErrOut s) = s"

record console =
  con_out :: string
  con_err :: string
  con_file :: "string option"

text \<open>The text of an error.\<close>

fun error_text :: "run_error \<Rightarrow> string" where
  "error_text (ExitError c) = ''exit with code '' @ int_str c"
| "error_text (PlainError e) = e"

text \<open>
  \<open>mirrorToFile\<close>: \<open>open_err\<close> and \<open>close_err\<close> are the errors of opening and closing the file; writing to the console and
  to the file is taken to succeed. The function that is run changes a state and writes through \<open>Out\<close> and \<open>ErrOut\<close>; what
  other packages print straight to the standard output (such as the message of \<open>Events\<close> about events that are out
  of order) does not go through the mirror and is not part of the writes.
\<close>

definition mirrorToFile ::
  "(string \<Rightarrow> go_error option) \<Rightarrow> go_error option \<Rightarrow> string \<Rightarrow> ('s \<Rightarrow> 's \<times> out_write list \<times> run_result) \<Rightarrow> 's
    \<Rightarrow> 's \<times> console \<times> run_result" where
  "mirrorToFile open_err close_err outFile fn s =
     (if length outFile = 0 then
        (let (s, ws, r) = fn s in
         (s, \<lparr>con_out = concat (map out_part ws), con_err = concat (map err_part ws), con_file = None\<rparr>, r))
      else case open_err outFile of
        Some e \<Rightarrow> (s, \<lparr>con_out = [], con_err = [], con_file = None\<rparr>, Failed_with (PlainError e))
      | None \<Rightarrow>
          (let (s, ws, r) = fn s;
               con = \<lparr>con_out = concat (map out_part ws), con_err = concat (map err_part ws), con_file = Some (concat (map any_part ws))\<rparr> in
           case r of
             Panicked_with p \<Rightarrow> (s, con, r)
           | _ \<Rightarrow>
               (let con = (case r of Failed_with e \<Rightarrow> con\<lparr>con_file := map_option (\<lambda>f. f @ ''error: '' @ error_text e) (con_file con)\<rparr> | _ \<Rightarrow> con);
                    con = (case close_err of
                        Some _ \<Rightarrow> con\<lparr>con_err := con_err con @ ''error: Unable to close output file'' @ [newline]\<rparr> | None \<Rightarrow> con)
                in (s, con, r))))"

section \<open>The commands\<close>

text \<open>
  The state of a command: what \<open>initProvider\<close> changes, the settings of the upgrade test, and the options of
  the suite run.
\<close>

record 't cmd_state =
  cm_init :: init_state
  cm_vars :: "'t upgrade_vars"
  cm_opt :: Options

text \<open>
  What lies outside: the initialisation, the order in which a map is listed, the upgrade tests of the framework with
  their names, the environments of a suite run and of a single test in an initialised process, the file, and what
  the framework changes when all flags have been read.
\<close>

record 't cmd_env =
  ce_init :: init_env
  ce_entries :: "(string \<rightharpoonup> string) \<Rightarrow> (string \<times> string) list"
  ce_AllTests :: "'t list"
  ce_test_name :: "'t \<Rightarrow> string"
  ce_run :: "init_state \<Rightarrow> run_env"
  ce_framework :: "init_state \<Rightarrow> string \<Rightarrow> report_call list"
  ce_open :: "string \<Rightarrow> go_error option"
  ce_close :: "go_error option"
  ce_AfterReadingAllFlags :: "init_state \<Rightarrow> init_state"

definition suite_writes :: "run_out \<Rightarrow> out_write list" where
  "suite_writes r = [To_ErrOut (ro_err r), To_Out (ro_out r)]"

fun suite_result :: "unit outcome \<Rightarrow> run_result" where
  "suite_result (Ok _) = Nil"
| "suite_result (Err e) = Failed_with (PlainError e)"
| "suite_result (Panic p) = Panicked_with p"

text \<open>What the commands do between the initialisation and the run.\<close>

definition ready :: "'t cmd_env \<Rightarrow> init_state \<Rightarrow> init_state" where
  "ready ce i = (ce_AfterReadingAllFlags ce i)\<lparr>is_DumpLogsOnFailure := True\<rparr>"

text \<open>The common part of the commands \<open>run\<close> and \<open>run-upgrade\<close>.\<close>

definition run_with_provider :: "'t cmd_env \<Rightarrow> string list \<Rightarrow> 't cmd_state \<Rightarrow> 't cmd_state \<times> out_write list \<times> run_result" where
  "run_with_provider ce args s =
     (case initProvider (ce_init ce) (opt_Provider (cm_opt s)) (opt_DryRun (cm_opt s)) (cm_init s) of
        (i, Some e) \<Rightarrow> (s\<lparr>cm_init := i\<rparr>, [], Failed_with (PlainError e))
      | (i, None) \<Rightarrow>
          (let i = ready ce i; r = Options_Run (ce_run ce i) (cm_opt s) args in
           (s\<lparr>cm_init := i\<rparr>, suite_writes r, suite_result (ro_result r))))"

definition run_command :: "'t cmd_env \<Rightarrow> string list \<Rightarrow> 't cmd_state \<Rightarrow> 't cmd_state \<times> console \<times> run_result" where
  "run_command ce args s =
     mirrorToFile (ce_open ce) (ce_close ce) (opt_OutFile (cm_opt s)) (run_with_provider ce args) s"

definition ce_initUpgrade :: "'t cmd_env \<Rightarrow> string \<Rightarrow> 't upgrade_vars \<Rightarrow> 't upgrade_vars \<times> go_error option" where
  "ce_initUpgrade ce = initUpgrade (ie_json_msg (ce_init ce)) (ce_entries ce) (ce_test_name ce) (ce_AllTests ce)"

text \<open>The settings that \<open>run-upgrade\<close> makes for the suite that is named, if it exists.\<close>

definition upgrade_setup :: "'t cmd_env \<Rightarrow> UpgradeOptions \<Rightarrow> string list \<Rightarrow> 't cmd_state \<Rightarrow> 't cmd_state \<times> go_error option" where
  "upgrade_setup ce uopt args s =
     (case args of
        [] \<Rightarrow> (s, None)
      | name # _ \<Rightarrow>
          (case find_suite (opt_Suites (cm_opt s)) name of
             None \<Rightarrow> (s, None)
           | Some suite \<Rightarrow>
               (let val = ToEnv (uopt\<lparr>uo_Suite := ts_Name suite, uo_JUnitDir := opt_JUnitDir (cm_opt s)\<rparr>) in
                case ce_initUpgrade ce val (cm_vars s) of
                  (v, Some e) \<Rightarrow> (s\<lparr>cm_vars := v\<rparr>, Some e)
                | (v, None) \<Rightarrow> (s\<lparr>cm_vars := v, cm_opt := (cm_opt s)\<lparr>opt_SuiteOptions := val\<rparr>\<rparr>, None))))"

definition run_upgrade_body ::
  "'t cmd_env \<Rightarrow> UpgradeOptions \<Rightarrow> string list \<Rightarrow> 't cmd_state \<Rightarrow> 't cmd_state \<times> out_write list \<times> run_result" where
  "run_upgrade_body ce uopt args s =
     (if length (uo_ToImage uopt) = 0
      then (s, [], Failed_with (PlainError ''--to-image must be specified to run an upgrade test''))
      else case upgrade_setup ce uopt args s of
        (s, Some e) \<Rightarrow> (s, [], Failed_with (PlainError e))
      | (s, None) \<Rightarrow> run_with_provider ce args s)"

definition run_upgrade_command ::
  "'t cmd_env \<Rightarrow> UpgradeOptions \<Rightarrow> string list \<Rightarrow> 't cmd_state \<Rightarrow> 't cmd_state \<times> console \<times> run_result" where
  "run_upgrade_command ce uopt args s =
     mirrorToFile (ce_open ce) (ce_close ce) (opt_OutFile (cm_opt s)) (run_upgrade_body ce uopt args) s"

text \<open>The command of a child process.\<close>

definition run_test_command ::
  "'t cmd_env \<Rightarrow> bool \<Rightarrow> string list \<Rightarrow> 't cmd_state \<Rightarrow> 't cmd_state \<times> out_write list \<times> run_result" where
  "run_test_command ce dryRun args s =
     (case initProvider (ce_init ce) (Getenv (is_env (cm_init s)) ''TEST_PROVIDER'') dryRun (cm_init s) of
        (i, Some e) \<Rightarrow> (s\<lparr>cm_init := i\<rparr>, [], Failed_with (PlainError e))
      | (i, None) \<Rightarrow>
          (case ce_initUpgrade ce (Getenv (is_env i) ''TEST_SUITE_OPTIONS'') (cm_vars s) of
             (v, Some e) \<Rightarrow> (s\<lparr>cm_init := i, cm_vars := v\<rparr>, [], Failed_with (PlainError e))
           | (v, None) \<Rightarrow>
               (let i = ready ce i; (text, r) = TestOptions_Run (ce_framework ce i) (specs (ce_run ce i)) (iter_err (ce_run ce i)) dryRun args in
                (s\<lparr>cm_init := i, cm_vars := v\<rparr>, [if dryRun then To_Out text else To_ErrOut text], r))))"

text \<open>The message that \<open>main\<close> writes for an error that is not an exit code, and the exit code.\<close>

definition main_report :: "run_result \<Rightarrow> string \<times> int" where
  "main_report r =
     ((case r of Failed_with (PlainError e) \<Rightarrow> ''error: '' @ e @ [newline] | _ \<Rightarrow> []), main_exit r)"

text \<open>The environment of a child process: the one of the parent with the assignments added, the last one counts.\<close>

definition add_assignment :: "string \<Rightarrow> environ \<Rightarrow> environ" where
  "add_assignment a env = (case str_splitN2 a ''='' of [k, v] \<Rightarrow> env(k \<mapsto> v) | _ \<Rightarrow> env)"

definition child_environ :: "environ \<Rightarrow> string list \<Rightarrow> environ" where
  "child_environ env assignments = fold add_assignment assignments env"

end
