(* ===== verification/Command_Props.thy ===== *)
theory Command_Props
  imports Commands
begin

text \<open>
  Correctness of the commands: the copy of the output in a file, and the settings that a child process reads from
  its environment.
\<close>

section \<open>Flags\<close>

text \<open>The library refuses a name or a shorthand that is bound twice; the flags of both commands are distinct.\<close>

lemma flag_names_distinct:
  "distinct (map fst bindOptions @ map fst bindUpgradeOptions)"
  "distinct (filter (\<lambda>s. s \<noteq> []) (map (fst \<circ> snd) bindOptions @ map (fst \<circ> snd) bindUpgradeOptions))"
  by (simp_all add: bindOptions_def bindUpgradeOptions_def)

section \<open>The output file\<close>

text \<open>What a suite run writes to \<open>ErrOut\<close> comes before what it writes to \<open>Out\<close>: it writes to one of them only.\<close>

lemma select_suite_err: "fst (select_suite env opt args) \<noteq> [] \<Longrightarrow> \<forall>s. snd (select_suite env opt args) \<noteq> Ok s"
  by (auto simp: select_suite_def split: list.splits option.splits sum.splits if_splits)

lemma run_tests_err: "ro_err (run_tests env opt suite tests addrs) = []"
  by (simp add: run_tests_def Let_def split_beta)

lemma suite_writes_one: "ro_err (Options_Run env opt args) = [] \<or> ro_out (Options_Run env opt args) = []"
proof (cases "\<exists>s. snd (select_suite env opt args) = Ok s")
  case True
  with select_suite_err have "fst (select_suite env opt args) = []" by blast
  then show ?thesis
    by (auto simp: Options_Run_def Let_def split_beta run_tests_err split: outcome.splits option.splits if_splits)
next
  case False
  then show ?thesis by (auto simp: Options_Run_def Let_def split_beta split: outcome.splits)
qed














section \<open>The environment of a child process\<close>

lemma add_assignment_pair: "CHR ''='' \<notin> set k \<Longrightarrow> add_assignment (k @ ''='' @ v) env = env(k \<mapsto> v)"
  by (simp add: add_assignment_def splitN2_char)

lemma child_environ_AsEnv:
  "child_environ env (AsEnv opt) = env(''TEST_PROVIDER'' \<mapsto> opt_Provider opt, ''TEST_SUITE_OPTIONS'' \<mapsto> opt_SuiteOptions opt)"
  using add_assignment_pair [of "''TEST_PROVIDER''"] add_assignment_pair [of "''TEST_SUITE_OPTIONS''"]
  by (simp add: child_environ_def AsEnv_def)

text \<open>The variables that the initialisation may set.\<close>

definition init_vars :: "string list" where
  "init_vars = [manifestEnvVar, installDriversEnvVar, ''ARTIFACT_DIR'', ''KUBECONFIG'']"

lemma install_drivers_env: "k \<notin> set init_vars \<Longrightarrow> csi_env (fst (install_drivers install ds s)) k = csi_env s k"
  by (induction ds arbitrary: s) (auto simp: init_vars_def add_manifest_def Let_def split: sum.splits)

lemma add_definitions_env: "csi_env (fst (add_definitions add ms s)) = csi_env s"
  by (induction ms arbitrary: s) (auto split: option.splits)

lemma initCSITests_env: "k \<notin> set init_vars \<Longrightarrow> csi_env (fst (initCSITests install add s)) k = csi_env s k"
  using install_drivers_env [of k install _ s]
  by (auto simp: initCSITests_def load_definitions_def Let_def add_definitions_env init_vars_def split: prod.splits option.splits)
     (metis fst_conv)+

lemma InitTest_env: "k \<notin> set init_vars \<Longrightarrow> is_env (fst (InitTest host dryRun s)) k = is_env s k"
  by (auto simp: InitTest_def InitDefaultEnvironmentVariables_def Setenv_def Let_def init_vars_def split: sum.splits)

lemma AnnotateTestSuite_csi: "is_csi (AnnotateTestSuite network s) = is_csi s"
  by (simp add: AnnotateTestSuite_def Let_def)

lemma initProvider_env:
  assumes "k \<notin> set init_vars" and "initProvider ie provider dryRun s = (s', None)"
  shows "is_env s' k = is_env s k"
proof -
  obtain ctx csi where csi: "initCSITests (ie_install ie dryRun) (ie_add ie) (is_csi s) = (csi, None)"
    and fin: "InitTest (ie_host ie) dryRun (AnnotateTestSuite (ie_network ie)
      (s\<lparr>is_ctx := ctx, is_AllowedNotReadyNodes := 100, is_MaxNodesToGather := 0, is_viper := Getenv (is_env s) ''VIPERCONFIG'',
         is_csi := csi\<rparr>)) = (s', None)"
    using assms(2) by (auto simp: initProvider_def Let_def split: prod.splits option.splits)
  have "is_env s' k = csi_env csi k"
    using InitTest_env [OF assms(1), of "ie_host ie" dryRun "AnnotateTestSuite (ie_network ie)
      (s\<lparr>is_ctx := ctx, is_AllowedNotReadyNodes := 100, is_MaxNodesToGather := 0, is_viper := Getenv (is_env s) ''VIPERCONFIG'',
         is_csi := csi\<rparr>)"]
    by (simp add: fin AnnotateTestSuite_csi)
  also have "\<dots> = is_env s k" using initCSITests_env [OF assms(1), of "ie_install ie dryRun" "ie_add ie" "is_csi s"] csi by simp
  finally show ?thesis .
qed

section \<open>The settings of an upgrade in a child process\<close>

text \<open>A list of the entries of a map, in some order.\<close>

definition lists_map :: "(string \<times> string) list \<Rightarrow> (string \<rightharpoonup> string) \<Rightarrow> bool" where
  "lists_map l m = (map_of l = m \<and> distinct (map fst l))"

lemma lists_map_set: "lists_map l m \<Longrightarrow> lists_map l' m \<Longrightarrow> set l = set l'"
  by (auto simp: lists_map_def) (metis map_of_SomeD map_of_is_SomeI)+

lemma OptionsMap_fields:
  "OptionsMap (uopt\<lparr>uo_Suite := a, uo_JUnitDir := b\<rparr>) = OptionsMap uopt"
  by (simp add: OptionsMap_def)

lemma ToEnv_not_empty: "ToEnv o' \<noteq> []"
  by (simp add: ToEnv_def)

lemma initUpgrade_ToEnv:
  assumes "OptionsMap o' = Inr m" and "lists_map (entries m) m"
  shows "initUpgrade json_msg entries name tests (ToEnv o') v = (v', None) \<longleftrightarrow>
    uo_Suite o' = ''all'' \<and> list_all option_ok (entries m)
    \<and> v' = filterUpgrade name tests (\<lambda>_. True)
        (options_set m (v\<lparr>upgradeTarget := [], upgradeImage := uo_ToImage o', ReportDir := uo_JUnitDir o'\<rparr>))"
proof -
  let ?v = "v\<lparr>upgradeTarget := [], upgradeImage := uo_ToImage o', ReportDir := uo_JUnitDir o'\<rparr>"
  have ok: "init_options (entries m) ?v = (w, None) \<longleftrightarrow> list_all option_ok (entries m) \<and> w = options_set m ?v" for w
    using init_options_ok [of "entries m" ?v w] assms(2) by (simp add: lists_map_def)
  obtain w e where we: "init_options (entries m) ?v = (w, e)" by fastforce
  show ?thesis
    using assms(1) ok [of w] ok [of "options_set m ?v"] we
    by (cases e) (auto simp: initUpgrade_def ToEnv_not_empty read_ToEnv Let_def)
qed

text \<open>
  C5: When \<open>run-upgrade\<close> has made its settings for a suite, a child process that is started with the options of
  the suite run makes the same settings from its environment, also when it lists the options in another order:
  the image to upgrade to, the directory of the reports, the abort percentage, the reboot policy and the
  tests. It also reads the provider of the parent.
\<close>
theorem upgrade_child_settings:
  assumes "upgrade_setup ce uopt (name # rest) s = (s', None)" and "find_suite (opt_Suites (cm_opt s)) name = Some suite"
    and "OptionsMap uopt = Inr m" and "lists_map (ce_entries ce m) m" and "lists_map (entries' m) m"
    and "is_env (cm_init c) = child_environ env (AsEnv (cm_opt s'))" and "cm_vars c = cm_vars s"
    and "initProvider (ce_init ce) (opt_Provider (cm_opt s)) dryRun (cm_init c) = (i, None)"
  shows "cm_vars (fst (run_test_command (ce\<lparr>ce_entries := entries'\<rparr>) dryRun args c)) = cm_vars s'
    \<and> cm_init (fst (run_test_command (ce\<lparr>ce_entries := entries'\<rparr>) dryRun args c)) = ready ce i
    \<and> upgradeImage (cm_vars s') = uo_ToImage uopt \<and> ReportDir (cm_vars s') = opt_JUnitDir (cm_opt s)
    \<and> upgradeTests (cm_vars s') = ce_AllTests ce"
proof -
  let ?o = "uopt\<lparr>uo_Suite := ts_Name suite, uo_JUnitDir := opt_JUnitDir (cm_opt s)\<rparr>"
  have up: "ce_initUpgrade ce (ToEnv ?o) (cm_vars s) = (cm_vars s', None)"
    and opt: "opt_SuiteOptions (cm_opt s') = ToEnv ?o" "opt_Provider (cm_opt s') = opt_Provider (cm_opt s)"
    using assms(1,2) by (auto simp: upgrade_setup_def Let_def split: prod.splits option.splits)
  have om: "OptionsMap ?o = Inr m" using assms(3) by (simp add: OptionsMap_fields)
  have spec: "initUpgrade (ie_json_msg (ce_init ce)) entries (ce_test_name ce) (ce_AllTests ce) (ToEnv ?o) (cm_vars s) = (cm_vars s', None) \<longleftrightarrow>
      uo_Suite ?o = ''all'' \<and> list_all option_ok (entries m) \<and> cm_vars s' = filterUpgrade (ce_test_name ce) (ce_AllTests ce) (\<lambda>_. True)
        (options_set m ((cm_vars s)\<lparr>upgradeTarget := [], upgradeImage := uo_ToImage ?o, ReportDir := uo_JUnitDir ?o\<rparr>))"
    if "lists_map (entries m) m" for entries by (rule initUpgrade_ToEnv [where entries = entries, OF om that])
  from up spec [of "ce_entries ce"] assms(4) have v: "list_all option_ok (ce_entries ce m)" "uo_Suite ?o = ''all''"
    "cm_vars s' = filterUpgrade (ce_test_name ce) (ce_AllTests ce) (\<lambda>_. True)
        (options_set m ((cm_vars s)\<lparr>upgradeTarget := [], upgradeImage := uo_ToImage ?o, ReportDir := uo_JUnitDir ?o\<rparr>))"
    by (simp_all add: ce_initUpgrade_def)
  have "list_all option_ok (entries' m)" using v(1) lists_map_set [OF assms(4,5)] by (simp add: list_all_iff)
  with v spec [of entries'] assms(5) have child: "ce_initUpgrade (ce\<lparr>ce_entries := entries'\<rparr>) (ToEnv ?o) (cm_vars c) = (cm_vars s', None)"
    by (simp add: ce_initUpgrade_def assms(7))
  have "Getenv (is_env (cm_init c)) ''TEST_PROVIDER'' = opt_Provider (cm_opt s)"
    by (simp add: assms(6) child_environ_AsEnv Getenv_def opt)
  moreover have "is_env i ''TEST_SUITE_OPTIONS'' = is_env (cm_init c) ''TEST_SUITE_OPTIONS''"
    using initProvider_env [OF _ assms(8), of "''TEST_SUITE_OPTIONS''"] by (simp add: init_vars_def)
  then have "Getenv (is_env i) ''TEST_SUITE_OPTIONS'' = ToEnv ?o"
    by (simp add: Getenv_def assms(6) child_environ_AsEnv opt)
  ultimately show ?thesis using child v(3)
    by (simp add: run_test_command_def assms(8) Let_def split_beta filterUpgrade_def options_set_def ready_def)
qed

definition demo_ie :: init_env where
  "demo_ie = \<lparr>ie_json_msg = (\<lambda>_. []), ie_decode_cloud = (\<lambda>_ c. (c, None)), ie_cluster = demo_info, ie_install = (\<lambda>_ _. Inl []),
     ie_add = (\<lambda>_. None), ie_network = Inl [], ie_host = (\<lambda>_. Inl [])\<rparr>"

definition demo_entries :: "string list \<Rightarrow> (string \<rightharpoonup> string) \<Rightarrow> (string \<times> string) list" where
  "demo_entries ks m = map (\<lambda>k. (k, the (m k))) (filter (\<lambda>k. m k \<noteq> None) ks)"

definition demo_init :: "environ \<Rightarrow> init_state" where
  "demo_init env = \<lparr>is_csi = \<lparr>csi_env = env, csi_installed = [], csi_definitions = [], csi_sources = []\<rparr>, is_ctx = demo_ctx,
     is_AllowedNotReadyNodes = 0, is_MaxNodesToGather = 0, is_viper = [], is_tests = [], is_DeleteNamespace = False, is_KubeConfig = [],
     is_Host = [], is_reportFileName = [], is_quiet = False, is_VerifyServiceAccount = False, is_KubectlPath = [], is_NodeOSDistro = [],
     is_MasterOSDistro = [], is_DumpLogsOnFailure = False\<rparr>"

definition demo_run :: run_env where
  "demo_run = \<lparr>read_input = (\<lambda>_. Inl []), compile = (\<lambda>_. Inl []), specs = [], iter_err = [], arg0 = [], arg0_base = [], junit_dir = Dir_exists,
     start_err = None, mon_events = (\<lambda>_ _. []), schedule = (\<lambda>_ _ _. []), run_start = 0, run_end = 0, ctx_err = None\<rparr>"

definition demo_ce :: "nat cmd_env" where
  "demo_ce = \<lparr>ce_init = demo_ie, ce_entries = demo_entries [''abort-at'', ''disrupt-reboot''], ce_AllTests = [1, 2], ce_test_name = (\<lambda>_. []),
     ce_run = (\<lambda>_. demo_run), ce_framework = (\<lambda>_ _. []), ce_open = (\<lambda>_. None), ce_close = None,
     ce_AfterReadingAllFlags = id\<rparr>"

definition demo_vars :: "nat upgrade_vars" where
  "demo_vars = \<lparr>upgradeTests = [], upgradeAbortAt = 0, upgradeDisruptRebootPolicy = [], upgradeTarget = [], upgradeImage = [], ReportDir = []\<rparr>"

definition demo_cmd :: "environ \<Rightarrow> nat cmd_state" where
  "demo_cmd env = \<lparr>cm_init = demo_init env, cm_vars = demo_vars, cm_opt = new_options (upgradeSuites id)\<rparr>"

definition demo_uopt :: UpgradeOptions where
  "demo_uopt = \<lparr>uo_Suite = [], uo_ToImage = ''img'', uo_JUnitDir = [], uo_TestOptions = Some [''disrupt-reboot=force'', ''abort-at=50'']\<rparr>"

lemma demo_provider: "snd (initProvider demo_ie [] True (demo_init env)) = None"
  if "env ''KUBE_SSH_USER'' = None" "env installDriversEnvVar = None" "env manifestEnvVar = None"
  using that
  by (simp add: initProvider_def demo_ie_def demo_init_def decodeProviderTo_def provider_choice_def demo_ctx_def initCSITests_def Getenv_def
      load_definitions_def InitTest_def Let_def)

theorem upgrade_child_settings_witness:
  "\<exists>env. cm_vars (fst (run_test_command (demo_ce\<lparr>ce_entries := demo_entries [''disrupt-reboot'', ''abort-at'']\<rparr>) True [] (demo_cmd env)))
     = \<lparr>upgradeTests = [1, 2], upgradeAbortAt = 50, upgradeDisruptRebootPolicy = ''force'', upgradeTarget = [], upgradeImage = ''img'', ReportDir = []\<rparr>"
proof -
  let ?m = "[''disrupt-reboot'' \<mapsto> ''force'', ''abort-at'' \<mapsto> ''50'']"
  let ?s = "demo_cmd Map.empty"
  let ?v = "\<lparr>upgradeTests = [1, 2], upgradeAbortAt = 50, upgradeDisruptRebootPolicy = ''force'', upgradeTarget = [], upgradeImage = ''img'', ReportDir = []\<rparr>"
  let ?o = "demo_uopt\<lparr>uo_Suite := ''all'', uo_JUnitDir := []\<rparr>"
  have sp: "str_splitN2 ''disrupt-reboot=force'' ''='' = [''disrupt-reboot'', ''force'']" "str_splitN2 ''abort-at=50'' ''='' = [''abort-at'', ''50'']"
    "abort_value ''50'' = Some 50" by code_simp+
  have m: "OptionsMap demo_uopt = Inr ?m" by (simp add: OptionsMap_def demo_uopt_def sp)
  have l: "lists_map (demo_entries [''abort-at'', ''disrupt-reboot''] ?m) ?m" "lists_map (demo_entries [''disrupt-reboot'', ''abort-at''] ?m) ?m"
    by (auto simp: lists_map_def demo_entries_def)
  have m': "OptionsMap ?o = Inr ?m" using m by (simp only: OptionsMap_fields)
  have suite: "find_suite (opt_Suites (cm_opt ?s)) ''all'' = Some (hd (upgradeSuites id))"
    by (simp add: demo_cmd_def new_options_def upgradeSuites_def)
  have "ce_initUpgrade demo_ce (ToEnv ?o) demo_vars = (?v, None)"
    unfolding ce_initUpgrade_def
    using initUpgrade_ToEnv [where entries = "demo_entries [''abort-at'', ''disrupt-reboot'']", OF m' l(1), of "ie_json_msg demo_ie" "\<lambda>_. []" "[1 :: nat, 2]" demo_vars ?v]
    by (simp add: demo_ce_def demo_entries_def option_ok_def reboot_value_def options_set_def demo_vars_def filterUpgrade_def sp
        demo_uopt_def)
  then have set: "upgrade_setup demo_ce demo_uopt [''all''] ?s
    = (?s\<lparr>cm_vars := ?v, cm_opt := (cm_opt ?s)\<lparr>opt_SuiteOptions := ToEnv ?o\<rparr>\<rparr>, None)"
    by (simp add: upgrade_setup_def suite demo_cmd_def new_options_def upgradeSuites_def)
  let ?env = "child_environ Map.empty (AsEnv ((cm_opt ?s)\<lparr>opt_SuiteOptions := ToEnv ?o\<rparr>))"
  have "snd (initProvider demo_ie [] True (demo_init ?env)) = None" by (rule demo_provider) (simp_all add: child_environ_AsEnv)
  then have ip: "initProvider (ce_init demo_ce) (opt_Provider (cm_opt ?s)) True (cm_init (demo_cmd ?env))
    = (fst (initProvider demo_ie [] True (demo_init ?env)), None)"
    by (simp add: demo_ce_def demo_cmd_def new_options_def prod_eq_iff)
  from conjunct1 [OF upgrade_child_settings [where entries' = "demo_entries [''disrupt-reboot'', ''abort-at'']" and env = Map.empty,
        OF set suite m _ l(2) _ _ ip]]
  have "cm_vars (fst (run_test_command (demo_ce\<lparr>ce_entries := demo_entries [''disrupt-reboot'', ''abort-at'']\<rparr>) True [] (demo_cmd ?env))) = ?v"
    using l(1) by (simp add: demo_cmd_def demo_init_def demo_ce_def)
  then show ?thesis by blast
qed


end
