(* ===== verification/Small_Programs.thy ===== *)
theory Small_Programs
  imports Provider
begin

text \<open>
  The version of the binary (\<open>src/pkg/version/version.go\<close>) and the two web servers that tests deploy
  (\<open>src/examples/deployment\<close>, \<open>src/examples/hello-openshift\<close>).
\<close>

section \<open>Version\<close>

text \<open>The variables that the build sets, with the values they have when it does not.\<close>

record build_vars =
  commitFromGit :: string
  versionFromGit :: string
  majorFromGit :: string
  minorFromGit :: string
  buildDate :: string
  gitTreeState :: string

definition default_vars :: build_vars where
  "default_vars = \<lparr>commitFromGit = [], versionFromGit = ''unknown'', majorFromGit = [], minorFromGit = [], buildDate = [], gitTreeState = []\<rparr>"

text \<open>What the Go runtime reports.\<close>

record runtime =
  rt_Version :: string
  rt_Compiler :: string
  rt_GOOS :: string
  rt_GOARCH :: string

record Info =
  in_Major :: string
  in_Minor :: string
  in_GitVersion :: string
  in_GitCommit :: string
  in_GitTreeState :: string
  in_BuildDate :: string
  in_GoVersion :: string
  in_Compiler :: string
  in_Platform :: string

definition Get :: "build_vars \<Rightarrow> runtime \<Rightarrow> Info" where
  "Get b rt =
     \<lparr>in_Major = majorFromGit b, in_Minor = minorFromGit b, in_GitVersion = versionFromGit b, in_GitCommit = commitFromGit b,
      in_GitTreeState = gitTreeState b, in_BuildDate = buildDate b, in_GoVersion = rt_Version rt, in_Compiler = rt_Compiler rt,
      in_Platform = rt_GOOS rt @ ''/'' @ rt_GOARCH rt\<rparr>"

text \<open>The metric that is registered: its name, its labels with their values, and its value.\<close>

definition build_info :: "build_vars \<Rightarrow> string \<times> (string \<times> string) list \<times> int" where
  "build_info b =
     (''openshift_build_info'',
      zip [''major'', ''minor'', ''gitCommit'', ''gitVersion''] [majorFromGit b, minorFromGit b, commitFromGit b, versionFromGit b], 1)"

section \<open>Deployment\<close>

record deployment_vars =
  dv_version :: string
  dv_subtitle :: string
  dv_color :: string

definition deployment_main :: "string list \<Rightarrow> environ \<Rightarrow> deployment_vars" where
  "deployment_main osArgs env =
     (let color = Getenv env ''COLOR'' in
      \<lparr>dv_version = (if length osArgs > 1 then osArgs ! 1 else ''v1''), dv_subtitle = Getenv env ''SUBTITLE'',
       dv_color = (if length color = 0 then ''#303030'' else color)\<rparr>)"

text \<open>\<open>Fprintf\<close> for the verbs that the page has: \<open>%%\<close> and \<open>%[n]s\<close> with one digit.\<close>

fun format_indexed :: "string list \<Rightarrow> string \<Rightarrow> string" where
  "format_indexed args [] = []"
| "format_indexed args (c # s) =
     (if c \<noteq> CHR ''%'' then c # format_indexed args s
      else case s of
        [] \<Rightarrow> ''%!(NOVERB)''
      | d # r \<Rightarrow>
          if d = CHR ''%'' then d # format_indexed args r
          else (case r of
            n # b # v # r' \<Rightarrow> (if of_char n - 49 < length args then args ! (of_char n - 49) else ''%!s(BADINDEX)'') @ format_indexed args r'
          | _ \<Rightarrow> ''%!(BADINDEX)''))"

definition htmlContent :: string where
  \<open>htmlContent = str_join
     [''<!DOCTYPE html>'', ''<html lang="en">'', ''<head>'', ''  <meta charset="utf-8">'', ''  <title>Deployment Demonstration</title>'',
      ''  <meta name="viewport" content="width=device-width, initial-scale=1.0">'', ''  <style>'', ''    HTML{height:100%%;}'',
      ''    BODY{font-family:Helvetica,Arial;display:flex;display:-webkit-flex;align-items:center;justify-content:center;-webkit-align-items:center;-webkit-box-align:center;-webkit-justify-content:center;height:100%%;}'',
      ''    .box{background:%[3]s;color:white;text-align:center;border-radius:10px;display:inline-block;}'',
      ''    H1{font-size:10em;line-height:1.5em;margin:0 0.5em;}'', ''    H2{margin-top:0;}'', ''  </style>'', ''</head>'', ''<body>'',
      ''<div class="box"><h1>%[1]s</h1><h2>%[2]s</h2></div>'', ''</body>'', ''</html>''] [newline]\<close>

definition deploymentHandler :: "deployment_vars \<Rightarrow> string" where
  "deploymentHandler v = format_indexed [dv_version v, dv_subtitle v, dv_color v] htmlContent"

definition healthHandler :: string where
  "healthHandler = ''ok'' @ [newline]"

section \<open>Hello\<close>

text \<open>The response and what is printed on standard output.\<close>

definition helloHandler :: "environ \<Rightarrow> string \<times> string" where
  "helloHandler env =
     (let response = Getenv env ''RESPONSE'' in
      ((if length response = 0 then ''Hello OpenShift!'' else response) @ [newline], ''Servicing request.'' @ [newline]))"

definition hello_ports :: "environ \<Rightarrow> string list" where
  "hello_ports env =
     (let port = (\<lambda>k d. let p = Getenv env k in if length p = 0 then d else p) in [port ''PORT'' ''8080'', port ''SECOND_PORT'' ''8888''])"

text \<open>\<open>ListenAndServe\<close> returns only with an error, which is a panic.\<close>

definition listenAndServe :: "string \<Rightarrow> go_error option \<Rightarrow> string \<times> unit outcome" where
  "listenAndServe port err =
     (''serving on '' @ port @ [newline], case err of None \<Rightarrow> Ok () | Some e \<Rightarrow> Panic (''ListenAndServe: '' @ e))"

section \<open>What the page shows\<close>

lemma format_indexed_text: "CHR ''%'' \<notin> set s \<Longrightarrow> format_indexed args (s @ r) = s @ format_indexed args r"
  by (induction s) auto

text \<open>The variables that are not set have defaults, so the page always has a version and a colour.\<close>

lemma deployment_defaults:
  "dv_color (deployment_main osArgs env) \<noteq> []" "dv_version (deployment_main [a] env) = ''v1''"
  by (simp_all add: deployment_main_def Let_def)

end
