(* ===== verification/Spec2Isabelle.thy ===== *)
theory Spec2Isabelle
  imports Execute_Props Monitor_Objects Monitor_Command Run_Suite_Props Suites Upgrade Command_Props Small_Programs
begin

text \<open>
  Verification of the OpenShift extended test runner (\<open>extended-platform-tests\<close>).

  \<^bold>\<open>The program.\<close> The command \<open>run\<close> selects a suite of end-to-end tests and runs every test of it in a child process
  of the same binary (\<open>run-test\<close>), several at a time; it counts the results, runs failed tests again when the suite
  allows flakes, and writes a JUnit report. While the tests run a monitor watches the cluster: it probes the API
  servers, follows pods, nodes, operators, the cluster version and events, and keeps instantaneous events and
  periodic samples of conditions, which are merged into the timeline of the run. \<open>run-monitor\<close> is the monitor
  alone. \<open>run-upgrade\<close> runs the upgrade suite, whose one test upgrades the cluster, may roll the upgrade back and may
  reboot masters. Before a command runs tests it finds the cloud provider, installs CSI drivers and adds labels
  to the names of all tests, from which the suites are made.

  \<^bold>\<open>The theories\<close>, in the order of their imports (paths are below \<open>src/\<close>).

  \<^item> \<open>OT_Prelude\<close>: Go's strings, errors and panics (\<open>'a outcome\<close>), \<open>sort.Search\<close>, stable sorting, shared lemmas;
    \<open>Go_Strconv\<close>, \<open>Go_Time\<close>, \<open>Go_Json\<close>, \<open>Go_Float\<close>: the parts of the language and the standard library that the program relies on:
    \<open>Quote\<close> and \<open>Unquote\<close>, saturating durations and their text, \<open>Marshal\<close> and \<open>Unmarshal\<close>, the rounded quotients of \<open>float64\<close>.
  \<^item> \<open>Test_Case\<close>, \<open>Test_Queue\<close>, \<open>Execute\<close>, \<open>Execute_Props\<close>: \<open>pkg/test/ginkgo/test.go\<close>, \<open>ginkgo.go\<close> and \<open>queue.go\<close>. The queue is a
    ring of tests with a set of exclusion keys in use; \<open>exec_step\<close> is the interleaving of the workers, of the
    condition variable and of the cancellation. Shown: exclusion, each test once, serial tests alone, termination
    where it holds, and the schedule in which a wake-up is lost and \<open>Execute\<close> does not return.
  \<^item> \<open>Run_Test\<close>, \<open>Test_Status\<close>: \<open>cmd_runtest.go\<close>, \<open>status.go\<close> and \<open>junit.go\<close>: the child process with its reporter and exit
    code, and the parent that classifies it, counts and reports. Shown: the parent classifies a test by what the framework
    reported of it, the counters agree with the summary, what the JUnit counters really count.
  \<^item> \<open>Run_Suite\<close>, \<open>Run_Suite_Props\<close>: \<open>Options.Run\<close> of \<open>cmd_runsuite.go\<close>. Shown: when the run succeeds, which tests are run how
    often, what repeated runs of a test hide, and that the output of a dry run can be read back as a suite. The schedules
    of the tests are an input; \<open>execute_schedules\<close> below shows that those of \<open>Execute\<close> are as the results ask.
  \<^item> \<open>Monitor_Types\<close>, \<open>Monitor_Core\<close>, \<open>Monitor_Props\<close>, \<open>Monitor_Sampler\<close>, \<open>Monitor_Objects\<close>, \<open>Monitor_Command\<close>: \<open>pkg/monitor\<close>. The state
    of the monitor is a list of events and a list of samples; \<open>mon_step\<close> interleaves recording and sampling. Shown:
    \<open>Conditions\<close> returns the maximal runs of equal conditions (a refinement of the abstract description \<open>maximal_run\<close>),
    \<open>Events\<close> is exact and ordered, which events the printer prints and which it misses, that empty rounds leave no trace, probes record
    exactly the edges, what the object handlers record, and how the command ends after signals.
  \<^item> \<open>Test_Renamer\<close>, \<open>Static_Suites\<close>, \<open>Suites\<close>: \<open>test/extended/util/test.go\<close> and \<open>cmd/extended-platform-tests/e2e.go\<close>. Shown: the
    labelling ends and is complete, the conformance suites partition the tests, and which networks the exclusions reach.
  \<^item> \<open>Upgrade_Options\<close>, \<open>Upgrade\<close>: \<open>cmd/extended-platform-tests/upgrade.go\<close> and \<open>test/e2e/upgrade\<close>. Shown: which options are
    accepted, that options survive the way through the environment of a child, one rollback at most, when to
    abort, what happens when the cluster does not answer, and that a reboot is triggered after finitely many tries.
  \<^item> \<open>Provider\<close>, \<open>Commands\<close>, \<open>Command_Props\<close>: \<open>cmd/extended-platform-tests/openshift-tests.go\<close>, \<open>csi.go\<close> and
    \<open>test/extended/util/cloud/cloud.go\<close>. Shown: which provider is chosen, that a child registers the same CSI definitions
    and makes the same upgrade settings as its parent, and that a copy of the output in a file changes nothing else.
  \<^item> \<open>Small_Programs\<close>: \<open>pkg/version\<close> and the two servers of \<open>examples\<close>.

  \<^bold>\<open>Interfaces.\<close> The locale \<open>strict_weak\<close> of \<open>OT_Prelude\<close> is what \<open>sort.Sort\<close> asks of a comparison and \<open>sorter\<close> what it promises; a sublocale
  relation gives the second from the first, and both are interpreted on the order of intervals and on strings. The
  locale \<open>exclusive_queue\<close> of \<open>Test_Queue\<close> is what \<open>Execute\<close> relies on; it is interpreted on the ring. The locale \<open>edge_detector\<close>
  of \<open>Monitor_Sampler\<close> is what the probes and the list-watchers promise; it is interpreted on each of the three, whose
  properties are its lemmas.

  \<^bold>\<open>Conventions.\<close> A nil error is the constructor for success (\<open>Inr\<close>, \<open>Ok\<close>, or None for an optional error); a function
  that changes state and may fail returns the state with the error, because Go keeps what was changed. Integers
  whose wrap-around cannot be reached (counters, lengths) are \<open>nat\<close> or \<open>int\<close>; durations saturate as in Go. Times
  are nanoseconds as \<open>int\<close>, with 0 for the zero time. What lies outside the program is an argument: the answers of the
  API server, the file system, the test framework, the child processes, random numbers and the order in which a map
  is listed. Loops over polls take the list of the answers that arrive before the time is over. Recursion is
  structural or has a termination proof; \<open>triggerReboot\<close>, which need not end, is a partial function with None for
  not returning; the JSON parser has a bound on its depth, \<open>2 * length s + 2\<close>, which \<open>json_value_bound\<close> shows to be large
  enough for every text.

  \<^bold>\<open>Not modelled.\<close> The bodies of the end-to-end tests and their helpers below \<open>test/extended\<close>, which are requests to a
  cluster; the fixtures (generated); the runner of the upgrade tests in \<open>disruption.go\<close>, which is glue between the chaos
  monkey and Ginkgo libraries; the installation of a CSI driver with \<open>oc\<close>; the configuration file of Azure; killing a child
  that exceeds its time; the parsing of the command line and the help texts; informers and watches of client-go, of
  which the handlers are modelled. Errors of writing to the console are taken not to happen, and what a package prints straight
  to the standard output is not part of the output of a command. The wall clock is taken not to be set back while the
  monitor runs.
\<close>

section \<open>The queue and the suite run\<close>

text \<open>
  The suite run relies on schedules that run every test of a queue once when there is a worker. A schedule that some
  interleaving of \<open>Execute\<close> produces, with the number of workers that the suite run asks for, is such a schedule,
  provided that \<open>Execute\<close> returns and was not cancelled.
\<close>

lemma execute_schedules:
  assumes "\<And>k p as. 0 < p \<Longrightarrow> \<exists>excl serial s. exec_reach excl serial as (nat p) s \<and> ex_main s = MainDone \<and> \<not> ex_ctxDone s
      \<and> map fst (run_env.schedule env k p as) = ex_started s"
  shows "permutes env"
proof (intro allI impI)
  fix k as and p :: int
  assume p: "0 < p"
  from assms [OF p, of as k] obtain excl serial s where
    s: "exec_reach excl serial as (nat p) s" "ex_main s = MainDone" "\<not> ex_ctxDone s"
      "map fst (run_env.schedule env k p as) = ex_started s" by blast
  from final_complete [OF s(1)] s(2,3) p show "mset (map fst (run_env.schedule env k p as)) = mset as"
    unfolding s(4) by simp
qed

section \<open>The upgrade suite and the renamer\<close>

lemma disruptive_excluded:
  assumes "str_contains name ''[Disruptive]''"
  shows "match_any (excludedTestsFilter (stock provider networks)) name"
  using assms re_match_literal [of "''[Disruptive]''" name]
  by (simp add: match_any_def newGinkgoTestRenamerFromGlobals_def excludedTests_def del: re_match.simps)

lemma labels_not_openshift: "list_all (\<lambda>l. \<not> str_contains l ''[Suite:openshift]'') (map fst testMaps)"
  by code_simp

text \<open>A disruptive test gets no suite from the renamer unless it lies below a directory \<open>origin/test\<close>.\<close>

lemma disruptive_renamed:
  fixes top pre provider networks and node :: TestNode
  defines "node' \<equiv> maybeRenameTest (stock provider networks) (top @ pre @ node_Text node) node"
  assumes "str_contains (top @ pre @ node_Text node) ''[Disruptive]''"
    and "\<not> str_contains (pre @ node_Text node) ''[Suite:openshift''"
  shows "str_contains (pre @ node_Text node') ''[Suite:openshift]'' = str_contains (node_FileName node) ''/origin/test/''"
    and "\<exists>t. node_Text node' = node_Text node @ t"
proof -
  let ?r = "stock provider networks" and ?name = "pre @ node_Text node" and ?p = "''[Suite:openshift]''"
  obtain labels sat where sat: "saturate ?r [] (top @ ?name) = (labels, sat)" by fastforce
  from saturate_spec [OF sat] stock_labels obtain new where
    new: "set new \<subseteq> set (map fst testMaps)" "labels = spaced new" "sat = (top @ ?name) @ spaced new" by fastforce
  have "str_contains sat ''[Disruptive]''" unfolding new(3) using assms(2) by (rule str_contains_appendL)
  then have ex: "match_any (excludedTestsFilter ?r) sat" by (rule disruptive_excluded)
  have "str_contains ?p ''[Suite:openshift''" by code_simp
  then have sub: "str_contains s ?p \<Longrightarrow> str_contains s ''[Suite:openshift''" for s by (blast intro: str_contains_trans)
  have plain: "\<not> str_contains (node_Text node) ''[Suite:openshift''"
    using assms(3) str_contains_appendR by blast
  let ?e1 = "if str_contains (node_FileName node) ''/origin/test/'' then [?p] else []"
  let ?e2 = "if str_contains (node_FileName node) ''/kubernetes/test/e2e/'' then [''[Suite:k8s]''] else []"
  have node': "node_Text node' = node_Text node @ spaced (?e1 @ ?e2 @ new)"
    using ex plain new(2) by (simp add: node'_def maybeRenameTest_def sat SetText_def spaced_def)
  then show "\<exists>t. node_Text node' = node_Text node @ t" by blast
  have "pre @ node_Text node' = ?name @ spaced (?e1 @ ?e2 @ new)" using node' by simp
  moreover have "str_contains (?name @ spaced ls) ?p \<longleftrightarrow> str_contains ?name ?p \<or> list_ex (\<lambda>l. str_contains l ?p) ls" for ls
    by (rule contains_spaced) simp_all
  moreover have "\<not> list_ex (\<lambda>l. str_contains l ?p) new" using new(1) labels_not_openshift by (auto simp: list_ex_iff list_all_iff)
  moreover have "\<not> str_contains ''[Suite:k8s]'' ?p" by code_simp
  moreover have "\<not> str_contains ?name ?p" using assms(3) sub by blast
  moreover have "str_contains ?p ?p" by code_simp
  ultimately show "str_contains (pre @ node_Text node') ?p = str_contains (node_FileName node) ''/origin/test/''" by simp
qed

definition upgrade_test_node :: "string \<Rightarrow> TestNode" where
  "upgrade_test_node file = \<lparr>node_Text = ''should maintain a functioning cluster [Feature:ClusterUpgrade]'', node_FileName = file\<rparr>"

text \<open>
  C38: For every provider and network, the renamed upgrade test is in the upgrade suite of \<open>run-upgrade\<close> exactly when its
  file lies below a directory \<open>origin/test\<close>. In this repository it lies below \<open>openshift-tests/test\<close>, so that the suite does
  not contain it.
\<close>
theorem upgrade_suite_selects:
  "list_ex (\<lambda>s. ts_Matches s (''[Disruptive] Cluster upgrade ''
       @ node_Text (maybeRenameTest (newGinkgoTestRenamerFromGlobals provider networks)
           (''[Top Level] '' @ ''[Disruptive] Cluster upgrade '' @ node_Text (upgrade_test_node file)) (upgrade_test_node file))))
       (upgradeSuites longDesc)
    = str_contains file ''/origin/test/''"
proof -
  let ?n = "upgrade_test_node file" and ?pre = "''[Disruptive] Cluster upgrade ''" and ?top = "''[Top Level] ''"
  let ?n' = "maybeRenameTest (newGinkgoTestRenamerFromGlobals provider networks) (?top @ ?pre @ node_Text ?n) ?n"
  have c: "str_contains (?top @ ?pre @ node_Text ?n) ''[Disruptive]''" "\<not> str_contains (?pre @ node_Text ?n) ''[Suite:openshift''"
    "str_contains (?pre @ node_Text ?n) ''[Feature:ClusterUpgrade]''"
    by (simp_all add: upgrade_test_node_def)
  note r = disruptive_renamed [OF c(1,2), of provider networks]
  from r(2) obtain t where "node_Text ?n' = node_Text ?n @ t" by blast
  then have "str_contains (?pre @ node_Text ?n') ''[Feature:ClusterUpgrade]''"
    using str_contains_appendL [OF c(3), of t] by (simp only: append_assoc)
  moreover have "str_contains (?pre @ node_Text ?n') ''[Suite:openshift]'' = str_contains file ''/origin/test/''"
    using r(1) by (simp add: upgrade_test_node_def)
  moreover have "list_ex (\<lambda>s. ts_Matches s name) (upgradeSuites longDesc)
    = (str_contains name ''[Feature:ClusterUpgrade]'' \<and> str_contains name ''[Suite:openshift]'')" for name
    by (simp add: upgradeSuites_def)
  ultimately show ?thesis by (simp only: simp_thms)
qed

end
